theory Spec2Isabelle
  imports
    Main
    "HOL-Library.Sublist"
    "HOL-Library.Char_ord"
    "HOL-Library.List_Lexorder"
    "HOL-Library.AList"
    "HOL-Library.Multiset"
begin

section \<open>The graph store\<close>

text \<open>
  An RDF term is a URI reference, a blank node or a literal (lexical form, optional
  language tag, optional datatype URI).  The graph is the sequence of its triples in the
  order in which the store yields them; \<open>objects\<close>, \<open>subjects\<close>,
  \<open>predicate_objects\<close> and \<open>graph_value\<close> are the pattern queries of the store
  that the extractor uses.
\<close>

datatype node =
    URIRef string
  | BNode string
  | Literal string "string option" "string option"

type_synonym triple = "node \<times> node \<times> node"
type_synonym graph = "triple list"

text \<open>Python's \<open>str(node)\<close>: the URI, the blank node identifier, the lexical form.\<close>

fun py_str :: "node \<Rightarrow> string" where
  "py_str (URIRef u) = u"
| "py_str (BNode b) = b"
| "py_str (Literal v l d) = v"

text \<open>\<open>getattr(node, 'language', None)\<close>: only literals have a language.\<close>

fun language :: "node \<Rightarrow> string option" where
  "language (Literal v l d) = l"
| "language (URIRef u) = None"
| "language (BNode b) = None"

fun is_Literal :: "node \<Rightarrow> bool" where
  "is_Literal (Literal v l d) = True"
| "is_Literal (URIRef u) = False"
| "is_Literal (BNode b) = False"

fun is_BNode :: "node \<Rightarrow> bool" where
  "is_BNode (BNode b) = True"
| "is_BNode (URIRef u) = False"
| "is_BNode (Literal v l d) = False"

fun is_URIRef :: "node \<Rightarrow> bool" where
  "is_URIRef (URIRef u) = True"
| "is_URIRef (BNode b) = False"
| "is_URIRef (Literal v l d) = False"

text \<open>
  Equality of terms as the store's library defines it: terms of different kinds are
  never equal; two literals are equal when their lexical forms and datatypes are equal
  and their language tags are equal up to case.  A language tag consists of ASCII letters,
  digits and hyphens, so \<open>py_lower\<close>, which lowers the letters A to Z, is
  \<open>str.lower\<close> on language tags; it is used for nothing else.
\<close>

definition lower_char :: "char \<Rightarrow> char" where
  "lower_char c =
     (if CHR ''A'' \<le> c \<and> c \<le> CHR ''Z'' then char_of (of_char c + (32 :: nat)) else c)"

definition py_lower :: "string \<Rightarrow> string" where
  "py_lower s = map lower_char s"

fun node_eq :: "node \<Rightarrow> node \<Rightarrow> bool" where
  "node_eq (Literal v l d) (Literal v' l' d') =
     (d = d' \<and> map_option py_lower l = map_option py_lower l' \<and> v = v')"
| "node_eq a b = (a = b)"

definition objects :: "graph \<Rightarrow> node \<Rightarrow> node \<Rightarrow> node list" where
  "objects g s p = map (\<lambda>(s', p', ob). ob) (filter (\<lambda>(s', p', ob). s' = s \<and> p' = p) g)"

definition subjects :: "graph \<Rightarrow> node \<Rightarrow> node \<Rightarrow> node list" where
  "subjects g p ob = map (\<lambda>(s', p', ob'). s') (filter (\<lambda>(s', p', ob'). p' = p \<and> ob' = ob) g)"

text \<open>
  The store yields the predicate-object pairs of a subject grouped by predicate: the
  predicates in the order of their first triple, the objects of each in the order of
  \<open>objects\<close>.
\<close>

definition predicate_objects :: "graph \<Rightarrow> node \<Rightarrow> (node \<times> node) list" where
  "predicate_objects g s =
     concat (map (\<lambda>p. map (\<lambda>ob. (p, ob)) (objects g s p))
       (rev (remdups (rev (map (\<lambda>(s', p', ob). p') (filter (\<lambda>(s', p', ob). s' = s) g))))))"

definition graph_value :: "graph \<Rightarrow> node \<Rightarrow> node \<Rightarrow> node option" where
  "graph_value g s p = (case objects g s p of [] \<Rightarrow> None | ob # rest \<Rightarrow> Some ob)"

subsection \<open>Vocabulary\<close>

definition RDF_ns :: string where
  "RDF_ns = ''http://www.w3.org/1999/02/22-rdf-syntax-ns#''"

definition RDFS_ns :: string where
  "RDFS_ns = ''http://www.w3.org/2000/01/rdf-schema#''"

definition OWL_ns :: string where
  "OWL_ns = ''http://www.w3.org/2002/07/owl#''"

definition DC_ns :: string where
  "DC_ns = ''http://purl.org/dc/elements/1.1/''"

definition DCTERMS_ns :: string where
  "DCTERMS_ns = ''http://purl.org/dc/terms/''"

definition RDF :: "string \<Rightarrow> node" where
  "RDF name = URIRef (RDF_ns @ name)"

definition RDFS :: "string \<Rightarrow> node" where
  "RDFS name = URIRef (RDFS_ns @ name)"

definition OWL :: "string \<Rightarrow> node" where
  "OWL name = URIRef (OWL_ns @ name)"

definition DC :: "string \<Rightarrow> node" where
  "DC name = URIRef (DC_ns @ name)"

definition DCTERMS :: "string \<Rightarrow> node" where
  "DCTERMS name = URIRef (DCTERMS_ns @ name)"

section \<open>parser.py: locally defined resources and display URLs\<close>

definition defining_types :: "node list" where
  "defining_types =
     [OWL ''Class'', RDFS ''Class'',
      OWL ''ObjectProperty'', OWL ''DatatypeProperty'', OWL ''AnnotationProperty'',
      OWL ''NamedIndividual'',
      RDFS ''Datatype'']"

text \<open>
  \<open>OntologyParser.__init__\<close>: the set of the URIs of all URI-reference subjects typed
  by one of the defining types.
\<close>

definition defined_resources :: "graph \<Rightarrow> string set" where
  "defined_resources g =
     set (map py_str
       (concat (map (\<lambda>dtype. filter is_URIRef (subjects g (RDF ''type'') dtype)) defining_types)))"

definition resolve_url :: "string set \<Rightarrow> string \<Rightarrow> string" where
  "resolve_url defined uri = (if uri \<in> defined then CHR ''#'' # uri else uri)"

section \<open>parser.py: the literal resolver\<close>

text \<open>
  The literal objects of \<open>subject\<close> over the predicates, in encounter order.
  The source accepts one predicate or a list of them; a single predicate is passed here
  as a one-element list, as the source's first statement makes it.
\<close>

definition candidates :: "graph \<Rightarrow> node \<Rightarrow> node list \<Rightarrow> node list" where
  "candidates g subject predicates =
     concat (map (\<lambda>p. filter is_Literal (objects g subject p)) predicates)"

definition format_other :: "node \<Rightarrow> string" where
  "format_other l =
     (case language l of
        None \<Rightarrow> py_str l
      | Some lang \<Rightarrow> if lang \<noteq> [] then py_str l @ '' @'' @ lang else py_str l)"

definition extract_preferred_and_others ::
  "graph \<Rightarrow> node \<Rightarrow> node list \<Rightarrow> string option \<times> string list" where
  "extract_preferred_and_others g subject predicates =
     (let cs = candidates g subject predicates in
      if cs = [] then (None, [])
      else
        (case filter (\<lambda>c. language c = Some ''en'') cs of
           preferred # more \<Rightarrow>
             (Some (py_str preferred),
              map format_other (filter (\<lambda>c. \<not> node_eq c preferred) cs))
         | [] \<Rightarrow> (Some (py_str (hd cs)), map format_other (tl cs))))"

definition get_literal :: "graph \<Rightarrow> node \<Rightarrow> node list \<Rightarrow> string option" where
  "get_literal g subject predicates = fst (extract_preferred_and_others g subject predicates)"

text \<open>
  What the specification's words ask of the alternates when an \<open>en\<close>-tagged candidate
  exists: every candidate but the preferred one (the first \<open>en\<close>-tagged one), that is,
  the candidate list with that one position removed.
\<close>

fun spec_others :: "node list \<Rightarrow> node list" where
  "spec_others [] = []"
| "spec_others (c # cs) = (if language c = Some ''en'' then cs else c # spec_others cs)"

section \<open>Behaviour taken from the graph library\<close>

text \<open>
  The extractor calls operations of the graph and URL libraries whose code is not part
  of the repository.  They are parameters of the model:
  \<^item> \<open>compute_qname\<close>: the prefixed-name computation \<open>(prefix, namespace, name)\<close>
    for a term under the graph's namespace table, \<open>None\<close> when it raises;
  \<^item> \<open>qname\<close>: the prefixed name as one string, \<open>None\<close> when it raises;
  \<^item> \<open>literal_bool\<close>: the truth value of a literal in a Boolean context (it depends
    on the literal's datatype conversion);
  \<^item> \<open>url_scheme\<close>: the scheme that \<open>urlparse\<close> finds in a URL.
\<close>

record rdflib =
  compute_qname :: "node \<Rightarrow> (string \<times> string \<times> string) option"
  qname :: "node \<Rightarrow> string option"
  literal_bool :: "node \<Rightarrow> bool"
  url_scheme :: "string \<Rightarrow> string"

text \<open>
  Truth value of a term in a Boolean context: URI references and blank nodes are
  strings, false exactly when empty.
\<close>

fun truthy :: "rdflib \<Rightarrow> node \<Rightarrow> bool" where
  "truthy lib (URIRef u) = (u \<noteq> [])"
| "truthy lib (BNode b) = (b \<noteq> [])"
| "truthy lib (Literal v l d) = literal_bool lib (Literal v l d)"

section \<open>parser.py: the name resolver\<close>

definition is_digit :: "char \<Rightarrow> bool" where
  "is_digit c = (CHR ''0'' \<le> c \<and> c \<le> CHR ''9'')"

text \<open>
  \<open>re.match(r"^ns\d+$", prefix)\<close>: the letters \<open>ns\<close>, one or more digits, and the
  end of the string, which \<open>$\<close> also finds before one final newline.
\<close>

fun is_auto_generated :: "string \<Rightarrow> bool" where
  "is_auto_generated (c1 # c2 # rest) =
     (c1 = CHR ''n'' \<and> c2 = CHR ''s'' \<and>
      (let ds = (if rest \<noteq> [] \<and> last rest = CHR 0x0A then butlast rest else rest)
       in ds \<noteq> [] \<and> list_all is_digit ds))"
| "is_auto_generated [c1] = False"
| "is_auto_generated [] = False"

definition get_label_or_qname :: "rdflib \<Rightarrow> graph \<Rightarrow> node \<Rightarrow> string" where
  "get_label_or_qname lib g subject =
     (let label = get_literal g subject [RDFS ''label''] in
      if label \<noteq> None \<and> label \<noteq> Some [] then the label
      else
        (case compute_qname lib subject of
           Some (pfx, ns, name) \<Rightarrow>
             if pfx \<noteq> [] then
               (if is_auto_generated pfx then py_str subject
                else pfx @ '':'' @ name)
             else (if name \<noteq> [] then '':'' @ name else py_str subject)
         | None \<Rightarrow> py_str subject))"

definition get_list :: "rdflib \<Rightarrow> graph \<Rightarrow> node \<Rightarrow> node list \<Rightarrow> string list" where
  "get_list lib g subject predicates =
     concat (map (\<lambda>p. map (get_label_or_qname lib g) (objects g subject p)) predicates)"

section \<open>parser.py: ontology metadata\<close>

record OntologyMetadata =
  md_uri :: string
  md_title :: "string option"
  md_date :: "string option"
  md_version :: "string option"
  md_creators :: "string list"
  md_contributors :: "string list"
  md_publishers :: "string list"
  md_imports :: "string list"
  md_license :: "string option"
  md_abstract :: "string option"
  md_description :: "string option"

text \<open>The dataclass's defaults: \<open>OntologyMetadata(uri=u)\<close>.\<close>

definition OntologyMetadata_default :: "string \<Rightarrow> OntologyMetadata" where
  "OntologyMetadata_default u =
     \<lparr>md_uri = u, md_title = None, md_date = None, md_version = None,
      md_creators = [], md_contributors = [], md_publishers = [], md_imports = [],
      md_license = None, md_abstract = None, md_description = None\<rparr>"

definition find_ontology_node :: "graph \<Rightarrow> node option" where
  "find_ontology_node g =
     (case subjects g (RDF ''type'') (OWL ''Ontology'') of [] \<Rightarrow> None | s # rest \<Rightarrow> Some s)"

definition get_metadata :: "rdflib \<Rightarrow> graph \<Rightarrow> OntologyMetadata" where
  "get_metadata lib g =
     (case find_ontology_node g of
        None \<Rightarrow> OntologyMetadata_default ''unknown''
      | Some ontology_node \<Rightarrow>
          if \<not> truthy lib ontology_node then OntologyMetadata_default ''unknown''
          else
            \<lparr>md_uri = py_str ontology_node,
             md_title = get_literal g ontology_node [DC ''title'', DCTERMS ''title'', RDFS ''label''],
             md_date = get_literal g ontology_node [DC ''date'', DCTERMS ''date''],
             md_version = get_literal g ontology_node [OWL ''versionInfo''],
             md_creators = get_list lib g ontology_node [DC ''creator'', DCTERMS ''creator''],
             md_contributors =
               get_list lib g ontology_node [DC ''contributor'', DCTERMS ''contributor''],
             md_publishers = get_list lib g ontology_node [DC ''publisher'', DCTERMS ''publisher''],
             md_imports = get_list lib g ontology_node [OWL ''imports''],
             md_license =
               get_literal g ontology_node [DC ''rights'', DCTERMS ''rights'', DCTERMS ''license''],
             md_abstract = get_literal g ontology_node [DCTERMS ''abstract'', RDFS ''comment''],
             md_description =
               get_literal g ontology_node [DC ''description'', DCTERMS ''description'']\<rparr>)"

section \<open>model.py and parser.py: entity records\<close>

record Element =
  uri :: string
  label :: "string option"
  comment :: "string option"
  description :: "string option"
  is_defined_by :: "string option"
  type_label :: "string option"
  url :: "string option"
  other_labels :: "string list"

record Property = Element +
  super_properties :: "Element list"
  sub_properties :: "Element list"
  domains :: "Element list"
  ranges :: "Element list"
  inverse_of :: "Element list"
  property_disjoint_with :: "Element list"

record Individual = Element +
  types :: "Element list"
  same_as :: "string list"
  assertions :: "(string \<times> string \<times> string \<times> string option) list"

text \<open>Python's \<open>sep.join(xs)\<close>.\<close>

fun py_join :: "string \<Rightarrow> string list \<Rightarrow> string" where
  "py_join sep [] = []"
| "py_join sep [x] = x"
| "py_join sep (x # y # ys) = x @ sep @ py_join sep (y # ys)"

definition get_comment_with_translations :: "graph \<Rightarrow> node \<Rightarrow> string option" where
  "get_comment_with_translations g node =
     (case extract_preferred_and_others g node [RDFS ''comment''] of
        (best, others) \<Rightarrow>
          if best \<noteq> None \<and> best \<noteq> Some [] \<and> others \<noteq> []
          then Some (the best @ [CHR 0x0A, CHR 0x0A] @ py_join [CHR 0x0A] others)
          else best)"

definition create_element :: "rdflib \<Rightarrow> graph \<Rightarrow> node \<Rightarrow> string option \<Rightarrow> Element" where
  "create_element lib g node tlabel =
     (let uri_str = py_str node;
          other = snd (extract_preferred_and_others g node [RDFS ''label''])
      in \<lparr>uri = uri_str,
          label = Some (get_label_or_qname lib g node),
          comment = None, description = None, is_defined_by = None,
          type_label = tlabel,
          url = Some (resolve_url (defined_resources g) uri_str),
          other_labels = other\<rparr>)"

text \<open>
  The loops of the extractor that skip blank nodes and append one element per remaining
  node.
\<close>

definition named_elements ::
  "rdflib \<Rightarrow> graph \<Rightarrow> node list \<Rightarrow> string \<Rightarrow> Element list" where
  "named_elements lib g nodes tlabel =
     map (\<lambda>n. create_element lib g n (Some tlabel)) (filter (\<lambda>n. \<not> is_BNode n) nodes)"

definition create_property ::
  "rdflib \<Rightarrow> graph \<Rightarrow> node \<Rightarrow> string \<Rightarrow> string \<Rightarrow> Property" where
  "create_property lib g node type_label_arg short_type =
     (let uri_str = py_str node;
          other = snd (extract_preferred_and_others g node [RDFS ''label''])
      in \<lparr>uri = uri_str,
          label = Some (get_label_or_qname lib g node),
          comment = get_comment_with_translations g node,
          description = None, is_defined_by = None,
          type_label = Some short_type,
          url = Some (resolve_url (defined_resources g) uri_str),
          other_labels = other,
          super_properties =
            named_elements lib g (objects g node (RDFS ''subPropertyOf'')) short_type,
          sub_properties =
            named_elements lib g (subjects g (RDFS ''subPropertyOf'') node) short_type,
          domains = named_elements lib g (objects g node (RDFS ''domain'')) ''c'',
          ranges = named_elements lib g (objects g node (RDFS ''range'')) ''c'',
          inverse_of = named_elements lib g (objects g node (OWL ''inverseOf'')) short_type,
          property_disjoint_with = []\<rparr>)"

text \<open>The sort key \<open>lambda x: x.label or x.uri\<close>.\<close>

definition label_or_uri :: "'a Element_scheme \<Rightarrow> string" where
  "label_or_uri x =
     (case label x of None \<Rightarrow> uri x | Some l \<Rightarrow> if l \<noteq> [] then l else uri x)"

definition get_object_properties :: "rdflib \<Rightarrow> graph \<Rightarrow> Property list" where
  "get_object_properties lib g =
     sort_key label_or_uri
       (map (\<lambda>s. create_property lib g s ''ObjectProperty'' ''op'')
          (filter (\<lambda>s. \<not> is_BNode s) (subjects g (RDF ''type'') (OWL ''ObjectProperty''))))"

definition get_datatype_properties :: "rdflib \<Rightarrow> graph \<Rightarrow> Property list" where
  "get_datatype_properties lib g =
     sort_key label_or_uri
       (map (\<lambda>s. create_property lib g s ''DatatypeProperty'' ''dp'')
          (filter (\<lambda>s. \<not> is_BNode s) (subjects g (RDF ''type'') (OWL ''DatatypeProperty''))))"

definition get_annotation_properties :: "rdflib \<Rightarrow> graph \<Rightarrow> Property list" where
  "get_annotation_properties lib g =
     sort_key label_or_uri
       (map (\<lambda>s. create_property lib g s ''AnnotationProperty'' ''ap'')
          (filter (\<lambda>s. \<not> is_BNode s) (subjects g (RDF ''type'') (OWL ''AnnotationProperty''))))"

definition get_properties :: "rdflib \<Rightarrow> graph \<Rightarrow> Property list" where
  "get_properties lib g =
     sort_key label_or_uri
       (get_object_properties lib g @ get_datatype_properties lib g @
        get_annotation_properties lib g)"

subsection \<open>Named individuals\<close>

definition exclude_namespaces :: "string list" where
  "exclude_namespaces = [RDF_ns, RDFS_ns, DC_ns, DCTERMS_ns]"

definition exclude_props :: "node list" where
  "exclude_props = [OWL ''sameAs'']"

text \<open>The two exclusion checks of the assertion loop, on a predicate \<open>p\<close>.\<close>

definition excluded_predicate :: "node \<Rightarrow> bool" where
  "excluded_predicate p =
     (list_ex (node_eq p) exclude_props \<or>
      list_ex (\<lambda>ns. prefix ns (py_str p)) exclude_namespaces)"

definition prop_qname_of :: "rdflib \<Rightarrow> node \<Rightarrow> string" where
  "prop_qname_of lib p =
     (case compute_qname lib p of
        Some (pfx, ns, name) \<Rightarrow>
          if pfx \<noteq> [] \<and> \<not> is_auto_generated pfx then pfx @ '':'' @ name
          else (if name \<noteq> [] then name else py_str p)
      | None \<Rightarrow> py_str p)"

definition obj_label_of :: "rdflib \<Rightarrow> node \<Rightarrow> string" where
  "obj_label_of lib ob =
     (if is_URIRef ob then
        (case compute_qname lib ob of
           Some (pfx, ns, oname) \<Rightarrow>
             if pfx \<noteq> [] \<and> \<not> is_auto_generated pfx then pfx @ '':'' @ oname else py_str ob
         | None \<Rightarrow> py_str ob)
      else py_str ob)"

definition assertion_of ::
  "rdflib \<Rightarrow> graph \<Rightarrow> node \<Rightarrow> node \<Rightarrow> string \<times> string \<times> string \<times> string option" where
  "assertion_of lib g p ob =
     (prop_qname_of lib p,
      resolve_url (defined_resources g) (py_str p),
      obj_label_of lib ob,
      if is_URIRef ob then Some (resolve_url (defined_resources g) (py_str ob)) else None)"

definition individual_assertions ::
  "rdflib \<Rightarrow> graph \<Rightarrow> node \<Rightarrow> (string \<times> string \<times> string \<times> string option) list" where
  "individual_assertions lib g s =
     map (\<lambda>(p, ob). assertion_of lib g p ob)
       (filter (\<lambda>(p, ob). \<not> is_BNode ob \<and> \<not> excluded_predicate p) (predicate_objects g s))"

text \<open>The body of the loop of \<open>get_named_individuals\<close> for one subject \<open>s\<close>.\<close>

definition named_individual :: "rdflib \<Rightarrow> graph \<Rightarrow> node \<Rightarrow> Individual" where
  "named_individual lib g s =
     (let uri_str = py_str s;
          other = snd (extract_preferred_and_others g s [RDFS ''label''])
      in \<lparr>uri = uri_str,
          label = Some (get_label_or_qname lib g s),
          comment = get_comment_with_translations g s,
          description = None, is_defined_by = None,
          type_label = Some ''ni'',
          url = Some (resolve_url (defined_resources g) uri_str),
          other_labels = other,
          types =
            named_elements lib g
              (filter (\<lambda>ob. ob \<noteq> OWL ''NamedIndividual'') (objects g s (RDF ''type''))) ''c'',
          same_as = map py_str (objects g s (OWL ''sameAs'')),
          assertions = individual_assertions lib g s\<rparr>)"

definition get_named_individuals :: "rdflib \<Rightarrow> graph \<Rightarrow> Individual list" where
  "get_named_individuals lib g =
     sort_key label_or_uri
       (map (named_individual lib g)
          (filter (\<lambda>s. \<not> is_BNode s) (subjects g (RDF ''type'') (OWL ''NamedIndividual''))))"

subsection \<open>Restrictions and classes\<close>

record Restriction =
  on_property :: Element
  rtype :: string
  amount :: "string option"
  target_values :: "Element list"
  literal_value :: "string option"

record Class = Element +
  super_classes :: "Element list"
  sub_classes :: "Element list"
  in_domain_of :: "Element list"
  in_range_of :: "Element list"
  class_members :: "Element list"
  disjoint_with :: "Element list"
  restrictions :: "Restriction list"
  skos_properties :: "(string \<times> string) list"

definition SKOS_ns :: string where
  "SKOS_ns = ''http://www.w3.org/2004/02/skos/core#''"

text \<open>
  The result of an operation that can fail to return or raise: \<open>None\<close> when the
  fuel of its loops did not suffice, \<open>Some (Inl e)\<close> when it raises \<open>e\<close>,
  \<open>Some (Inr x)\<close> when it returns \<open>x\<close>.  \<open>RecursionError\<close> is the error
  of the interpreter when the calls nest deeper than its stack admits; \<open>Raised\<close> is
  an error of the library's \<open>qname\<close>.

  The recursive functions take two numbers.  \<open>depth\<close> is the number of further
  nested calls of the recursive functions that the stack admits below the call at hand: a
  nested call at depth \<open>0\<close> raises \<open>RecursionError\<close>.  \<open>fuel\<close> counts the
  iterations of the \<open>while\<close> loops, which have no bound of their own; a traversal
  that gives \<open>None\<close> for every amount of fuel never returns.
\<close>

datatype exn = Raised | RecursionError

text \<open>\<open>Element(uri=u, label=l, type_label='c')\<close>, the other fields at their defaults.\<close>

definition target_element :: "string \<Rightarrow> string \<Rightarrow> Element" where
  "target_element u l =
     \<lparr>uri = u, label = Some l, comment = None, description = None, is_defined_by = None,
      type_label = Some ''c'', url = None, other_labels = []\<rparr>"

text \<open>The label of a named restriction target.\<close>

definition target_label :: "rdflib \<Rightarrow> graph \<Rightarrow> node \<Rightarrow> string" where
  "target_label lib g node =
     (let label = get_literal g node [RDFS ''label''] in
      if label \<noteq> None \<and> label \<noteq> Some [] then the label
      else
        (case compute_qname lib node of
           Some (pfx, ns, name) \<Rightarrow> if pfx \<noteq> [] then pfx @ '':'' @ name else name
         | None \<Rightarrow> py_str node))"

text \<open>
  \<open>_get_elements_from_target\<close>, with the \<open>while\<close> loop over the members of a
  union as \<open>union_loop\<close>, which runs in the frame of its function.
\<close>

fun union_loop ::
    "rdflib \<Rightarrow> nat \<Rightarrow> nat \<Rightarrow> graph \<Rightarrow> node \<Rightarrow> Element list \<Rightarrow> (exn + Element list) option"
  and get_elements_from_target ::
    "rdflib \<Rightarrow> nat \<Rightarrow> nat \<Rightarrow> graph \<Rightarrow> node \<Rightarrow> (exn + Element list) option"
where
  "union_loop lib depth 0 g current elements =
     (if current \<noteq> RDF ''nil'' then None else Some (Inr elements))"
| "union_loop lib depth (Suc fuel) g current elements =
     (if current \<noteq> RDF ''nil'' then
        (case
           (case graph_value g current (RDF ''first'') of
              None \<Rightarrow> Some (Inr elements)
            | Some first \<Rightarrow>
                if truthy lib first then
                  (case depth of
                     0 \<Rightarrow> Some (Inl RecursionError)
                   | Suc d \<Rightarrow>
                       map_option (map_sum id (\<lambda>es. elements @ es))
                         (get_elements_from_target lib d fuel g first))
                else Some (Inr elements))
         of
           None \<Rightarrow> None
         | Some (Inl e) \<Rightarrow> Some (Inl e)
         | Some (Inr elements') \<Rightarrow>
             (case graph_value g current (RDF ''rest'') of
                None \<Rightarrow> Some (Inr elements')
              | Some nxt \<Rightarrow>
                  if \<not> truthy lib nxt then Some (Inr elements')
                  else union_loop lib depth fuel g nxt elements'))
      else Some (Inr elements))"
| "get_elements_from_target lib depth fuel g node =
     (if is_BNode node then
        (case graph_value g node (OWL ''unionOf'') of
           None \<Rightarrow> Some (Inr [target_element (py_str node) ''Anonymous''])
         | Some union_head \<Rightarrow>
             if truthy lib union_head then union_loop lib depth fuel g union_head []
             else Some (Inr [target_element (py_str node) ''Anonymous'']))
      else Some (Inr [target_element (py_str node) (target_label lib g node)]))"

text \<open>
  Python's \<open>a or b\<close> on two optional terms, and the test \<open>if x:\<close> on one.
\<close>

definition py_or :: "rdflib \<Rightarrow> node option \<Rightarrow> node option \<Rightarrow> node option" where
  "py_or lib a b = (case a of None \<Rightarrow> b | Some x \<Rightarrow> if truthy lib x then a else b)"

definition if_truthy :: "rdflib \<Rightarrow> node option \<Rightarrow> node option" where
  "if_truthy lib a = (case a of None \<Rightarrow> None | Some x \<Rightarrow> if truthy lib x then a else None)"

text \<open>
  \<open>_parse_restriction\<close>.  Its \<open>depth\<close> is the one of its calls of
  \<open>_get_elements_from_target\<close>.
\<close>

definition parse_restriction ::
  "rdflib \<Rightarrow> nat \<Rightarrow> nat \<Rightarrow> graph \<Rightarrow> node \<Rightarrow> (exn + Restriction option) option" where
  "parse_restriction lib depth fuel g node =
     (case if_truthy lib (graph_value g node (OWL ''onProperty'')) of
        None \<Rightarrow> Some (Inr None)
      | Some on_prop \<Rightarrow>
          (let prop_type =
                 (if (on_prop, RDF ''type'', OWL ''DatatypeProperty'') \<in> set g then ''dp''
                  else if (on_prop, RDF ''type'', OWL ''AnnotationProperty'') \<in> set g then ''ap''
                  else ''op'');
               prop_element = create_element lib g on_prop (Some prop_type);
               r = \<lparr>on_property = prop_element, rtype = [], amount = None,
                    target_values = [], literal_value = None\<rparr>
           in
             case if_truthy lib (graph_value g node (OWL ''someValuesFrom'')) of
               Some some_values \<Rightarrow>
                 map_option
                   (map_sum id (\<lambda>targets. Some (r\<lparr>rtype := ''some'', target_values := targets\<rparr>)))
                   (get_elements_from_target lib depth fuel g some_values)
             | None \<Rightarrow>
             (case if_truthy lib (graph_value g node (OWL ''allValuesFrom'')) of
               Some all_values \<Rightarrow>
                 map_option
                   (map_sum id (\<lambda>targets. Some (r\<lparr>rtype := ''only'', target_values := targets\<rparr>)))
                   (get_elements_from_target lib depth fuel g all_values)
             | None \<Rightarrow>
             (case if_truthy lib (graph_value g node (OWL ''hasValue'')) of
               Some has_value \<Rightarrow>
                 Some (Inr (Some
                   (r\<lparr>rtype := ''value'', literal_value := Some (py_str has_value)\<rparr>)))
             | None \<Rightarrow>
             (case if_truthy lib
                     (py_or lib (graph_value g node (OWL ''minCardinality''))
                        (graph_value g node (OWL ''minQualifiedCardinality''))) of
               Some min_card \<Rightarrow>
                 Some (Inr (Some (r\<lparr>rtype := ''min'', amount := Some (py_str min_card)\<rparr>)))
             | None \<Rightarrow>
             (case if_truthy lib
                     (py_or lib (graph_value g node (OWL ''maxCardinality''))
                        (graph_value g node (OWL ''maxQualifiedCardinality''))) of
               Some max_card \<Rightarrow>
                 Some (Inr (Some (r\<lparr>rtype := ''max'', amount := Some (py_str max_card)\<rparr>)))
             | None \<Rightarrow>
             (case if_truthy lib
                     (py_or lib (graph_value g node (OWL ''cardinality''))
                        (graph_value g node (OWL ''qualifiedCardinality''))) of
               Some exact_card \<Rightarrow>
                 Some (Inr (Some
                   (r\<lparr>rtype := ''exactly'', amount := Some (py_str exact_card)\<rparr>)))
             | None \<Rightarrow> Some (Inr None))))))))"

text \<open>
  The loop of \<open>_create_class\<close> over the blank-node superclasses typed
  \<open>owl:Restriction\<close>, and its loop over the SKOS annotations, which calls the
  library's \<open>qname\<close> outside any \<open>try\<close>.
\<close>

fun class_restrictions ::
  "rdflib \<Rightarrow> nat \<Rightarrow> nat \<Rightarrow> graph \<Rightarrow> node list \<Rightarrow> (exn + Restriction list) option" where
  "class_restrictions lib depth fuel g [] = Some (Inr [])"
| "class_restrictions lib depth fuel g (ob # obs) =
     (if is_BNode ob \<and> (ob, RDF ''type'', OWL ''Restriction'') \<in> set g then
        (case parse_restriction lib depth fuel g ob of
           None \<Rightarrow> None
         | Some (Inl e) \<Rightarrow> Some (Inl e)
         | Some (Inr None) \<Rightarrow> class_restrictions lib depth fuel g obs
         | Some (Inr (Some restriction)) \<Rightarrow>
             map_option (map_sum id (\<lambda>rs. restriction # rs))
               (class_restrictions lib depth fuel g obs))
      else class_restrictions lib depth fuel g obs)"

fun class_skos_properties ::
  "rdflib \<Rightarrow> (node \<times> node) list \<Rightarrow> exn + (string \<times> string) list" where
  "class_skos_properties lib [] = Inr []"
| "class_skos_properties lib ((p, ob) # rest) =
     (if prefix SKOS_ns (py_str p) \<and> \<not> is_BNode ob then
        (case qname lib p of
           None \<Rightarrow> Inl Raised
         | Some prop_label \<Rightarrow>
             (case class_skos_properties lib rest of
                Inl e \<Rightarrow> Inl e
              | Inr props \<Rightarrow> Inr ((prop_label, py_str ob) # props)))
      else class_skos_properties lib rest)"

definition create_class ::
  "rdflib \<Rightarrow> nat \<Rightarrow> nat \<Rightarrow> graph \<Rightarrow> node \<Rightarrow> (exn + Class) option" where
  "create_class lib depth fuel g node =
     (let uri_str = py_str node;
          other = snd (extract_preferred_and_others g node [RDFS ''label''])
      in
        case class_restrictions lib depth fuel g (objects g node (RDFS ''subClassOf'')) of
          None \<Rightarrow> None
        | Some (Inl e) \<Rightarrow> Some (Inl e)
        | Some (Inr rs) \<Rightarrow>
            (case class_skos_properties lib (predicate_objects g node) of
               Inl e \<Rightarrow> Some (Inl e)
             | Inr skos \<Rightarrow>
                 Some (Inr
                   \<lparr>uri = uri_str,
                    label = Some (get_label_or_qname lib g node),
                    comment = get_comment_with_translations g node,
                    description = None, is_defined_by = None,
                    type_label = Some ''c'',
                    url = Some (resolve_url (defined_resources g) uri_str),
                    other_labels = other,
                    super_classes =
                      named_elements lib g (objects g node (RDFS ''subClassOf'')) ''c'',
                    sub_classes =
                      named_elements lib g (subjects g (RDFS ''subClassOf'') node) ''c'',
                    in_domain_of =
                      named_elements lib g (subjects g (RDFS ''domain'') node) ''op'',
                    in_range_of =
                      named_elements lib g (subjects g (RDFS ''range'') node) ''op'',
                    class_members =
                      named_elements lib g
                        (filter (\<lambda>subj. (subj, RDF ''type'', OWL ''Class'') \<notin> set g)
                           (subjects g (RDF ''type'') node)) ''ni'',
                    disjoint_with =
                      named_elements lib g (objects g node (OWL ''disjointWith'')) ''c'',
                    restrictions = rs,
                    skos_properties = skos\<rparr>)))"

text \<open>The loop of \<open>get_classes\<close>: the first class that fails ends it.\<close>

fun create_classes ::
  "rdflib \<Rightarrow> nat \<Rightarrow> nat \<Rightarrow> graph \<Rightarrow> node list \<Rightarrow> (exn + Class list) option" where
  "create_classes lib depth fuel g [] = Some (Inr [])"
| "create_classes lib depth fuel g (s # ss) =
     (if is_BNode s then create_classes lib depth fuel g ss
      else
        (case create_class lib depth fuel g s of
           None \<Rightarrow> None
         | Some (Inl e) \<Rightarrow> Some (Inl e)
         | Some (Inr c) \<Rightarrow>
             (case create_classes lib depth fuel g ss of
                None \<Rightarrow> None
              | Some (Inl e) \<Rightarrow> Some (Inl e)
              | Some (Inr cs) \<Rightarrow> Some (Inr (c # cs)))))"

definition get_classes ::
  "rdflib \<Rightarrow> nat \<Rightarrow> nat \<Rightarrow> graph \<Rightarrow> (exn + Class list) option" where
  "get_classes lib depth fuel g =
     (case create_classes lib depth fuel g (subjects g (RDF ''type'') (OWL ''Class'')) of
        None \<Rightarrow> None
      | Some (Inl e) \<Rightarrow> Some (Inl e)
      | Some (Inr classes) \<Rightarrow> Some (Inr (sort_key label_or_uri classes)))"

section \<open>ontology\_processor.py: ontology metadata\<close>

text \<open>
  The metadata dictionary maps a key to a list of strings or to one string.
  \<open>find_ontology_uri\<close> computes the processor's \<open>ontology_uri\<close> attribute.
\<close>

datatype metadata_value = StrList "string list" | Str string

definition find_ontology_uri :: "rdflib \<Rightarrow> graph \<Rightarrow> string \<Rightarrow> string option" where
  "find_ontology_uri lib g source_url =
     (case filter is_URIRef (subjects g (RDF ''type'') (OWL ''Ontology'')) of
        s # rest \<Rightarrow> Some (py_str s)
      | [] \<Rightarrow>
          if source_url \<noteq> [] \<and> url_scheme lib source_url \<in> {''http'', ''https''}
          then Some source_url else None)"

definition basic_metadata_props :: "(string \<times> node) list" where
  "basic_metadata_props =
     [(''title'', DC ''title''),
      (''description'', DC ''description''),
      (''creator'', DC ''creator''),
      (''date'', DC ''date''),
      (''version'', OWL ''versionInfo''),
      (''comment'', RDFS ''comment''),
      (''label'', RDFS ''label'')]"

fun basic_metadata ::
  "graph \<Rightarrow> node \<Rightarrow> (string \<times> node) list \<Rightarrow> (string \<rightharpoonup> metadata_value) \<Rightarrow>
   (string \<rightharpoonup> metadata_value)" where
  "basic_metadata g ontology_ref [] metadata = metadata"
| "basic_metadata g ontology_ref ((prop_name, prop_uri) # rest) metadata =
     (let vals = objects g ontology_ref prop_uri in
      basic_metadata g ontology_ref rest
        (if vals \<noteq> [] then metadata(prop_name \<mapsto> StrList (map py_str vals)) else metadata))"

definition get_ontology_metadata ::
  "graph \<Rightarrow> string option \<Rightarrow> (string \<rightharpoonup> metadata_value)" where
  "get_ontology_metadata g ontology_uri =
     (case ontology_uri of
        None \<Rightarrow> Map.empty
      | Some u \<Rightarrow>
          if u = [] then Map.empty
          else
            (let ontology_ref = URIRef u;
                 m1 = basic_metadata g ontology_ref basic_metadata_props Map.empty;
                 version_iris = objects g ontology_ref (OWL ''versionIRI'');
                 m2 = (if version_iris \<noteq> []
                       then m1(''version_iri'' \<mapsto> Str (py_str (hd version_iris))) else m1);
                 prior_versions = objects g ontology_ref (OWL ''priorVersion'');
                 m3 = (if prior_versions \<noteq> []
                       then m2(''prior_version'' \<mapsto> StrList (map py_str prior_versions)) else m2);
                 imports = objects g ontology_ref (OWL ''imports'')
             in if imports \<noteq> [] then m3(''imports'' \<mapsto> StrList (map py_str imports)) else m3))"

section \<open>ontology\_processor.py: the expression decoder\<close>

text \<open>
  A decoded class expression is a dictionary whose \<open>type\<close> entry is one of
  \<open>restriction\<close>, \<open>union\<close>, \<open>intersection\<close>, \<open>complement\<close> and
  \<open>enumeration\<close>; a restriction has the entries \<open>restriction_type\<close>,
  \<open>property\<close>, \<open>value\<close> and, optionally, \<open>on_class\<close>.  A list member is a
  string or a decoded expression.
\<close>

datatype class_expression =
    RestrictionExpr string string string "string option"
  | UnionExpr "member list"
  | IntersectionExpr "member list"
  | ComplementExpr string
  | EnumerationExpr "member list"
and member =
    Name string
  | Expr class_expression

definition restriction_types :: "(node \<times> string) list" where
  "restriction_types =
     [(OWL ''someValuesFrom'', ''some''),
      (OWL ''allValuesFrom'', ''all''),
      (OWL ''hasValue'', ''value''),
      (OWL ''minCardinality'', ''min''),
      (OWL ''maxCardinality'', ''max''),
      (OWL ''cardinality'', ''exactly''),
      (OWL ''minQualifiedCardinality'', ''min_qualified''),
      (OWL ''maxQualifiedCardinality'', ''max_qualified''),
      (OWL ''qualifiedCardinality'', ''exactly_qualified'')]"

text \<open>Python's \<open>sub in s\<close> on strings.\<close>

fun py_in :: "string \<Rightarrow> string \<Rightarrow> bool" where
  "py_in sub [] = (sub = [])"
| "py_in sub (c # cs) = (prefix sub (c # cs) \<or> py_in sub cs)"

text \<open>
  The loop over the restriction types: the first type, in the order of the table, for
  which the node has a value and an \<open>onProperty\<close> decides the result.
\<close>

fun find_restriction :: "graph \<Rightarrow> node \<Rightarrow> (node \<times> string) list \<Rightarrow> class_expression option" where
  "find_restriction g node [] = None"
| "find_restriction g node ((restriction_prop, restriction_type) # rest) =
     (case objects g node restriction_prop of
        [] \<Rightarrow> find_restriction g node rest
      | restriction_value # vs \<Rightarrow>
          (case objects g node (OWL ''onProperty'') of
             [] \<Rightarrow> find_restriction g node rest
           | on_prop # ps \<Rightarrow>
               Some (RestrictionExpr restriction_type (py_str on_prop)
                 (py_str restriction_value)
                 (if py_in ''qualified'' restriction_type then
                    (case objects g node (OWL ''onClass'') of
                       [] \<Rightarrow> None
                     | qualified_class # cs \<Rightarrow> Some (py_str qualified_class))
                  else None))))"

text \<open>
  \<open>_process_list\<close> and \<open>_process_class_expression\<close>, with \<open>depth\<close> and
  \<open>fuel\<close> as above.  \<open>current\<close> is \<open>None\<close> once the list has no
  successor; \<open>graph_value g current (RDF ''rest'')\<close> is the first element of the
  list of the \<open>rdf:rest\<close> objects, if any.
\<close>

fun process_list ::
    "rdflib \<Rightarrow> nat \<Rightarrow> nat \<Rightarrow> graph \<Rightarrow> node option \<Rightarrow> member list \<Rightarrow> (exn + member list) option"
  and process_class_expression ::
    "rdflib \<Rightarrow> nat \<Rightarrow> nat \<Rightarrow> graph \<Rightarrow> node \<Rightarrow> (exn + class_expression option) option"
where
  "process_list lib depth fuel g None members = Some (Inr members)"
| "process_list lib depth 0 g (Some current) members =
     (if truthy lib current \<and> current \<noteq> RDF ''nil'' then None else Some (Inr members))"
| "process_list lib depth (Suc fuel) g (Some current) members =
     (if truthy lib current \<and> current \<noteq> RDF ''nil'' then
        (case
           (case objects g current (RDF ''first'') of
              [] \<Rightarrow> Some (Inr members)
            | member # ms \<Rightarrow>
                if is_URIRef member then Some (Inr (members @ [Name (py_str member)]))
                else if is_BNode member then
                  (case depth of
                     0 \<Rightarrow> Some (Inl RecursionError)
                   | Suc d \<Rightarrow>
                       (case process_class_expression lib d fuel g member of
                          None \<Rightarrow> None
                        | Some (Inl e) \<Rightarrow> Some (Inl e)
                        | Some (Inr None) \<Rightarrow> Some (Inr members)
                        | Some (Inr (Some expression)) \<Rightarrow>
                            Some (Inr (members @ [Expr expression]))))
                else Some (Inr (members @ [Name (py_str member)])))
         of
           None \<Rightarrow> None
         | Some (Inl e) \<Rightarrow> Some (Inl e)
         | Some (Inr members') \<Rightarrow>
             process_list lib depth fuel g (graph_value g current (RDF ''rest'')) members')
      else Some (Inr members))"
| "process_class_expression lib depth fuel g node =
     (case find_restriction g node restriction_types of
        Some result \<Rightarrow> Some (Inr (Some result))
      | None \<Rightarrow>
          (case objects g node (OWL ''unionOf'') of
             u # us \<Rightarrow>
               (case depth of
                  0 \<Rightarrow> Some (Inl RecursionError)
                | Suc d \<Rightarrow>
                    map_option (map_sum id (\<lambda>members. Some (UnionExpr members)))
                      (process_list lib d fuel g (Some u) []))
           | [] \<Rightarrow>
               (case objects g node (OWL ''intersectionOf'') of
                  i # is \<Rightarrow>
                    (case depth of
                       0 \<Rightarrow> Some (Inl RecursionError)
                     | Suc d \<Rightarrow>
                         map_option (map_sum id (\<lambda>members. Some (IntersectionExpr members)))
                           (process_list lib d fuel g (Some i) []))
                | [] \<Rightarrow>
                    (case objects g node (OWL ''complementOf'') of
                       c # cs \<Rightarrow> Some (Inr (Some (ComplementExpr (py_str c))))
                     | [] \<Rightarrow>
                         (case objects g node (OWL ''oneOf'') of
                            e # es \<Rightarrow>
                              (case depth of
                                 0 \<Rightarrow> Some (Inl RecursionError)
                               | Suc d \<Rightarrow>
                                   map_option
                                     (map_sum id (\<lambda>members. Some (EnumerationExpr members)))
                                     (process_list lib d fuel g (Some e) []))
                          | [] \<Rightarrow> Some (Inr None))))))"

text \<open>
  The successor chain of a list node: \<open>rest_chain g c i\<close> is the node reached from
  \<open>c\<close> after \<open>i\<close> steps along \<open>rdf:rest\<close>.  The chain is endless when every
  step exists and no node on it ends the loop; in a graph, which is finite, such a chain
  revisits a node.
\<close>

fun rest_chain :: "graph \<Rightarrow> node \<Rightarrow> nat \<Rightarrow> node option" where
  "rest_chain g c 0 = Some c"
| "rest_chain g c (Suc i) =
     (case graph_value g c (RDF ''rest'') of None \<Rightarrow> None | Some c' \<Rightarrow> rest_chain g c' i)"

definition endless_list :: "rdflib \<Rightarrow> graph \<Rightarrow> node \<Rightarrow> bool" where
  "endless_list lib g c =
     (\<forall>i. \<exists>x. rest_chain g c i = Some x \<and> truthy lib x \<and> x \<noteq> RDF ''nil'')"

text \<open>
  The edges that the traversal follows: from a node to the objects of its
  \<open>rdf:first\<close>, \<open>rdf:rest\<close>, \<open>owl:unionOf\<close>, \<open>owl:intersectionOf\<close> and
  \<open>owl:oneOf\<close> triples (written object first).  The list encoding of a graph is
  acyclic when this relation is.
\<close>

definition list_predicates :: "node list" where
  "list_predicates =
     [RDF ''first'', RDF ''rest'', OWL ''unionOf'', OWL ''intersectionOf'', OWL ''oneOf'']"

definition traversal_edges :: "graph \<Rightarrow> (node \<times> node) set" where
  "traversal_edges g =
     set (map (\<lambda>(s, p, ob). (ob, s)) (filter (\<lambda>(s, p, ob). p \<in> set list_predicates) g))"

text \<open>
  The node has an \<open>onProperty\<close> and a value for one of the restriction predicates.
\<close>

definition has_restriction :: "graph \<Rightarrow> node \<Rightarrow> bool" where
  "has_restriction g node =
     (objects g node (OWL ''onProperty'') \<noteq> [] \<and>
      list_ex (\<lambda>(restriction_prop, restriction_type). objects g node restriction_prop \<noteq> [])
        restriction_types)"

text \<open>
  The restriction predicates that precede the qualified cardinalities in the order of
  the decoder.
\<close>

definition unqualified_predicates :: "node list" where
  "unqualified_predicates =
     [OWL ''someValuesFrom'', OWL ''allValuesFrom'', OWL ''hasValue'',
      OWL ''minCardinality'', OWL ''maxCardinality'', OWL ''cardinality'']"

text \<open>
  Bounds for a traversal at a node: with \<open>K\<close> iterations or more the function ends
  at the node with an outcome that does not depend on the budget; the outcome is not an
  error of the library, and with a stack that admits \<open>D\<close> nested calls or more it is
  a return.
\<close>

definition list_bounds :: "rdflib \<Rightarrow> graph \<Rightarrow> node \<Rightarrow> nat \<Rightarrow> nat \<Rightarrow> bool" where
  "list_bounds lib g x K D =
     (\<forall>depth ms. \<exists>r. (\<forall>fuel\<ge>K. process_list lib depth fuel g (Some x) ms = Some r) \<and>
        r \<noteq> Inl Raised \<and> (D \<le> depth \<longrightarrow> \<not> isl r))"

definition expression_bounds :: "rdflib \<Rightarrow> graph \<Rightarrow> node \<Rightarrow> nat \<Rightarrow> nat \<Rightarrow> bool" where
  "expression_bounds lib g x K D =
     (\<forall>depth. \<exists>r. (\<forall>fuel\<ge>K. process_class_expression lib depth fuel g x = Some r) \<and>
        r \<noteq> Inl Raised \<and> (D \<le> depth \<longrightarrow> \<not> isl r))"

definition loop_bounds :: "rdflib \<Rightarrow> graph \<Rightarrow> node \<Rightarrow> nat \<Rightarrow> nat \<Rightarrow> bool" where
  "loop_bounds lib g x K D =
     (\<forall>depth es. \<exists>r. (\<forall>fuel\<ge>K. union_loop lib depth fuel g x es = Some r) \<and>
        r \<noteq> Inl Raised \<and> (D \<le> depth \<longrightarrow> \<not> isl r))"

definition target_bounds :: "rdflib \<Rightarrow> graph \<Rightarrow> node \<Rightarrow> nat \<Rightarrow> nat \<Rightarrow> bool" where
  "target_bounds lib g x K D =
     (\<forall>depth. \<exists>r. (\<forall>fuel\<ge>K. get_elements_from_target lib depth fuel g x = Some r) \<and>
        r \<noteq> Inl Raised \<and> (D \<le> depth \<longrightarrow> \<not> isl r))"

text \<open>
  Every predicate of the graph in the SKOS namespace has a prefixed name in the library.
\<close>

definition skos_named :: "rdflib \<Rightarrow> graph \<Rightarrow> bool" where
  "skos_named lib g =
     list_all (\<lambda>(s, p, ob). prefix SKOS_ns (py_str p) \<longrightarrow> qname lib p \<noteq> None) g"

section \<open>html\_generator.py: the uniqueness resolver\<close>

text \<open>
  Python string operations.  \<open>split_on c s\<close> is \<open>s.split(c)\<close> for a separator of
  one character, \<open>py_rstrip c s\<close> is \<open>s.rstrip(c)\<close>, and \<open>remove_all old s\<close>
  is \<open>s.replace(old, '')\<close>: the occurrences of \<open>old\<close> are deleted from left to
  right.
\<close>

fun split_on :: "char \<Rightarrow> string \<Rightarrow> string list" where
  "split_on c [] = [[]]"
| "split_on c (x # xs) =
     (if x = c then [] # split_on c xs
      else (case split_on c xs of [] \<Rightarrow> [[x]] | h # t \<Rightarrow> (x # h) # t))"

definition py_rstrip :: "char \<Rightarrow> string \<Rightarrow> string" where
  "py_rstrip c s = rev (dropWhile (\<lambda>x. x = c) (rev s))"

function remove_all :: "string \<Rightarrow> string \<Rightarrow> string" where
  "remove_all old [] = []"
| "remove_all old (c # cs) =
     (if old \<noteq> [] \<and> prefix old (c # cs) then remove_all old (drop (length old) (c # cs))
      else c # remove_all old cs)"
  by pat_completeness auto
termination
  by (relation "measure (\<lambda>(old, s). length s)") auto

text \<open>
  The entries of an entity's dictionary that the uniqueness resolver reads: its
  \<open>uri\<close> and its \<open>labels\<close>, a dictionary from a language to the labels in that
  language.  A dictionary is an association list in insertion order.
\<close>

record entity_data =
  ed_uri :: string
  ed_labels :: "(string \<times> string list) list"

definition uri_to_label :: "string \<Rightarrow> string" where
  "uri_to_label u =
     (if CHR ''#'' \<in> set u then last (split_on (CHR ''#'') u)
      else if CHR ''/'' \<in> set u then last (split_on (CHR ''/'') u)
      else u)"

text \<open>\<open>lang in labels and labels[lang]\<close>, giving the first label of the language.\<close>

definition first_label :: "(string \<times> string list) list \<Rightarrow> string \<Rightarrow> string option" where
  "first_label labels lang =
     (case map_of labels lang of None \<Rightarrow> None | Some [] \<Rightarrow> None | Some (l # ls) \<Rightarrow> Some l)"

definition get_entity_label :: "entity_data \<Rightarrow> string \<Rightarrow> string" where
  "get_entity_label e lang =
     (case first_label (ed_labels e) lang of
        Some l \<Rightarrow> l
      | None \<Rightarrow>
          (case first_label (ed_labels e) ''en'' of
             Some l \<Rightarrow> l
           | None \<Rightarrow>
               (case filter (\<lambda>lang_labels. lang_labels \<noteq> []) (map snd (ed_labels e)) of
                  lang_labels # rest \<Rightarrow> hd lang_labels
                | [] \<Rightarrow> uri_to_label (ed_uri e))))"

fun get_prefix_for_uri :: "string \<Rightarrow> (string \<times> string) list \<Rightarrow> string option" where
  "get_prefix_for_uri u [] = None"
| "get_prefix_for_uri u ((pfx, namespace) # rest) =
     (if prefix namespace u then Some pfx else get_prefix_for_uri u rest)"

definition extract_namespace_prefix :: "string \<Rightarrow> string option" where
  "extract_namespace_prefix u =
     (case
        (if CHR ''#'' \<in> set u then Some (hd (split_on (CHR ''#'') u))
         else if CHR ''/'' \<in> set u then
           (let parts = split_on (CHR ''/'') (py_rstrip (CHR ''/'') u) in
            if length parts > 1 then Some (parts ! (length parts - 2)) else None)
         else None)
      of
        None \<Rightarrow> None
      | Some namespace \<Rightarrow>
          if namespace \<noteq> [] then
            (let ns1 = remove_all ''https://'' (remove_all ''http://'' namespace);
                 ns2 = remove_all ''www.'' ns1;
                 parts = split_on (CHR ''.'') ns2
             in if length parts > 1 then Some (take 8 (hd parts)) else Some (take 8 ns2))
          else None)"

text \<open>
  The clean-up of the namespace part in \<open>_extract_namespace_prefix\<close>, written
  without lists of parts: nothing for the empty string; otherwise every occurrence of
  \<open>http://\<close>, \<open>https://\<close> and \<open>www.\<close> is deleted, and the result is cut
  before its first dot and after 8 characters.
\<close>

definition clean_namespace :: "string \<Rightarrow> string option" where
  "clean_namespace namespace =
     (if namespace = [] then None
      else Some (take 8 (takeWhile (\<lambda>c. c \<noteq> CHR ''.'')
             (remove_all ''www.'' (remove_all ''https://'' (remove_all ''http://'' namespace))))))"

text \<open>
  \<open>d.update(new)\<close> on dictionaries: a key that is present keeps its position and
  takes the new value, a new key is appended.
\<close>

definition dict_update :: "('k \<times> 'v) list \<Rightarrow> ('k \<times> 'v) list \<Rightarrow> ('k \<times> 'v) list" where
  "dict_update d new = fold (\<lambda>(k, v). AList.update k v) new d"

definition all_entities ::
  "(string \<times> entity_data) list \<Rightarrow> (string \<times> entity_data) list \<Rightarrow>
   (string \<times> entity_data) list \<Rightarrow> (string \<times> entity_data) list" where
  "all_entities classes properties individuals =
     dict_update (dict_update (dict_update [] classes) properties) individuals"

text \<open>
  The key of the grouping: the lowered English display name.  \<open>str.lower\<close> is a
  function of the language's library; it is the parameter \<open>lower\<close>.
\<close>

definition display_name :: "(string \<Rightarrow> string) \<Rightarrow> entity_data \<Rightarrow> string" where
  "display_name lower e = lower (get_entity_label e ''en'')"

definition add_to_group ::
  "(string \<Rightarrow> string) \<Rightarrow> string \<times> entity_data \<Rightarrow>
   (string \<times> (string \<times> entity_data) list) list \<Rightarrow>
   (string \<times> (string \<times> entity_data) list) list" where
  "add_to_group lower ue name_groups =
     (let k = display_name lower (snd ue) in
      AList.update k ((case map_of name_groups k of None \<Rightarrow> [] | Some es \<Rightarrow> es) @ [ue])
        name_groups)"

definition name_groups ::
  "(string \<Rightarrow> string) \<Rightarrow> (string \<times> entity_data) list \<Rightarrow>
   (string \<times> (string \<times> entity_data) list) list" where
  "name_groups lower ents = fold (add_to_group lower) ents []"

text \<open>The label of a member of a group with a conflict.\<close>

definition conflict_label :: "(string \<times> string) list \<Rightarrow> string \<Rightarrow> entity_data \<Rightarrow> string" where
  "conflict_label namespaces u e =
     (let pfx = get_prefix_for_uri u namespaces;
          original_label = get_entity_label e ''en''
      in
        if pfx \<noteq> None \<and> pfx \<noteq> Some [] \<and> pfx \<noteq> Some ''base''
        then the pfx @ '':'' @ original_label
        else
          (case extract_namespace_prefix u of
             None \<Rightarrow> original_label
           | Some namespace_prefix \<Rightarrow>
               if namespace_prefix \<noteq> [] then namespace_prefix @ '':'' @ original_label
               else original_label))"

text \<open>
  The body of the loop over the groups.  A group is never empty (it is created with
  its first member), so the read of \<open>entities[0]\<close> is always in range; on the empty
  list the model leaves the labels as they are.
\<close>

definition label_group ::
  "(string \<times> string) list \<Rightarrow> string \<times> (string \<times> entity_data) list \<Rightarrow>
   (string \<rightharpoonup> string) \<Rightarrow> (string \<rightharpoonup> string)" where
  "label_group namespaces grp unique_labels =
     (let entities = snd grp in
      if length entities > 1 then
        fold (\<lambda>(u, e) labels. labels(u \<mapsto> conflict_label namespaces u e)) entities unique_labels
      else
        (case entities of
           [] \<Rightarrow> unique_labels
         | (u, e) # rest \<Rightarrow> unique_labels(u \<mapsto> get_entity_label e ''en'')))"

definition generate_unique_labels ::
  "(string \<Rightarrow> string) \<Rightarrow> (string \<times> entity_data) list \<Rightarrow> (string \<times> entity_data) list \<Rightarrow>
   (string \<times> entity_data) list \<Rightarrow> (string \<times> string) list \<Rightarrow> (string \<rightharpoonup> string)" where
  "generate_unique_labels lower classes properties individuals namespaces =
     fold (label_group namespaces)
       (name_groups lower (all_entities classes properties individuals)) Map.empty"

text \<open>
  The pseudo-prefix as the specification words it: the text before the last \<open>#\<close>,
  or the second-to-last \<open>/\<close>-delimited segment when there is no \<open>#\<close>; stripped of
  a leading scheme and a leading \<open>www.\<close>; its first \<open>.\<close>-delimited segment,
  truncated to 8 characters.
\<close>

definition strip_leading :: "string \<Rightarrow> string \<Rightarrow> string" where
  "strip_leading p s = (if prefix p s then drop (length p) s else s)"

definition spec_pseudo_prefix :: "string \<Rightarrow> string option" where
  "spec_pseudo_prefix u =
     (case
        (if CHR ''#'' \<in> set u then Some (rev (tl (dropWhile (\<lambda>c. c \<noteq> CHR ''#'') (rev u))))
         else if CHR ''/'' \<in> set u then
           (let parts = split_on (CHR ''/'') u in
            if length parts > 1 then Some (parts ! (length parts - 2)) else None)
         else None)
      of
        None \<Rightarrow> None
      | Some namespace \<Rightarrow>
          Some (take 8 (takeWhile (\<lambda>c. c \<noteq> CHR ''.'')
            (strip_leading ''www.''
               (strip_leading ''https://'' (strip_leading ''http://'' namespace))))))"

section \<open>Example inputs\<close>

text \<open>
  A namespace table for the examples: \<open>http://ex.org/\<close> is bound to the prefix
  \<open>ex\<close>, \<open>http://gen.org/\<close> to the generated prefix \<open>ns3\<close>, and
  \<open>http://default.org/\<close> is the default namespace; no prefixed name exists for any
  other term.
\<close>

definition example_compute_qname :: "node \<Rightarrow> (string \<times> string \<times> string) option" where
  "example_compute_qname n =
     (case n of
        URIRef u \<Rightarrow>
          if prefix ''http://ex.org/'' u then Some (''ex'', ''http://ex.org/'', drop 14 u)
          else if prefix ''http://gen.org/'' u then Some (''ns3'', ''http://gen.org/'', drop 15 u)
          else if prefix ''http://default.org/'' u then Some ([], ''http://default.org/'', drop 19 u)
          else None
      | BNode b \<Rightarrow> None
      | Literal v l d \<Rightarrow> None)"

definition example_lib :: rdflib where
  "example_lib =
     \<lparr>compute_qname = example_compute_qname,
      qname = (\<lambda>n. map_option (\<lambda>(pfx, ns, name). pfx @ '':'' @ name) (example_compute_qname n)),
      literal_bool = (\<lambda>n. py_str n \<noteq> []),
      url_scheme = (\<lambda>u. takeWhile (\<lambda>c. c \<noteq> CHR '':'') u)\<rparr>"

definition ex_Person :: node where
  "ex_Person = URIRef ''http://ex.org/Person''"

text \<open>The labels \<open>"Person"@en, "Personne"@fr, "Persoon"\<close> on one subject.\<close>

definition g_labels :: graph where
  "g_labels =
     [(ex_Person, RDFS ''label'', Literal ''Person'' (Some ''en'') None),
      (ex_Person, RDFS ''label'', Literal ''Personne'' (Some ''fr'') None),
      (ex_Person, RDFS ''label'', Literal ''Persoon'' None None)]"

text \<open>The labels \<open>"Persoon", "Personne"@fr\<close>: no candidate is tagged \<open>en\<close>.\<close>

definition g_labels_no_en :: graph where
  "g_labels_no_en =
     [(ex_Person, RDFS ''label'', Literal ''Persoon'' None None),
      (ex_Person, RDFS ''label'', Literal ''Personne'' (Some ''fr'') None)]"

text \<open>The same literal \<open>"Person"@en\<close> as a title and as a label of one subject.\<close>

definition g_dup :: graph where
  "g_dup =
     [(ex_Person, DC ''title'', Literal ''Person'' (Some ''en'') None),
      (ex_Person, RDFS ''label'', Literal ''Person'' (Some ''en'') None)]"

text \<open>A subject whose only label is the empty string.\<close>

definition g_empty_label :: graph where
  "g_empty_label = [(ex_Person, RDFS ''label'', Literal [] None None)]"

text \<open>A graph with one class and no ontology declaration.\<close>

definition g_no_ontology :: graph where
  "g_no_ontology = [(ex_Person, RDF ''type'', OWL ''Class'')]"



text \<open>
  A class expression \<open>_:u\<close> that is the union of the named classes \<open>ex:A\<close> and
  \<open>ex:B\<close>, with a well-formed list \<open>_:l1, _:l2\<close>.
\<close>

definition g_union :: graph where
  "g_union =
     [(BNode ''u'', OWL ''unionOf'', BNode ''l1''),
      (BNode ''l1'', RDF ''first'', URIRef ''http://ex.org/A''),
      (BNode ''l1'', RDF ''rest'', BNode ''l2''),
      (BNode ''l2'', RDF ''first'', URIRef ''http://ex.org/B''),
      (BNode ''l2'', RDF ''rest'', RDF ''nil'')]"

text \<open>
  A union whose list is cyclic: the successor of the list node \<open>_:l1\<close> is
  \<open>_:l1\<close> itself.
\<close>

definition g_cyclic :: graph where
  "g_cyclic =
     [(BNode ''u'', OWL ''unionOf'', BNode ''l1''),
      (BNode ''l1'', RDF ''first'', URIRef ''http://ex.org/A''),
      (BNode ''l1'', RDF ''rest'', BNode ''l1'')]"

text \<open>
  Anonymous nodes over the one-member list \<open>_:l\<close>: \<open>_:i\<close> has an enumeration,
  stored first, and an intersection; \<open>_:c\<close> has a complement and an enumeration;
  \<open>_:e\<close> has an enumeration only.
\<close>

definition g_expressions :: graph where
  "g_expressions =
     [(BNode ''i'', OWL ''oneOf'', BNode ''l''),
      (BNode ''i'', OWL ''intersectionOf'', BNode ''l''),
      (BNode ''c'', OWL ''complementOf'', URIRef ''http://ex.org/A''),
      (BNode ''c'', OWL ''oneOf'', BNode ''l''),
      (BNode ''e'', OWL ''oneOf'', BNode ''l''),
      (BNode ''l'', RDF ''first'', URIRef ''http://ex.org/A''),
      (BNode ''l'', RDF ''rest'', RDF ''nil'')]"

text \<open>
  A restriction node that carries \<open>someValuesFrom\<close> besides a qualified cardinality
  with its \<open>onClass\<close>, and a well-formed qualified minimum cardinality restriction.
\<close>

definition g_mixed_restriction :: graph where
  "g_mixed_restriction =
     [(BNode ''r'', RDF ''type'', OWL ''Restriction''),
      (BNode ''r'', OWL ''onProperty'', URIRef ''http://ex.org/hasPart''),
      (BNode ''r'', OWL ''minQualifiedCardinality'', Literal ''2'' None None),
      (BNode ''r'', OWL ''onClass'', URIRef ''http://ex.org/Wheel''),
      (BNode ''r'', OWL ''someValuesFrom'', URIRef ''http://ex.org/Part'')]"

definition g_qualified_restriction :: graph where
  "g_qualified_restriction =
     [(BNode ''r'', RDF ''type'', OWL ''Restriction''),
      (BNode ''r'', OWL ''onProperty'', URIRef ''http://ex.org/hasPart''),
      (BNode ''r'', OWL ''minQualifiedCardinality'', Literal ''2'' None None),
      (BNode ''r'', OWL ''onClass'', URIRef ''http://ex.org/Wheel'')]"

text \<open>
  A qualified exact cardinality of zero, as a typed literal.  The library converts a
  typed literal to its value, and the number \<open>0\<close> is false in a Boolean context;
  \<open>typed_lib\<close> is the example library with that truth value for the literal.
\<close>

definition zero_literal :: node where
  "zero_literal = Literal ''0'' None (Some ''http://www.w3.org/2001/XMLSchema#nonNegativeInteger'')"

definition typed_lib :: rdflib where
  "typed_lib = example_lib\<lparr>literal_bool := (\<lambda>n. n \<noteq> zero_literal \<and> py_str n \<noteq> [])\<rparr>"

definition g_zero_cardinality :: graph where
  "g_zero_cardinality =
     [(BNode ''r'', RDF ''type'', OWL ''Restriction''),
      (BNode ''r'', OWL ''onProperty'', URIRef ''http://ex.org/hasPart''),
      (BNode ''r'', OWL ''qualifiedCardinality'', zero_literal),
      (BNode ''r'', OWL ''onClass'', URIRef ''http://ex.org/Wheel'')]"

text \<open>
  The class \<open>ex:Car\<close> with the restriction \<open>ex:hasPart some ex:Wheel\<close>, where
  \<open>ex:Wheel\<close> is a class of the same graph.
\<close>

definition g_target :: graph where
  "g_target =
     [(URIRef ''http://ex.org/Wheel'', RDF ''type'', OWL ''Class''),
      (URIRef ''http://ex.org/Car'', RDF ''type'', OWL ''Class''),
      (URIRef ''http://ex.org/Car'', RDFS ''subClassOf'', BNode ''r''),
      (BNode ''r'', RDF ''type'', OWL ''Restriction''),
      (BNode ''r'', OWL ''onProperty'', URIRef ''http://ex.org/hasPart''),
      (BNode ''r'', OWL ''someValuesFrom'', URIRef ''http://ex.org/Wheel'')]"

text \<open>
  The class \<open>ex:Car\<close> with a restriction whose target is the union of \<open>ex:A\<close>
  and \<open>ex:B\<close>.
\<close>

definition g_union_class :: graph where
  "g_union_class =
     [(URIRef ''http://ex.org/Car'', RDF ''type'', OWL ''Class''),
      (URIRef ''http://ex.org/Car'', RDFS ''subClassOf'', BNode ''r''),
      (BNode ''r'', RDF ''type'', OWL ''Restriction''),
      (BNode ''r'', OWL ''onProperty'', URIRef ''http://ex.org/hasPart''),
      (BNode ''r'', OWL ''someValuesFrom'', BNode ''u''),
      (BNode ''u'', OWL ''unionOf'', BNode ''l1''),
      (BNode ''l1'', RDF ''first'', URIRef ''http://ex.org/A''),
      (BNode ''l1'', RDF ''rest'', BNode ''l2''),
      (BNode ''l2'', RDF ''first'', URIRef ''http://ex.org/B''),
      (BNode ''l2'', RDF ''rest'', RDF ''nil'')]"

text \<open>
  A class with a restriction whose target is a union with a cyclic list.
\<close>

definition g_cyclic_class :: graph where
  "g_cyclic_class =
     [(URIRef ''http://ex.org/Car'', RDF ''type'', OWL ''Class''),
      (URIRef ''http://ex.org/Car'', RDFS ''subClassOf'', BNode ''r''),
      (BNode ''r'', RDF ''type'', OWL ''Restriction''),
      (BNode ''r'', OWL ''onProperty'', URIRef ''http://ex.org/hasPart''),
      (BNode ''r'', OWL ''someValuesFrom'', BNode ''u''),
      (BNode ''u'', OWL ''unionOf'', BNode ''l1''),
      (BNode ''l1'', RDF ''first'', URIRef ''http://ex.org/A''),
      (BNode ''l1'', RDF ''rest'', BNode ''l1'')]"

text \<open>
  Two object properties, declared in the order \<open>ex:knows\<close> (label \<open>knows\<close>),
  \<open>ex:likes\<close> (label \<open>admires\<close>).
\<close>

definition g_properties :: graph where
  "g_properties =
     [(URIRef ''http://ex.org/knows'', RDF ''type'', OWL ''ObjectProperty''),
      (URIRef ''http://ex.org/knows'', RDFS ''label'', Literal ''knows'' None None),
      (URIRef ''http://ex.org/likes'', RDF ''type'', OWL ''ObjectProperty''),
      (URIRef ''http://ex.org/likes'', RDFS ''label'', Literal ''admires'' None None)]"

text \<open>
  Two entities that both display as \<open>Name\<close>, and a third with a name of its own.  The
  namespace table registers the empty prefix for \<open>http://ex.org/\<close> and the prefix
  \<open>s\<close> for \<open>http://ex.org/sub/\<close>.
\<close>

definition ed_sub_name :: entity_data where
  "ed_sub_name = \<lparr>ed_uri = ''http://ex.org/sub/Name'', ed_labels = [(''en'', [''Name''])]\<rparr>"

definition ed_other_name :: entity_data where
  "ed_other_name = \<lparr>ed_uri = ''http://www.other.org/v#name'', ed_labels = []\<rparr>"

definition ed_thing :: entity_data where
  "ed_thing = \<lparr>ed_uri = ''http://ex.org/sub/Thing'', ed_labels = [(''en'', [''Thing''])]\<rparr>"

definition example_classes :: "(string \<times> entity_data) list" where
  "example_classes =
     [(''http://ex.org/sub/Name'', ed_sub_name), (''http://ex.org/sub/Thing'', ed_thing)]"

definition example_properties :: "(string \<times> entity_data) list" where
  "example_properties = [(''http://www.other.org/v#name'', ed_other_name)]"

definition example_namespaces :: "(string \<times> string) list" where
  "example_namespaces = [([], ''http://ex.org/''), (''s'', ''http://ex.org/sub/'')]"

section \<open>Properties\<close>

lemma resolve_url_anchor_iff:
  "resolve_url defined u = CHR ''#'' # u \<longleftrightarrow> u \<in> defined"
  by (simp add: resolve_url_def)

subsection \<open>The literal resolver\<close>

lemma node_eq_refl: "node_eq c c"
  by (cases c) simp_all

lemma find_filter_hd: "find P cs = Some p \<Longrightarrow> \<exists>others. filter P cs = p # others"
  by (induction cs) (auto split: if_splits)

lemma find_None_filter: "find P cs = None \<Longrightarrow> filter P cs = []"
  by (induction cs) (auto split: if_splits)

lemma filter_not_eq_spec_others:
  "find (\<lambda>c. language c = Some ''en'') cs = Some p \<Longrightarrow>
   list_all (\<lambda>c. \<not> node_eq c p) (spec_others cs) \<Longrightarrow>
   filter (\<lambda>c. \<not> node_eq c p) cs = spec_others cs"
proof (induction cs)
  case Nil
  then show ?case by simp
next
  case (Cons c cs)
  show ?case
  proof (cases "language c = Some ''en''")
    case True
    with Cons.prems have "p = c" and "list_all (\<lambda>c. \<not> node_eq c p) cs" by simp_all
    then show ?thesis using True
      by (simp add: node_eq_refl filter_id_conv list_all_iff)
  next
    case False
    with Cons show ?thesis by simp
  qed
qed

lemma extract_en:
  assumes "find (\<lambda>c. language c = Some ''en'') (candidates g s ps) = Some p"
  shows "extract_preferred_and_others g s ps =
         (Some (py_str p), map format_other (filter (\<lambda>c. \<not> node_eq c p) (candidates g s ps)))"
proof -
  from find_filter_hd [OF assms] obtain others where
    f: "filter (\<lambda>c. language c = Some ''en'') (candidates g s ps) = p # others" by blast
  then have "candidates g s ps \<noteq> []" by auto
  with f show ?thesis by (simp add: extract_preferred_and_others_def Let_def)
qed

lemma extract_no_en:
  assumes "find (\<lambda>c. language c = Some ''en'') (candidates g s ps) = None"
    and "candidates g s ps = c # rest"
  shows "extract_preferred_and_others g s ps = (Some (py_str c), map format_other rest)"
  using find_None_filter [OF assms(1)] assms(2)
  by (simp add: extract_preferred_and_others_def Let_def)

text \<open>
  Claim C2, as amended.  Let the candidates be the literal objects of the subject over the
  predicates, in encounter order.  When some candidate is tagged \<open>en\<close>, the first
  such candidate \<open>p\<close> is preferred and the alternates are the candidates not equal
  to \<open>p\<close>, in encounter order; when no other candidate equals \<open>p\<close> these are
  all the other candidates.  When no candidate is tagged \<open>en\<close>, the first candidate
  is preferred and the rest are the alternates.  An alternate is formatted as the bare
  value when untagged and as \<open>value @lang\<close> when tagged.
\<close>

theorem literal_resolver_preference:
  "(find (\<lambda>c. language c = Some ''en'') (candidates g s ps) = Some p \<longrightarrow>
      fst (extract_preferred_and_others g s ps) = Some (py_str p) \<and>
      snd (extract_preferred_and_others g s ps) =
        map format_other (filter (\<lambda>c. \<not> node_eq c p) (candidates g s ps)) \<and>
      (list_all (\<lambda>c. \<not> node_eq c p) (spec_others (candidates g s ps)) \<longrightarrow>
         snd (extract_preferred_and_others g s ps) =
           map format_other (spec_others (candidates g s ps)))) \<and>
   (find (\<lambda>c. language c = Some ''en'') (candidates g s ps) = None \<longrightarrow>
      candidates g s ps = c # rest \<longrightarrow>
      extract_preferred_and_others g s ps = (Some (py_str c), map format_other rest)) \<and>
   format_other (Literal v None d) = v \<and>
   (lang \<noteq> [] \<longrightarrow> format_other (Literal v (Some lang) d) = v @ '' @'' @ lang)"
  using extract_en [of g s ps p] extract_no_en [of g s ps c rest]
    filter_not_eq_spec_others [of "candidates g s ps" p]
  by (auto simp: format_other_def)


lemmas vocab_defs = RDF_def RDFS_def OWL_def DC_def DCTERMS_def RDF_ns_def RDFS_ns_def OWL_ns_def
  DC_ns_def DCTERMS_ns_def

text \<open>Witness of C2: the two examples of the specification.\<close>

theorem literal_resolver_preference_witness:
  "extract_preferred_and_others g_labels ex_Person [RDFS ''label''] =
     (Some ''Person'', [''Personne @fr'', ''Persoon'']) \<and>
   extract_preferred_and_others g_labels_no_en ex_Person [RDFS ''label''] =
     (Some ''Persoon'', [''Personne @fr''])"
proof -
  have c1: "candidates g_labels ex_Person [RDFS ''label''] =
      [Literal ''Person'' (Some ''en'') None, Literal ''Personne'' (Some ''fr'') None,
       Literal ''Persoon'' None None]"
    by (simp add: candidates_def objects_def g_labels_def)
  have c2: "candidates g_labels_no_en ex_Person [RDFS ''label''] =
      [Literal ''Persoon'' None None, Literal ''Personne'' (Some ''fr'') None]"
    by (simp add: candidates_def objects_def g_labels_no_en_def)
  note t1 = literal_resolver_preference [of g_labels ex_Person "[RDFS ''label'']"
      "Literal ''Person'' (Some ''en'') None" undefined undefined "''Personne''" None "''fr''"]
  note t2 = literal_resolver_preference [of g_labels_no_en ex_Person "[RDFS ''label'']"
      undefined "Literal ''Persoon'' None None" "[Literal ''Personne'' (Some ''fr'') None]"
      "''Persoon''" None "''fr''"]
  have a: "extract_preferred_and_others g_labels ex_Person [RDFS ''label''] =
     (Some ''Person'', [''Personne @fr'', ''Persoon''])"
    using t1 by (simp add: c1 prod_eq_iff format_other_def)
  have b: "extract_preferred_and_others g_labels_no_en ex_Person [RDFS ''label''] =
     (Some ''Persoon'', [''Personne @fr''])"
    using t2 by (simp add: c2 format_other_def)
  from a b show ?thesis by simp
qed

text \<open>
  Counterexample to C2 as stated: a literal that is a candidate twice (here as a title and
  as a label) and is preferred is dropped from the alternates at both positions, where
  the claim lists the second one as an alternate.
\<close>

theorem literal_resolver_duplicate_counterexample:
  "candidates g_dup ex_Person [DC ''title'', RDFS ''label''] =
     [Literal ''Person'' (Some ''en'') None, Literal ''Person'' (Some ''en'') None] \<and>
   extract_preferred_and_others g_dup ex_Person [DC ''title'', RDFS ''label''] =
     (Some ''Person'', []) \<and>
   map format_other (spec_others (candidates g_dup ex_Person [DC ''title'', RDFS ''label''])) =
     [''Person @en''] \<and>
   snd (extract_preferred_and_others g_dup ex_Person [DC ''title'', RDFS ''label'']) \<noteq>
     map format_other (spec_others (candidates g_dup ex_Person [DC ''title'', RDFS ''label'']))"
  by (simp add: g_dup_def extract_preferred_and_others_def candidates_def objects_def
      format_other_def vocab_defs)

subsection \<open>Missing ontology declaration\<close>

lemma no_ontology_subjects:
  assumes "\<forall>s. (s, RDF ''type'', OWL ''Ontology'') \<notin> set g"
  shows "subjects g (RDF ''type'') (OWL ''Ontology'') = []"
  using assms by (auto simp: subjects_def filter_empty_conv)

text \<open>
  Claim C8, as amended.  When no triple declares an ontology, \<open>get_metadata\<close> of the
  parser returns the default record whose identifier is \<open>unknown\<close>, and
  \<open>get_ontology_metadata\<close> of the processor (given no http(s) source URL to fall
  back on) returns the empty dictionary; neither raises.
\<close>

theorem missing_ontology_metadata:
  assumes "\<forall>s. (s, RDF ''type'', OWL ''Ontology'') \<notin> set g"
    and "source_url = [] \<or> url_scheme lib source_url \<notin> {''http'', ''https''}"
  shows "get_metadata lib g = OntologyMetadata_default ''unknown'' \<and>
         md_uri (get_metadata lib g) = ''unknown'' \<and>
         find_ontology_uri lib g source_url = None \<and>
         get_ontology_metadata g (find_ontology_uri lib g source_url) = Map.empty"
  using no_ontology_subjects [OF assms(1)] assms(2)
  by (auto simp: get_metadata_def find_ontology_node_def find_ontology_uri_def
      get_ontology_metadata_def OntologyMetadata_default_def)

text \<open>Witness of C8: a graph with one class and no ontology declaration.\<close>

theorem missing_ontology_metadata_witness:
  "get_metadata example_lib g_no_ontology = OntologyMetadata_default ''unknown'' \<and>
   get_ontology_metadata g_no_ontology (find_ontology_uri example_lib g_no_ontology []) =
     Map.empty"
proof -
  have h: "\<forall>s. (s, RDF ''type'', OWL ''Ontology'') \<notin> set g_no_ontology"
    by (simp add: g_no_ontology_def vocab_defs)
  show ?thesis
    using missing_ontology_metadata [OF h, of "[]" example_lib] by blast
qed

text \<open>
  Counterexample to C8 as stated: on that graph the processor's metadata dictionary has
  no key at all, so no entry holds the identifier \<open>unknown\<close>.
\<close>

theorem processor_metadata_unknown_counterexample:
  "dom (get_ontology_metadata g_no_ontology (find_ontology_uri example_lib g_no_ontology [])) = {}"
  by (simp add: find_ontology_uri_def get_ontology_metadata_def subjects_def g_no_ontology_def
      vocab_defs)

subsection \<open>The name resolver\<close>

lemma is_digit_not_newline: "is_digit c \<Longrightarrow> c \<noteq> CHR 0x0A"
  by (auto simp: is_digit_def less_eq_char_def)

lemma is_auto_generated_ns_digits:
  assumes "ds \<noteq> []" and "list_all is_digit ds"
  shows "is_auto_generated (''ns'' @ ds)"
proof -
  from assms have "is_digit (last ds)" by (simp add: list_all_iff)
  then have "last ds \<noteq> CHR 0x0A" by (rule is_digit_not_newline)
  with assms show ?thesis by simp
qed

lemma is_auto_generated_shape:
  assumes "is_auto_generated pfx"
  shows "\<exists>ds. ds \<noteq> [] \<and> list_all is_digit ds \<and>
           (pfx = ''ns'' @ ds \<or> pfx = ''ns'' @ ds @ [CHR 0x0A])"
proof -
  from assms obtain rest where p: "pfx = CHR ''n'' # CHR ''s'' # rest"
    by (cases pfx rule: is_auto_generated.cases) auto
  show ?thesis
  proof (cases "rest \<noteq> [] \<and> last rest = CHR 0x0A")
    case True
    then have r: "rest = butlast rest @ [CHR 0x0A]"
      by (metis append_butlast_last_id)
    from assms p True have "butlast rest \<noteq> []" "list_all is_digit (butlast rest)"
      by (simp_all add: Let_def)
    with p r show ?thesis by (metis append_Cons append_Nil)
  next
    case False
    with assms p have "rest \<noteq> []" "list_all is_digit rest"
      by (auto simp: Let_def)
    with p show ?thesis by auto
  qed
qed

text \<open>
  Claim C4, as amended.  The name resolver is a total function and resolves in this
  order: the preferred label when it is present and not the empty string; otherwise, from
  the prefixed-name computation: the raw URI string when the prefix is an auto-generated
  placeholder, \<open>prefix:localName\<close> for any other non-empty prefix, \<open>:localName\<close>
  for the empty prefix with a non-empty local name and the raw URI string with an empty
  one; and the raw URI string when the computation fails.  A prefix is a placeholder
  exactly when it is \<open>ns\<close> followed by one or more digits (and possibly one final
  newline).
\<close>

theorem name_resolver_order:
  "(get_literal g n [RDFS ''label''] = Some l \<longrightarrow> l \<noteq> [] \<longrightarrow>
      get_label_or_qname lib g n = l) \<and>
   (get_literal g n [RDFS ''label''] = None \<or> get_literal g n [RDFS ''label''] = Some [] \<longrightarrow>
      (compute_qname lib n = None \<longrightarrow> get_label_or_qname lib g n = py_str n) \<and>
      (compute_qname lib n = Some (pfx, ns, name) \<longrightarrow>
         (pfx \<noteq> [] \<and> is_auto_generated pfx \<longrightarrow> get_label_or_qname lib g n = py_str n) \<and>
         (pfx \<noteq> [] \<and> \<not> is_auto_generated pfx \<longrightarrow>
            get_label_or_qname lib g n = pfx @ '':'' @ name) \<and>
         (pfx = [] \<and> name \<noteq> [] \<longrightarrow> get_label_or_qname lib g n = '':'' @ name) \<and>
         (pfx = [] \<and> name = [] \<longrightarrow> get_label_or_qname lib g n = py_str n))) \<and>
   (ds \<noteq> [] \<and> list_all is_digit ds \<longrightarrow> is_auto_generated (''ns'' @ ds)) \<and>
   (is_auto_generated p \<longrightarrow>
      (\<exists>ds. ds \<noteq> [] \<and> list_all is_digit ds \<and>
         (p = ''ns'' @ ds \<or> p = ''ns'' @ ds @ [CHR 0x0A])))"
  using is_auto_generated_ns_digits [of ds] is_auto_generated_shape [of p]
  by (auto simp: get_label_or_qname_def Let_def)

lemmas example_lib_defs = example_lib_def example_compute_qname_def ex_Person_def

text \<open>
  Witness of C4: the examples of the specification (prefix \<open>ex\<close>, generated prefix
  \<open>ns3\<close>), a labelled node, the default namespace and a node without prefixed name.
\<close>

theorem name_resolver_order_witness:
  "get_label_or_qname example_lib [] ex_Person = ''ex:Person'' \<and>
   get_label_or_qname example_lib [] (URIRef ''http://gen.org/Person'') =
     ''http://gen.org/Person'' \<and>
   get_label_or_qname example_lib g_labels ex_Person = ''Person'' \<and>
   get_label_or_qname example_lib [] (URIRef ''http://default.org/Person'') = '':Person'' \<and>
   get_label_or_qname example_lib [] (URIRef ''urn:x'') = ''urn:x'' \<and>
   is_auto_generated ''ns3''"
proof -
  have nolabel: "get_literal [] x [RDFS ''label''] = None" for x
    by (simp add: get_literal_def extract_preferred_and_others_def candidates_def objects_def)
  have lab: "get_literal g_labels ex_Person [RDFS ''label''] = Some ''Person''"
    by (simp add: get_literal_def extract_preferred_and_others_def candidates_def objects_def
        g_labels_def)
  have d3: "''3'' \<noteq> [] \<and> list_all is_digit ''3''"
    by (simp add: is_digit_def less_eq_char_def)
  have auto3: "is_auto_generated ''ns3''"
    using name_resolver_order [of "[]" ex_Person undefined example_lib undefined undefined
        undefined "''3''" undefined] d3 by simp
  have a: "get_label_or_qname example_lib [] ex_Person = ''ex:Person''"
    using name_resolver_order [of "[]" ex_Person undefined example_lib "''ex''"
        "''http://ex.org/''" "''Person''" undefined undefined] nolabel [of ex_Person]
    by (simp add: example_lib_defs is_digit_def)
  have b: "get_label_or_qname example_lib [] (URIRef ''http://gen.org/Person'') =
      ''http://gen.org/Person''"
    using name_resolver_order [of "[]" "URIRef ''http://gen.org/Person''" undefined example_lib
        "''ns3''" "''http://gen.org/''" "''Person''" undefined undefined]
      nolabel [of "URIRef ''http://gen.org/Person''"] auto3
    by (simp add: example_lib_defs)
  have c: "get_label_or_qname example_lib g_labels ex_Person = ''Person''"
    using name_resolver_order [of g_labels ex_Person "''Person''" example_lib undefined
        undefined undefined undefined undefined] lab by simp
  have d: "get_label_or_qname example_lib [] (URIRef ''http://default.org/Person'') = '':Person''"
    using name_resolver_order [of "[]" "URIRef ''http://default.org/Person''" undefined
        example_lib "[]" "''http://default.org/''" "''Person''" undefined undefined]
      nolabel [of "URIRef ''http://default.org/Person''"]
    by (simp add: example_lib_defs)
  have e: "get_label_or_qname example_lib [] (URIRef ''urn:x'') = ''urn:x''"
    using name_resolver_order [of "[]" "URIRef ''urn:x''" undefined example_lib undefined
        undefined undefined undefined undefined] nolabel [of "URIRef ''urn:x''"]
    by (simp add: example_lib_defs)
  from a b c d e auto3 show ?thesis by simp
qed

text \<open>
  Counterexample to C4 as stated: a node whose preferred label is present but is the
  empty string does not resolve to that label; the resolver falls through to the
  prefixed name.
\<close>

theorem name_resolver_empty_label_counterexample:
  "get_literal g_empty_label ex_Person [RDFS ''label''] = Some [] \<and>
   get_label_or_qname example_lib g_empty_label ex_Person = ''ex:Person''"
  by (simp add: get_label_or_qname_def get_literal_def extract_preferred_and_others_def
      candidates_def objects_def g_empty_label_def example_lib_defs is_digit_def)

subsection \<open>Assertions of named individuals\<close>



lemma predicate_objects_set:
  "set (predicate_objects g s) = {(p, ob). (s, p, ob) \<in> set g}"
  by (force simp: predicate_objects_def objects_def)





subsection \<open>The expression decoder: termination on acyclic list encodings\<close>

lemma objects_in_graph: "objects g s p = ob # rest \<Longrightarrow> (s, p, ob) \<in> set g"
proof -
  assume "objects g s p = ob # rest"
  then have "ob \<in> set (objects g s p)" by simp
  then show ?thesis by (auto simp: objects_def)
qed

lemma traversal_edge:
  "objects g s p = ob # rest \<Longrightarrow> p \<in> set list_predicates \<Longrightarrow> (ob, s) \<in> traversal_edges g"
  by (drule objects_in_graph) (force simp: traversal_edges_def)

lemma graph_value_edge:
  "graph_value g s p = Some ob \<Longrightarrow> p \<in> set list_predicates \<Longrightarrow> (ob, s) \<in> traversal_edges g"
  by (cases "objects g s p") (auto simp: graph_value_def dest: traversal_edge)

lemma wf_traversal_edges: "acyclic (traversal_edges g) \<Longrightarrow> wf (traversal_edges g)"
  by (rule finite_acyclic_wf) (simp_all add: traversal_edges_def)

lemma finite_successors: "finite {y. (y, x) \<in> traversal_edges g}"
proof -
  have "{y. (y, x) \<in> traversal_edges g} \<subseteq> fst ` traversal_edges g" by force
  moreover have "finite (traversal_edges g)" by (simp add: traversal_edges_def)
  ultimately show ?thesis by (meson finite_imageI finite_subset)
qed

lemma uniform_bounds:
  assumes "finite S"
    and "\<And>y. y \<in> S \<Longrightarrow> \<exists>K D. P y K D"
    and mono: "\<And>y K D K' D'. P y K D \<Longrightarrow> K \<le> K' \<Longrightarrow> D \<le> D' \<Longrightarrow> P y K' D'"
  shows "\<exists>(K::nat) (D::nat). \<forall>y\<in>S. P y K D"
  using assms(1,2)
proof (induction S)
  case empty
  show ?case by simp
next
  case (insert a S)
  from insert obtain K D where S: "\<forall>y\<in>S. P y K D" by auto
  have "\<exists>K D. P a K D" by (rule insert.prems) simp
  then obtain K1 D1 where a: "P a K1 D1" by blast
  have "\<forall>y\<in>insert a S. P y (max K K1) (max D D1)"
    using S a by (auto intro: mono)
  then show ?case by blast
qed

lemma list_bounds_mono:
  "list_bounds lib g x K D \<Longrightarrow> K \<le> K' \<Longrightarrow> D \<le> D' \<Longrightarrow> list_bounds lib g x K' D'"
  unfolding list_bounds_def by (meson le_trans)

lemma expression_bounds_mono:
  "expression_bounds lib g x K D \<Longrightarrow> K \<le> K' \<Longrightarrow> D \<le> D' \<Longrightarrow>
   expression_bounds lib g x K' D'"
  unfolding expression_bounds_def by (meson le_trans)

lemma expression_step:
  assumes L: "\<And>y. (y, x) \<in> traversal_edges g \<Longrightarrow> list_bounds lib g y K D"
  shows "expression_bounds lib g x K (Suc D)"
  unfolding expression_bounds_def
proof
  fix depth
  let ?goal = "\<exists>r. (\<forall>fuel\<ge>K. process_class_expression lib depth fuel g x = Some r) \<and>
       r \<noteq> Inl Raised \<and> (Suc D \<le> depth \<longrightarrow> \<not> isl r)"
  have via_list: ?goal
    if run: "\<And>fuel. process_class_expression lib depth fuel g x =
               (case depth of 0 \<Rightarrow> Some (Inl RecursionError)
                | Suc d \<Rightarrow> map_option (map_sum id (\<lambda>members. Some (C members)))
                    (process_list lib d fuel g (Some h) []))"
      and edge: "(h, x) \<in> traversal_edges g" for C h
  proof (cases depth)
    case 0
    with run have "\<forall>fuel\<ge>K. process_class_expression lib depth fuel g x =
        Some (Inl RecursionError)" by simp
    with 0 show ?thesis by (intro exI [of _ "Inl RecursionError"]) simp
  next
    case (Suc d)
    from L [OF edge] obtain r where
      r: "\<forall>fuel\<ge>K. process_list lib d fuel g (Some h) [] = Some r"
        "r \<noteq> Inl Raised" "D \<le> d \<longrightarrow> \<not> isl r"
      unfolding list_bounds_def by blast
    have "\<forall>fuel\<ge>K. process_class_expression lib depth fuel g x =
        Some (map_sum id (\<lambda>members. Some (C members)) r)"
      using run r(1) Suc by simp
    moreover have "map_sum id (\<lambda>members. Some (C members)) r \<noteq> Inl Raised"
      using r(2) by (cases r) simp_all
    moreover have "Suc D \<le> depth \<longrightarrow> \<not> isl (map_sum id (\<lambda>members. Some (C members)) r)"
      using r(3) Suc by (cases r) simp_all
    ultimately show ?thesis by blast
  qed
  show ?goal
  proof (cases "find_restriction g x restriction_types")
    case (Some result)
    then have "\<forall>fuel\<ge>K. process_class_expression lib depth fuel g x = Some (Inr (Some result))"
      by simp
    then show ?thesis by (intro exI [of _ "Inr (Some result)"]) simp
  next
    case None
    show ?thesis
    proof (cases "objects g x (OWL ''unionOf'')")
      case (Cons u us)
      show ?thesis
        by (rule via_list [of UnionExpr u])
          (simp_all add: None Cons traversal_edge [OF Cons] list_predicates_def)
    next
      case u: Nil
      show ?thesis
      proof (cases "objects g x (OWL ''intersectionOf'')")
        case (Cons i ins)
        show ?thesis
          by (rule via_list [of IntersectionExpr i])
            (simp_all add: None u Cons traversal_edge [OF Cons] list_predicates_def)
      next
        case i: Nil
        show ?thesis
        proof (cases "objects g x (OWL ''complementOf'')")
          case (Cons c cs)
          then have "\<forall>fuel\<ge>K. process_class_expression lib depth fuel g x =
              Some (Inr (Some (ComplementExpr (py_str c))))"
            by (simp add: None u i)
          then show ?thesis
            by (intro exI [of _ "Inr (Some (ComplementExpr (py_str c)))"]) simp
        next
          case c: Nil
          show ?thesis
          proof (cases "objects g x (OWL ''oneOf'')")
            case (Cons e es)
            show ?thesis
              by (rule via_list [of EnumerationExpr e])
                (simp_all add: None u i c Cons traversal_edge [OF Cons] list_predicates_def)
          next
            case Nil
            then have "\<forall>fuel\<ge>K. process_class_expression lib depth fuel g x = Some (Inr None)"
              by (simp add: None u i c)
            then show ?thesis by (intro exI [of _ "Inr None"]) simp
          qed
        qed
      qed
    qed
  qed
qed


lemma list_step:
  assumes L: "\<And>y. (y, x) \<in> traversal_edges g \<Longrightarrow> list_bounds lib g y K D"
    and E: "\<And>y. (y, x) \<in> traversal_edges g \<Longrightarrow> expression_bounds lib g y K D"
  shows "list_bounds lib g x (Suc K) (Suc D)"
  unfolding list_bounds_def
proof (intro allI)
  fix depth ms
  let ?goal = "\<exists>r. (\<forall>fuel\<ge>Suc K. process_list lib depth fuel g (Some x) ms = Some r) \<and>
       r \<noteq> Inl Raised \<and> (Suc D \<le> depth \<longrightarrow> \<not> isl r)"
  show ?goal
  proof (cases "truthy lib x \<and> x \<noteq> RDF ''nil''")
    case False
    have "process_list lib depth fuel g (Some x) ms = Some (Inr ms)" for fuel
      using False by (cases fuel) (auto simp del: process_class_expression.simps)
    then show ?thesis by (intro exI [of _ "Inr ms"]) simp
  next
    case True
    have cont: "\<exists>r. (\<forall>fuel\<ge>K. process_list lib depth fuel g
                    (graph_value g x (RDF ''rest'')) ms' = Some r) \<and>
                 r \<noteq> Inl Raised \<and> (Suc D \<le> depth \<longrightarrow> \<not> isl r)" for ms'
    proof (cases "graph_value g x (RDF ''rest'')")
      case None
      then show ?thesis by (intro exI [of _ "Inr ms'"]) simp
    next
      case (Some nxt)
      from graph_value_edge [OF Some] have "(nxt, x) \<in> traversal_edges g"
        by (simp add: list_predicates_def)
      from L [OF this] show ?thesis
        unfolding list_bounds_def Some by (meson Suc_leD)
    qed
    have continue: ?goal
      if step: "\<And>fuel. K \<le> fuel \<Longrightarrow> process_list lib depth (Suc fuel) g (Some x) ms =
                  process_list lib depth fuel g (graph_value g x (RDF ''rest'')) ms'" for ms'
    proof -
      from cont [of ms'] obtain r where
        r: "\<forall>fuel\<ge>K. process_list lib depth fuel g (graph_value g x (RDF ''rest'')) ms' = Some r"
          "r \<noteq> Inl Raised" "Suc D \<le> depth \<longrightarrow> \<not> isl r"
        by blast
      have "process_list lib depth fuel g (Some x) ms = Some r" if "Suc K \<le> fuel" for fuel
      proof -
        from that obtain k where k: "fuel = Suc k" "K \<le> k" by (cases fuel) auto
        with step [of k] r(1) show ?thesis by simp
      qed
      with r(2,3) show ?thesis by blast
    qed
    have raise: ?goal
      if step: "\<And>fuel. K \<le> fuel \<Longrightarrow> process_list lib depth (Suc fuel) g (Some x) ms =
                  Some (Inl e)"
        and e: "e \<noteq> Raised" "Suc D \<le> depth \<Longrightarrow> False" for e
    proof -
      have "process_list lib depth fuel g (Some x) ms = Some (Inl e)" if "Suc K \<le> fuel" for fuel
      proof -
        from that obtain k where k: "fuel = Suc k" "K \<le> k" by (cases fuel) auto
        with step [of k] show ?thesis by simp
      qed
      with e show ?thesis by (intro exI [of _ "Inl e"]) auto
    qed
    show ?thesis
    proof (cases "objects g x (RDF ''first'')")
      case Nil
      show ?thesis
        by (rule continue [of ms])
          (simp add: True Nil del: process_class_expression.simps)
    next
      case (Cons m rest)
      show ?thesis
      proof (cases "is_BNode m \<and> \<not> is_URIRef m")
        case False
        show ?thesis
          by (rule continue [of "ms @ [Name (py_str m)]"])
            (use False in \<open>auto simp add: True Cons simp del: process_class_expression.simps\<close>)
      next
        case b: True
        show ?thesis
        proof (cases depth)
          case 0
          show ?thesis
            by (rule raise [of RecursionError])
              (use b in \<open>auto simp add: True Cons 0 simp del: process_class_expression.simps\<close>)
        next
          case (Suc d)
          from traversal_edge [OF Cons] have "(m, x) \<in> traversal_edges g"
            by (simp add: list_predicates_def)
          from E [OF this] obtain re where
            re: "\<forall>fuel\<ge>K. process_class_expression lib d fuel g m = Some re"
              "re \<noteq> Inl Raised" "D \<le> d \<longrightarrow> \<not> isl re"
            unfolding expression_bounds_def by blast
          show ?thesis
          proof (cases re)
            case (Inl e)
            show ?thesis
              by (rule raise [of e])
                (use b re Inl in
                  \<open>auto simp add: True Cons Suc simp del: process_class_expression.simps\<close>)
          next
            case (Inr res)
            show ?thesis
            proof (cases res)
              case None
              show ?thesis
                by (rule continue [of ms])
                  (use b re Inr None in
                    \<open>auto simp add: True Cons Suc simp del: process_class_expression.simps\<close>)
            next
              case (Some ex)
              show ?thesis
                by (rule continue [of "ms @ [Expr ex]"])
                  (use b re Inr Some in
                    \<open>auto simp add: True Cons Suc simp del: process_class_expression.simps\<close>)
            qed
          qed
        qed
      qed
    qed
  qed
qed

lemma decoder_bounds:
  assumes "wf (traversal_edges g)"
  shows "\<exists>K D. list_bounds lib g x K D \<and> expression_bounds lib g x K D"
  using assms
proof (induction x rule: wf_induct_rule)
  case (less x)
  have "\<exists>K D. \<forall>y\<in>{y. (y, x) \<in> traversal_edges g}.
          list_bounds lib g y K D \<and> expression_bounds lib g y K D"
  proof (rule uniform_bounds [OF finite_successors])
    show "\<exists>K D. list_bounds lib g y K D \<and> expression_bounds lib g y K D"
      if "y \<in> {y. (y, x) \<in> traversal_edges g}" for y
      using that less by simp
    show "list_bounds lib g y K' D' \<and> expression_bounds lib g y K' D'"
      if "list_bounds lib g y K D \<and> expression_bounds lib g y K D" "K \<le> K'" "D \<le> D'"
      for y K D K' D'
      using that by (blast intro: list_bounds_mono expression_bounds_mono)
  qed
  then obtain K D where
    L: "\<And>y. (y, x) \<in> traversal_edges g \<Longrightarrow> list_bounds lib g y K D"
    and E: "\<And>y. (y, x) \<in> traversal_edges g \<Longrightarrow> expression_bounds lib g y K D"
    by blast
  have "list_bounds lib g x (Suc K) (Suc D)" by (rule list_step [OF L E])
  moreover have "expression_bounds lib g x (Suc K) (Suc D)"
    by (rule expression_bounds_mono [OF expression_step [OF L]]) simp_all
  ultimately show ?case by blast
qed


subsection \<open>Restriction targets of the parser: termination on acyclic list encodings\<close>

lemma loop_bounds_mono:
  "loop_bounds lib g x K D \<Longrightarrow> K \<le> K' \<Longrightarrow> D \<le> D' \<Longrightarrow> loop_bounds lib g x K' D'"
  unfolding loop_bounds_def by (meson le_trans)

lemma target_bounds_mono:
  "target_bounds lib g x K D \<Longrightarrow> K \<le> K' \<Longrightarrow> D \<le> D' \<Longrightarrow> target_bounds lib g x K' D'"
  unfolding target_bounds_def by (meson le_trans)

lemma target_step:
  assumes L: "\<And>y. (y, x) \<in> traversal_edges g \<Longrightarrow> loop_bounds lib g y K D"
  shows "target_bounds lib g x K D"
  unfolding target_bounds_def
proof
  fix depth
  let ?goal = "\<exists>r. (\<forall>fuel\<ge>K. get_elements_from_target lib depth fuel g x = Some r) \<and>
       r \<noteq> Inl Raised \<and> (D \<le> depth \<longrightarrow> \<not> isl r)"
  have direct: ?goal if "\<And>fuel. get_elements_from_target lib depth fuel g x = Some (Inr es)" for es
    using that by (intro exI [of _ "Inr es"]) simp
  show ?goal
  proof (cases "is_BNode x")
    case False
    show ?thesis by (rule direct) (simp add: False)
  next
    case True
    show ?thesis
    proof (cases "graph_value g x (OWL ''unionOf'')")
      case None
      show ?thesis by (rule direct) (simp add: True None)
    next
      case (Some h)
      show ?thesis
      proof (cases "truthy lib h")
        case False
        show ?thesis by (rule direct) (simp add: True Some False)
      next
        case t: True
        from graph_value_edge [OF Some] have "(h, x) \<in> traversal_edges g"
          by (simp add: list_predicates_def)
        from L [OF this] obtain r where
          r: "\<forall>fuel\<ge>K. union_loop lib depth fuel g h [] = Some r"
            "r \<noteq> Inl Raised" "D \<le> depth \<longrightarrow> \<not> isl r"
          unfolding loop_bounds_def by blast
        have "\<forall>fuel\<ge>K. get_elements_from_target lib depth fuel g x = Some r"
          using r(1) by (simp add: True Some t)
        with r(2,3) show ?thesis by blast
      qed
    qed
  qed
qed

lemma loop_step:
  assumes L: "\<And>y. (y, x) \<in> traversal_edges g \<Longrightarrow> loop_bounds lib g y K D"
    and T: "\<And>y. (y, x) \<in> traversal_edges g \<Longrightarrow> target_bounds lib g y K D"
  shows "loop_bounds lib g x (Suc K) (Suc D)"
  unfolding loop_bounds_def
proof (intro allI)
  fix depth es
  let ?goal = "\<exists>r. (\<forall>fuel\<ge>Suc K. union_loop lib depth fuel g x es = Some r) \<and>
       r \<noteq> Inl Raised \<and> (Suc D \<le> depth \<longrightarrow> \<not> isl r)"
  show ?goal
  proof (cases "x \<noteq> RDF ''nil''")
    case False
    have "union_loop lib depth fuel g x es = Some (Inr es)" for fuel
      using False by (cases fuel) (auto simp del: get_elements_from_target.simps)
    then show ?thesis by (intro exI [of _ "Inr es"]) simp
  next
    case True
    let ?rest = "\<lambda>fuel es'. (case graph_value g x (RDF ''rest'') of
                None \<Rightarrow> Some (Inr es')
              | Some nxt \<Rightarrow>
                  if \<not> truthy lib nxt then Some (Inr es')
                  else union_loop lib depth fuel g nxt es')"
    have cont: "\<exists>r. (\<forall>fuel\<ge>K. ?rest fuel es' = Some r) \<and>
                 r \<noteq> Inl Raised \<and> (Suc D \<le> depth \<longrightarrow> \<not> isl r)" for es'
    proof (cases "graph_value g x (RDF ''rest'')")
      case None
      then show ?thesis by (intro exI [of _ "Inr es'"]) simp
    next
      case (Some nxt)
      show ?thesis
      proof (cases "truthy lib nxt")
        case False
        with Some show ?thesis by (intro exI [of _ "Inr es'"]) simp
      next
        case t: True
        from graph_value_edge [OF Some] have "(nxt, x) \<in> traversal_edges g"
          by (simp add: list_predicates_def)
        from L [OF this] show ?thesis
          unfolding loop_bounds_def by (simp add: Some t) (meson Suc_leD)
      qed
    qed
    have continue: ?goal
      if step: "\<And>fuel. K \<le> fuel \<Longrightarrow> union_loop lib depth (Suc fuel) g x es = ?rest fuel es'"
      for es'
    proof -
      from cont [of es'] obtain r where
        r: "\<forall>fuel\<ge>K. ?rest fuel es' = Some r"
          "r \<noteq> Inl Raised" "Suc D \<le> depth \<longrightarrow> \<not> isl r"
        by blast
      have "union_loop lib depth fuel g x es = Some r" if "Suc K \<le> fuel" for fuel
      proof -
        from that obtain k where k: "fuel = Suc k" "K \<le> k" by (cases fuel) auto
        with step [of k] r(1) show ?thesis by simp
      qed
      with r(2,3) show ?thesis by blast
    qed
    have raise: ?goal
      if step: "\<And>fuel. K \<le> fuel \<Longrightarrow> union_loop lib depth (Suc fuel) g x es = Some (Inl e)"
        and e: "e \<noteq> Raised" "Suc D \<le> depth \<Longrightarrow> False" for e
    proof -
      have "union_loop lib depth fuel g x es = Some (Inl e)" if "Suc K \<le> fuel" for fuel
      proof -
        from that obtain k where k: "fuel = Suc k" "K \<le> k" by (cases fuel) auto
        with step [of k] show ?thesis by simp
      qed
      with e show ?thesis by (intro exI [of _ "Inl e"]) auto
    qed
    show ?thesis
    proof (cases "graph_value g x (RDF ''first'')")
      case None
      show ?thesis
        by (rule continue [of es])
          (simp add: True None del: get_elements_from_target.simps)
    next
      case (Some m)
      show ?thesis
      proof (cases "truthy lib m")
        case False
        show ?thesis
          by (rule continue [of es])
            (simp add: True Some False del: get_elements_from_target.simps)
      next
        case t: True
        show ?thesis
        proof (cases depth)
          case 0
          show ?thesis
            by (rule raise [of RecursionError])
              (simp_all add: True Some t 0 del: get_elements_from_target.simps)
        next
          case (Suc d)
          from graph_value_edge [OF Some] have "(m, x) \<in> traversal_edges g"
            by (simp add: list_predicates_def)
          from T [OF this] obtain re where
            re: "\<forall>fuel\<ge>K. get_elements_from_target lib d fuel g m = Some re"
              "re \<noteq> Inl Raised" "D \<le> d \<longrightarrow> \<not> isl re"
            unfolding target_bounds_def by blast
          show ?thesis
          proof (cases re)
            case (Inl e)
            show ?thesis
              by (rule raise [of e])
                (use re Inl in
                  \<open>simp_all add: True Some t Suc del: get_elements_from_target.simps\<close>)
          next
            case (Inr res)
            show ?thesis
              by (rule continue [of "es @ res"])
                (use re Inr in
                  \<open>simp add: True Some t Suc del: get_elements_from_target.simps
                     cong: option.case_cong if_cong\<close>)
          qed
        qed
      qed
    qed
  qed
qed

lemma target_bounds_ex:
  assumes "wf (traversal_edges g)"
  shows "\<exists>K D. loop_bounds lib g x K D \<and> target_bounds lib g x K D"
  using assms
proof (induction x rule: wf_induct_rule)
  case (less x)
  have "\<exists>K D. \<forall>y\<in>{y. (y, x) \<in> traversal_edges g}.
          loop_bounds lib g y K D \<and> target_bounds lib g y K D"
  proof (rule uniform_bounds [OF finite_successors])
    show "\<exists>K D. loop_bounds lib g y K D \<and> target_bounds lib g y K D"
      if "y \<in> {y. (y, x) \<in> traversal_edges g}" for y
      using that less by simp
    show "loop_bounds lib g y K' D' \<and> target_bounds lib g y K' D'"
      if "loop_bounds lib g y K D \<and> target_bounds lib g y K D" "K \<le> K'" "D \<le> D'"
      for y K D K' D'
      using that by (blast intro: loop_bounds_mono target_bounds_mono)
  qed
  then obtain K D where
    L: "\<And>y. (y, x) \<in> traversal_edges g \<Longrightarrow> loop_bounds lib g y K D"
    and T: "\<And>y. (y, x) \<in> traversal_edges g \<Longrightarrow> target_bounds lib g y K D"
    by blast
  have "loop_bounds lib g x (Suc K) (Suc D)" by (rule loop_step [OF L T])
  moreover have "target_bounds lib g x (Suc K) (Suc D)"
    by (rule target_bounds_mono [OF target_step [OF L]]) simp_all
  ultimately show ?case by blast
qed

subsection \<open>List traversal: endless successor chains\<close>

lemma endless_list_head:
  assumes "endless_list lib g c"
  shows "truthy lib c \<and> c \<noteq> RDF ''nil''"
proof -
  from assms obtain x where "rest_chain g c 0 = Some x \<and> truthy lib x \<and> x \<noteq> RDF ''nil''"
    unfolding endless_list_def by blast
  then show ?thesis by simp
qed

lemma endless_list_rest:
  assumes "endless_list lib g c"
  shows "\<exists>nxt. graph_value g c (RDF ''rest'') = Some nxt \<and> endless_list lib g nxt"
proof -
  from assms obtain x where "rest_chain g c (Suc 0) = Some x"
    unfolding endless_list_def by blast
  then obtain nxt where nxt: "graph_value g c (RDF ''rest'') = Some nxt"
    by (cases "graph_value g c (RDF ''rest'')") simp_all
  have "rest_chain g nxt i = rest_chain g c (Suc i)" for i
    by (simp add: nxt)
  with assms have "endless_list lib g nxt"
    unfolding endless_list_def by metis
  with nxt show ?thesis by blast
qed

lemma process_list_endless:
  "endless_list lib g c \<Longrightarrow> process_list lib depth fuel g (Some c) ms \<noteq> Some (Inr r)"
proof (induction fuel arbitrary: c ms)
  case 0
  with endless_list_head [OF 0] show ?case by simp
next
  case (Suc fuel)
  from endless_list_head [OF Suc.prems] have h: "truthy lib c \<and> c \<noteq> RDF ''nil''" .
  from endless_list_rest [OF Suc.prems] obtain nxt where
    nxt: "graph_value g c (RDF ''rest'') = Some nxt" "endless_list lib g nxt"
    by blast
  have "process_list lib depth fuel g (Some nxt) ms' \<noteq> Some (Inr r)" for ms'
    by (rule Suc.IH [OF nxt(2)])
  then show ?case
    using h nxt(1)
    by (auto simp del: process_class_expression.simps
        split: list.splits option.splits sum.splits nat.splits)
qed

lemma union_loop_endless:
  "endless_list lib g c \<Longrightarrow> union_loop lib depth fuel g c es \<noteq> Some (Inr r)"
proof (induction fuel arbitrary: c es)
  case 0
  with endless_list_head [OF 0] show ?case by simp
next
  case (Suc fuel)
  from endless_list_head [OF Suc.prems] have h: "truthy lib c \<and> c \<noteq> RDF ''nil''" .
  from endless_list_rest [OF Suc.prems] obtain nxt where
    nxt: "graph_value g c (RDF ''rest'') = Some nxt" "endless_list lib g nxt"
    by blast
  from endless_list_head [OF nxt(2)] have t: "truthy lib nxt" by simp
  have "union_loop lib depth fuel g nxt es' \<noteq> Some (Inr r)" for es'
    by (rule Suc.IH [OF nxt(2)])
  then show ?case
    using h nxt(1) t
    by (auto simp del: get_elements_from_target.simps
        split: option.splits sum.splits nat.splits)
qed

lemma acyclic_g_union: "acyclic (traversal_edges g_union)"
proof -
  define rank :: "node \<Rightarrow> nat" where
    "rank n = (if n = BNode ''u'' then 3 else if n = BNode ''l1'' then 2
               else if n = BNode ''l2'' then 1 else 0)" for n
  have "traversal_edges g_union \<subseteq> measure rank"
    by (auto simp: traversal_edges_def g_union_def list_predicates_def rank_def vocab_defs)
  then have "wf (traversal_edges g_union)"
    by (rule wf_subset [OF wf_measure])
  then show ?thesis by (rule wf_acyclic)
qed

lemma rest_chain_g_cyclic: "rest_chain g_cyclic (BNode ''l1'') i = Some (BNode ''l1'')"
proof (induction i)
  case 0
  show ?case by simp
next
  case (Suc i)
  have "graph_value g_cyclic (BNode ''l1'') (RDF ''rest'') = Some (BNode ''l1'')"
    by (simp add: graph_value_def g_cyclic_def objects_def vocab_defs)
  with Suc show ?case by simp
qed

lemma endless_g_cyclic: "endless_list lib g_cyclic (BNode ''l1'')"
  by (simp add: endless_list_def rest_chain_g_cyclic RDF_def)

lemma cyclic_list_no_fuel:
  "process_list lib depth fuel g_cyclic (Some (BNode ''l1'')) members = None"
proof (induction fuel arbitrary: members)
  case 0
  show ?case by (simp add: vocab_defs)
next
  case (Suc fuel)
  have f: "objects g_cyclic (BNode ''l1'') (RDF ''first'') = [URIRef ''http://ex.org/A'']"
    by (simp add: g_cyclic_def objects_def vocab_defs)
  have r: "graph_value g_cyclic (BNode ''l1'') (RDF ''rest'') = Some (BNode ''l1'')"
    by (simp add: graph_value_def g_cyclic_def objects_def vocab_defs)
  have n: "BNode ''l1'' \<noteq> RDF ''nil''" by (simp add: RDF_def)
  show ?case
    by (simp add: f r n Suc.IH del: process_class_expression.simps)
qed

lemma cyclic_targets_no_fuel:
  "union_loop lib (Suc depth) fuel g_cyclic (BNode ''l1'') els = None"
proof (induction fuel arbitrary: els)
  case 0
  show ?case by (simp add: vocab_defs)
next
  case (Suc fuel)
  have f: "graph_value g_cyclic (BNode ''l1'') (RDF ''first'') =
      Some (URIRef ''http://ex.org/A'')"
    by (simp add: graph_value_def g_cyclic_def objects_def vocab_defs)
  have r: "graph_value g_cyclic (BNode ''l1'') (RDF ''rest'') = Some (BNode ''l1'')"
    by (simp add: graph_value_def g_cyclic_def objects_def vocab_defs)
  have n: "BNode ''l1'' \<noteq> RDF ''nil''" by (simp add: RDF_def)
  show ?case
    by (simp add: f r n Suc.IH)
qed

subsection \<open>List traversal: termination\<close>

lemma outcome_cases:
  assumes "r \<noteq> Inl Raised \<and> (D \<le> depth \<longrightarrow> \<not> isl r)"
  shows "(\<exists>x. r = Inr x) \<or> r = Inl RecursionError \<and> depth < (D::nat)"
proof (cases r)
  case (Inl e)
  with assms show ?thesis by (cases e) auto
next
  case (Inr x)
  then show ?thesis by simp
qed

text \<open>
  Claim C1, as amended.  The list traversals are \<open>_process_list\<close> of the processor,
  from a list node \<open>c\<close> with the members \<open>ms\<close> collected so far, and
  \<open>_get_elements_from_target\<close> of the parser, from a restriction target \<open>n\<close>.

  When the list encoding of the graph is acyclic (no node reaches itself along
  \<open>rdf:first\<close>, \<open>rdf:rest\<close>, \<open>owl:unionOf\<close>, \<open>owl:intersectionOf\<close> and
  \<open>owl:oneOf\<close> edges), each traversal ends after finitely many iterations, whatever
  the recursion limit: there are bounds \<open>K\<close> and \<open>D\<close> such that at every depth the
  traversal ends within \<open>K\<close> iterations, with the same outcome for every larger
  budget; the outcome is the returned list, or it is \<open>RecursionError\<close>, and that only
  when the stack admits fewer than \<open>D\<close> nested calls.

  When the successor chain of the list node is endless (every node on it has an
  \<open>rdf:rest\<close> successor and none is \<open>rdf:nil\<close> or false), no traversal returns a
  list, whatever the budget and the depth: not \<open>_process_list\<close> from \<open>c\<close>, not the
  loop of \<open>_get_elements_from_target\<close> from \<open>c\<close>, and not
  \<open>_get_elements_from_target\<close> from a blank node whose union is the list at \<open>c\<close>.
\<close>

theorem list_traversal_terminates:
  "(acyclic (traversal_edges g) \<longrightarrow>
      (\<exists>K D. \<forall>depth. \<exists>r.
         (\<forall>fuel\<ge>K. process_list lib depth fuel g (Some c) ms = Some r) \<and>
         ((\<exists>members. r = Inr members) \<or> r = Inl RecursionError \<and> depth < D)) \<and>
      (\<exists>K D. \<forall>depth. \<exists>r.
         (\<forall>fuel\<ge>K. get_elements_from_target lib depth fuel g n = Some r) \<and>
         ((\<exists>elements. r = Inr elements) \<or> r = Inl RecursionError \<and> depth < D))) \<and>
   (endless_list lib g c \<longrightarrow>
      (\<forall>depth fuel members. process_list lib depth fuel g (Some c) ms \<noteq> Some (Inr members)) \<and>
      (\<forall>depth fuel es elements. union_loop lib depth fuel g c es \<noteq> Some (Inr elements)) \<and>
      (is_BNode n \<and> graph_value g n (OWL ''unionOf'') = Some c \<longrightarrow>
         (\<forall>depth fuel elements.
            get_elements_from_target lib depth fuel g n \<noteq> Some (Inr elements))))"
proof (intro conjI impI)
  assume "acyclic (traversal_edges g)"
  then have wf: "wf (traversal_edges g)" by (rule wf_traversal_edges)
  from decoder_bounds [OF wf, of lib c] obtain K D where lb: "list_bounds lib g c K D"
    by blast
  have "\<exists>r. (\<forall>fuel\<ge>K. process_list lib depth fuel g (Some c) ms = Some r) \<and>
         ((\<exists>members. r = Inr members) \<or> r = Inl RecursionError \<and> depth < D)" for depth
  proof -
    from lb obtain r where
      r: "\<forall>fuel\<ge>K. process_list lib depth fuel g (Some c) ms = Some r"
        "r \<noteq> Inl Raised \<and> (D \<le> depth \<longrightarrow> \<not> isl r)"
      unfolding list_bounds_def by blast
    from outcome_cases [OF r(2)] r(1) show ?thesis by blast
  qed
  then show "\<exists>K D. \<forall>depth. \<exists>r.
         (\<forall>fuel\<ge>K. process_list lib depth fuel g (Some c) ms = Some r) \<and>
         ((\<exists>members. r = Inr members) \<or> r = Inl RecursionError \<and> depth < D)"
    by (intro exI [of _ K] exI [of _ D] allI)
  from target_bounds_ex [OF wf, of lib n] obtain K' D' where tb: "target_bounds lib g n K' D'"
    by blast
  have "\<exists>r. (\<forall>fuel\<ge>K'. get_elements_from_target lib depth fuel g n = Some r) \<and>
         ((\<exists>elements. r = Inr elements) \<or> r = Inl RecursionError \<and> depth < D')" for depth
  proof -
    from tb obtain r where
      r: "\<forall>fuel\<ge>K'. get_elements_from_target lib depth fuel g n = Some r"
        "r \<noteq> Inl Raised \<and> (D' \<le> depth \<longrightarrow> \<not> isl r)"
      unfolding target_bounds_def by blast
    from outcome_cases [OF r(2)] r(1) show ?thesis by blast
  qed
  then show "\<exists>K D. \<forall>depth. \<exists>r.
         (\<forall>fuel\<ge>K. get_elements_from_target lib depth fuel g n = Some r) \<and>
         ((\<exists>elements. r = Inr elements) \<or> r = Inl RecursionError \<and> depth < D)"
    by (intro exI [of _ K'] exI [of _ D'] allI)
next
  assume e: "endless_list lib g c"
  show "\<forall>depth fuel members.
      process_list lib depth fuel g (Some c) ms \<noteq> Some (Inr members)"
    by (intro allI) (rule process_list_endless [OF e])
next
  assume e: "endless_list lib g c"
  show "\<forall>depth fuel es elements. union_loop lib depth fuel g c es \<noteq> Some (Inr elements)"
    by (intro allI) (rule union_loop_endless [OF e])
next
  assume e: "endless_list lib g c"
    and n: "is_BNode n \<and> graph_value g n (OWL ''unionOf'') = Some c"
  from endless_list_head [OF e] have t: "truthy lib c" by simp
  have "get_elements_from_target lib depth fuel g n = union_loop lib depth fuel g c []"
    for depth fuel
    using n t by simp
  then show "\<forall>depth fuel elements.
      get_elements_from_target lib depth fuel g n \<noteq> Some (Inr elements)"
    using union_loop_endless [OF e] by (simp del: get_elements_from_target.simps)
qed


text \<open>
  Witness of C1.  The union of \<open>ex:A\<close> and \<open>ex:B\<close> is acyclic: two iterations
  suffice, the processor's traversal of the list needs no nested call, and the parser's
  traversal of the union, which makes a nested call for each member, raises
  \<open>RecursionError\<close> when the stack admits none and returns when it admits one.  The
  list whose node is its own successor is endless.
\<close>

theorem list_traversal_terminates_witness:
  "acyclic (traversal_edges g_union) \<and>
   (\<exists>K D. \<forall>depth. \<exists>r.
      (\<forall>fuel\<ge>K. process_list example_lib depth fuel g_union (Some (BNode ''l1'')) [] = Some r) \<and>
      ((\<exists>members. r = Inr members) \<or> r = Inl RecursionError \<and> depth < D)) \<and>
   (\<exists>K D. \<forall>depth. \<exists>r.
      (\<forall>fuel\<ge>K. get_elements_from_target example_lib depth fuel g_union (BNode ''u'') = Some r) \<and>
      ((\<exists>elements. r = Inr elements) \<or> r = Inl RecursionError \<and> depth < D)) \<and>
   process_list example_lib 0 2 g_union (Some (BNode ''l1'')) [] =
     Some (Inr [Name ''http://ex.org/A'', Name ''http://ex.org/B'']) \<and>
   get_elements_from_target example_lib 0 2 g_union (BNode ''u'') = Some (Inl RecursionError) \<and>
   get_elements_from_target example_lib 1 2 g_union (BNode ''u'') =
     Some (Inr [target_element ''http://ex.org/A'' ''ex:A'',
                target_element ''http://ex.org/B'' ''ex:B'']) \<and>
   endless_list example_lib g_cyclic (BNode ''l1'') \<and>
   (\<forall>depth fuel members.
      process_list example_lib depth fuel g_cyclic (Some (BNode ''l1'')) [] \<noteq>
        Some (Inr members)) \<and>
   (\<forall>depth fuel elements.
      get_elements_from_target example_lib depth fuel g_cyclic (BNode ''u'') \<noteq>
        Some (Inr elements))"
proof -
  note acyclic_case = list_traversal_terminates [where g = g_union and lib = example_lib
      and c = "BNode ''l1''" and ms = "[]" and n = "BNode ''u''"]
  note endless_case = list_traversal_terminates [where g = g_cyclic and lib = example_lib
      and c = "BNode ''l1''" and ms = "[]" and n = "BNode ''u''"]
  have a: "acyclic (traversal_edges g_union)" by (rule acyclic_g_union)
  have e: "endless_list example_lib g_cyclic (BNode ''l1'')" by (rule endless_g_cyclic)
  have u: "is_BNode (BNode ''u'') \<and>
      graph_value g_cyclic (BNode ''u'') (OWL ''unionOf'') = Some (BNode ''l1'')"
    by (simp add: graph_value_def g_cyclic_def objects_def vocab_defs)
  note A0 = acyclic_case [THEN conjunct1, THEN mp, OF a]
  note E0 = endless_case [THEN conjunct2, THEN mp, OF e]
  note E1 = E0 [THEN conjunct1]
  note E3 = E0 [THEN conjunct2, THEN conjunct2, THEN mp, OF u]
  from A0 have A:
    "(\<exists>K D. \<forall>depth. \<exists>r.
      (\<forall>fuel\<ge>K. process_list example_lib depth fuel g_union (Some (BNode ''l1'')) [] = Some r) \<and>
      ((\<exists>members. r = Inr members) \<or> r = Inl RecursionError \<and> depth < D)) \<and>
     (\<exists>K D. \<forall>depth. \<exists>r.
      (\<forall>fuel\<ge>K. get_elements_from_target example_lib depth fuel g_union (BNode ''u'') = Some r) \<and>
      ((\<exists>elements. r = Inr elements) \<or> r = Inl RecursionError \<and> depth < D))"
    .
  from E1 E3 have E:
    "(\<forall>depth fuel members.
      process_list example_lib depth fuel g_cyclic (Some (BNode ''l1'')) [] \<noteq>
        Some (Inr members)) \<and>
     (\<forall>depth fuel elements.
      get_elements_from_target example_lib depth fuel g_cyclic (BNode ''u'') \<noteq>
        Some (Inr elements))"
    by (rule conjI)
  have p: "process_list example_lib 0 (Suc (Suc 0)) g_union (Some (BNode ''l1'')) [] =
     Some (Inr [Name ''http://ex.org/A'', Name ''http://ex.org/B''])"
    by (simp add: g_union_def objects_def graph_value_def vocab_defs)
  have t0: "get_elements_from_target example_lib 0 (Suc (Suc 0)) g_union (BNode ''u'') =
     Some (Inl RecursionError)"
    by (simp add: g_union_def objects_def graph_value_def vocab_defs)
  have t1: "get_elements_from_target example_lib (Suc 0) (Suc (Suc 0)) g_union (BNode ''u'') =
     Some (Inr [target_element ''http://ex.org/A'' ''ex:A'',
                target_element ''http://ex.org/B'' ''ex:B''])"
    by (simp add: g_union_def objects_def graph_value_def vocab_defs target_label_def
        get_literal_def extract_preferred_and_others_def candidates_def example_lib_defs)
  from p t0 t1 have c: "process_list example_lib 0 2 g_union (Some (BNode ''l1'')) [] =
       Some (Inr [Name ''http://ex.org/A'', Name ''http://ex.org/B'']) \<and>
     get_elements_from_target example_lib 0 2 g_union (BNode ''u'') = Some (Inl RecursionError) \<and>
     get_elements_from_target example_lib 1 2 g_union (BNode ''u'') =
       Some (Inr [target_element ''http://ex.org/A'' ''ex:A'',
                  target_element ''http://ex.org/B'' ''ex:B''])"
    by (simp only: numeral_2_eq_2 One_nat_def)
  from A have A1: "\<exists>K D. \<forall>depth. \<exists>r.
      (\<forall>fuel\<ge>K. process_list example_lib depth fuel g_union (Some (BNode ''l1'')) [] = Some r) \<and>
      ((\<exists>members. r = Inr members) \<or> r = Inl RecursionError \<and> depth < D)"
    by (rule conjunct1)
  from A have A2: "\<exists>K D. \<forall>depth. \<exists>r.
      (\<forall>fuel\<ge>K. get_elements_from_target example_lib depth fuel g_union (BNode ''u'') = Some r) \<and>
      ((\<exists>elements. r = Inr elements) \<or> r = Inl RecursionError \<and> depth < D)"
    by (rule conjunct2)
  show ?thesis
    by (intro conjI a A1 A2 c [THEN conjunct1] c [THEN conjunct2, THEN conjunct1]
        c [THEN conjunct2, THEN conjunct2] e E1 E3)
qed

text \<open>
  Counterexample to C1 as stated: on a list node whose successor is the node itself the
  traversals have no bound.  No budget of iterations lets \<open>_process_list\<close> end at the
  list, whatever the depth, nor \<open>_get_elements_from_target\<close> at the union that owns
  it, when the stack admits the nested call for a member.
\<close>

theorem cyclic_list_counterexample:
  "(BNode ''l1'', BNode ''l1'') \<in> traversal_edges g_cyclic \<and>
   (\<forall>depth fuel. process_list example_lib depth fuel g_cyclic (Some (BNode ''l1'')) [] = None) \<and>
   (\<forall>depth fuel.
      get_elements_from_target example_lib (Suc depth) fuel g_cyclic (BNode ''u'') = None)"
proof -
  have e: "(BNode ''l1'', BNode ''l1'') \<in> traversal_edges g_cyclic"
    by (simp add: traversal_edges_def g_cyclic_def list_predicates_def vocab_defs)
  have u: "graph_value g_cyclic (BNode ''u'') (OWL ''unionOf'') = Some (BNode ''l1'')"
    by (simp add: graph_value_def g_cyclic_def objects_def vocab_defs)
  have "get_elements_from_target example_lib (Suc depth) fuel g_cyclic (BNode ''u'') = None"
    for depth fuel
    by (simp add: u cyclic_targets_no_fuel)
  with e cyclic_list_no_fuel show ?thesis by blast
qed

subsection \<open>The expression decoder: order of the cases\<close>

lemma find_restriction_find:
  assumes "objects g n (OWL ''onProperty'') \<noteq> []"
  shows "find_restriction g n rts =
     (case find (\<lambda>(p, t). objects g n p \<noteq> []) rts of
        None \<Rightarrow> None
      | Some (p, t) \<Rightarrow>
          Some (RestrictionExpr t (py_str (hd (objects g n (OWL ''onProperty''))))
            (py_str (hd (objects g n p)))
            (if py_in ''qualified'' t then map_option py_str (graph_value g n (OWL ''onClass''))
             else None)))"
proof (induction rts)
  case Nil
  show ?case by simp
next
  case (Cons a rts)
  obtain p t where a: "a = (p, t)" by (cases a)
  from assms obtain pr prs where pr: "objects g n (OWL ''onProperty'') = pr # prs"
    by (cases "objects g n (OWL ''onProperty'')") auto
  show ?case
  proof (cases "objects g n p")
    case Nil
    with Cons a show ?thesis by simp
  next
    case (Cons v vs)
    then show ?thesis
      by (cases "objects g n (OWL ''onClass'')") (simp_all add: a pr graph_value_def)
  qed
qed

lemma find_restriction_no_onProperty:
  "objects g n (OWL ''onProperty'') = [] \<Longrightarrow> find_restriction g n rts = None"
  by (induction rts) (auto split: list.splits)

lemma has_restriction_find:
  assumes "has_restriction g n"
  shows "\<exists>p t. find (\<lambda>(p, t). objects g n p \<noteq> []) restriction_types = Some (p, t)"
proof -
  from assms have "\<exists>x\<in>set restriction_types. (\<lambda>(p, t). objects g n p \<noteq> []) x"
    by (simp add: has_restriction_def list_ex_iff)
  then have "find (\<lambda>(p, t). objects g n p \<noteq> []) restriction_types \<noteq> None"
    unfolding find_None_iff by blast
  then show ?thesis by auto
qed

lemma no_restriction_find:
  assumes "\<not> has_restriction g n"
  shows "find_restriction g n restriction_types = None"
proof (cases "objects g n (OWL ''onProperty'') = []")
  case True
  then show ?thesis by (rule find_restriction_no_onProperty)
next
  case False
  with assms have "\<not> (\<exists>x\<in>set restriction_types. (\<lambda>(p, t). objects g n p \<noteq> []) x)"
    by (simp add: has_restriction_def list_ex_iff)
  then have "find (\<lambda>(p, t). objects g n p \<noteq> []) restriction_types = None"
    unfolding find_None_iff by blast
  with find_restriction_find [OF False, of restriction_types] show ?thesis by simp
qed

text \<open>
  Claim C7, as amended.  The outcome of decoding a node is that of the first matching
  case in the fixed order, whatever the budget and the depth:
  \<^item> a node with \<open>onProperty\<close> and a restriction predicate decodes to the restriction
    of the first predicate of the table that has a value, with the first
    \<open>onProperty\<close> object, the first value and, for the qualified kinds, the first
    \<open>onClass\<close> object if any;
  \<^item> otherwise a node with \<open>unionOf\<close> decodes to the union of the members that the
    list traversal yields from the first \<open>unionOf\<close> object, one call deeper, and the
    decoder raises \<open>RecursionError\<close> when the stack admits no call; likewise, in
    this order, for \<open>intersectionOf\<close>, for \<open>complementOf\<close>, whose result is the
    first object and needs no call, and for \<open>oneOf\<close>;
  \<^item> a node that matches no case decodes to none.

  When the list encoding of the graph is acyclic the decoder ends within a bounded number
  of iterations at every depth, and it returns when the stack admits enough nested calls.
\<close>

theorem decode_first_match:
  "(has_restriction g n \<longrightarrow>
      (\<exists>p t. find (\<lambda>(p, t). objects g n p \<noteq> []) restriction_types = Some (p, t) \<and>
         (\<forall>depth fuel. process_class_expression lib depth fuel g n =
            Some (Inr (Some (RestrictionExpr t
              (py_str (hd (objects g n (OWL ''onProperty''))))
              (py_str (hd (objects g n p)))
              (if py_in ''qualified'' t
               then map_option py_str (graph_value g n (OWL ''onClass'')) else None))))))) \<and>
   (\<not> has_restriction g n \<and> objects g n (OWL ''unionOf'') \<noteq> [] \<longrightarrow>
      (\<forall>depth fuel. process_class_expression lib depth fuel g n =
         (case depth of
            0 \<Rightarrow> Some (Inl RecursionError)
          | Suc d \<Rightarrow>
              map_option (map_sum id (\<lambda>members. Some (UnionExpr members)))
                (process_list lib d fuel g (Some (hd (objects g n (OWL ''unionOf'')))) [])))) \<and>
   (\<not> has_restriction g n \<and> objects g n (OWL ''unionOf'') = [] \<and>
    objects g n (OWL ''intersectionOf'') \<noteq> [] \<longrightarrow>
      (\<forall>depth fuel. process_class_expression lib depth fuel g n =
         (case depth of
            0 \<Rightarrow> Some (Inl RecursionError)
          | Suc d \<Rightarrow>
              map_option (map_sum id (\<lambda>members. Some (IntersectionExpr members)))
                (process_list lib d fuel g
                   (Some (hd (objects g n (OWL ''intersectionOf'')))) [])))) \<and>
   (\<not> has_restriction g n \<and> objects g n (OWL ''unionOf'') = [] \<and>
    objects g n (OWL ''intersectionOf'') = [] \<and> objects g n (OWL ''complementOf'') \<noteq> [] \<longrightarrow>
      (\<forall>depth fuel. process_class_expression lib depth fuel g n =
         Some (Inr (Some (ComplementExpr (py_str (hd (objects g n (OWL ''complementOf''))))))))) \<and>
   (\<not> has_restriction g n \<and> objects g n (OWL ''unionOf'') = [] \<and>
    objects g n (OWL ''intersectionOf'') = [] \<and> objects g n (OWL ''complementOf'') = [] \<and>
    objects g n (OWL ''oneOf'') \<noteq> [] \<longrightarrow>
      (\<forall>depth fuel. process_class_expression lib depth fuel g n =
         (case depth of
            0 \<Rightarrow> Some (Inl RecursionError)
          | Suc d \<Rightarrow>
              map_option (map_sum id (\<lambda>members. Some (EnumerationExpr members)))
                (process_list lib d fuel g (Some (hd (objects g n (OWL ''oneOf'')))) [])))) \<and>
   (\<not> has_restriction g n \<and> objects g n (OWL ''unionOf'') = [] \<and>
    objects g n (OWL ''intersectionOf'') = [] \<and> objects g n (OWL ''complementOf'') = [] \<and>
    objects g n (OWL ''oneOf'') = [] \<longrightarrow>
      (\<forall>depth fuel. process_class_expression lib depth fuel g n = Some (Inr None))) \<and>
   (acyclic (traversal_edges g) \<longrightarrow>
      (\<exists>K D. \<forall>depth. \<exists>r.
         (\<forall>fuel\<ge>K. process_class_expression lib depth fuel g n = Some r) \<and>
         ((\<exists>result. r = Inr result) \<or> r = Inl RecursionError \<and> depth < D)))"
proof (intro conjI impI)
  assume h: "has_restriction g n"
  then have op: "objects g n (OWL ''onProperty'') \<noteq> []" by (simp add: has_restriction_def)
  from has_restriction_find [OF h] obtain p t where
    f: "find (\<lambda>(p, t). objects g n p \<noteq> []) restriction_types = Some (p, t)" by blast
  from find_restriction_find [OF op, of restriction_types] f
  have "find_restriction g n restriction_types =
      Some (RestrictionExpr t (py_str (hd (objects g n (OWL ''onProperty''))))
            (py_str (hd (objects g n p)))
            (if py_in ''qualified'' t then map_option py_str (graph_value g n (OWL ''onClass''))
             else None))"
    by simp
  then have "\<forall>depth fuel. process_class_expression lib depth fuel g n =
            Some (Inr (Some (RestrictionExpr t
              (py_str (hd (objects g n (OWL ''onProperty''))))
              (py_str (hd (objects g n p)))
              (if py_in ''qualified'' t
               then map_option py_str (graph_value g n (OWL ''onClass'')) else None))))"
    by simp
  with f show "\<exists>p t. find (\<lambda>(p, t). objects g n p \<noteq> []) restriction_types = Some (p, t) \<and>
         (\<forall>depth fuel. process_class_expression lib depth fuel g n =
            Some (Inr (Some (RestrictionExpr t
              (py_str (hd (objects g n (OWL ''onProperty''))))
              (py_str (hd (objects g n p)))
              (if py_in ''qualified'' t
               then map_option py_str (graph_value g n (OWL ''onClass'')) else None)))))"
    by blast
next
  assume a: "\<not> has_restriction g n \<and> objects g n (OWL ''unionOf'') \<noteq> []"
  then obtain u us where u: "objects g n (OWL ''unionOf'') = u # us"
    by (cases "objects g n (OWL ''unionOf'')") auto
  from a have "find_restriction g n restriction_types = None" by (simp add: no_restriction_find)
  then show "\<forall>depth fuel. process_class_expression lib depth fuel g n =
         (case depth of
            0 \<Rightarrow> Some (Inl RecursionError)
          | Suc d \<Rightarrow>
              map_option (map_sum id (\<lambda>members. Some (UnionExpr members)))
                (process_list lib d fuel g (Some (hd (objects g n (OWL ''unionOf'')))) []))"
    by (simp add: u cong: nat.case_cong)
next
  assume a: "\<not> has_restriction g n \<and> objects g n (OWL ''unionOf'') = [] \<and>
    objects g n (OWL ''intersectionOf'') \<noteq> []"
  then obtain i ins where i: "objects g n (OWL ''intersectionOf'') = i # ins"
    by (cases "objects g n (OWL ''intersectionOf'')") auto
  from a have "find_restriction g n restriction_types = None" by (simp add: no_restriction_find)
  then show "\<forall>depth fuel. process_class_expression lib depth fuel g n =
         (case depth of
            0 \<Rightarrow> Some (Inl RecursionError)
          | Suc d \<Rightarrow>
              map_option (map_sum id (\<lambda>members. Some (IntersectionExpr members)))
                (process_list lib d fuel g
                   (Some (hd (objects g n (OWL ''intersectionOf'')))) []))"
    using a by (simp add: i cong: nat.case_cong)
next
  assume a: "\<not> has_restriction g n \<and> objects g n (OWL ''unionOf'') = [] \<and>
    objects g n (OWL ''intersectionOf'') = [] \<and> objects g n (OWL ''complementOf'') \<noteq> []"
  then obtain c cs where c: "objects g n (OWL ''complementOf'') = c # cs"
    by (cases "objects g n (OWL ''complementOf'')") auto
  from a have "find_restriction g n restriction_types = None" by (simp add: no_restriction_find)
  then show "\<forall>depth fuel. process_class_expression lib depth fuel g n =
         Some (Inr (Some (ComplementExpr (py_str (hd (objects g n (OWL ''complementOf'')))))))"
    using a by (simp add: c)
next
  assume a: "\<not> has_restriction g n \<and> objects g n (OWL ''unionOf'') = [] \<and>
    objects g n (OWL ''intersectionOf'') = [] \<and> objects g n (OWL ''complementOf'') = [] \<and>
    objects g n (OWL ''oneOf'') \<noteq> []"
  then obtain e es where e: "objects g n (OWL ''oneOf'') = e # es"
    by (cases "objects g n (OWL ''oneOf'')") auto
  from a have "find_restriction g n restriction_types = None" by (simp add: no_restriction_find)
  then show "\<forall>depth fuel. process_class_expression lib depth fuel g n =
         (case depth of
            0 \<Rightarrow> Some (Inl RecursionError)
          | Suc d \<Rightarrow>
              map_option (map_sum id (\<lambda>members. Some (EnumerationExpr members)))
                (process_list lib d fuel g (Some (hd (objects g n (OWL ''oneOf'')))) []))"
    using a by (simp add: e cong: nat.case_cong)
next
  assume a: "\<not> has_restriction g n \<and> objects g n (OWL ''unionOf'') = [] \<and>
    objects g n (OWL ''intersectionOf'') = [] \<and> objects g n (OWL ''complementOf'') = [] \<and>
    objects g n (OWL ''oneOf'') = []"
  from a have "find_restriction g n restriction_types = None" by (simp add: no_restriction_find)
  then show "\<forall>depth fuel. process_class_expression lib depth fuel g n = Some (Inr None)"
    using a by simp
next
  assume "acyclic (traversal_edges g)"
  then have wf: "wf (traversal_edges g)" by (rule wf_traversal_edges)
  from decoder_bounds [OF wf, of lib n] obtain K D where eb: "expression_bounds lib g n K D"
    by blast
  have "\<exists>r. (\<forall>fuel\<ge>K. process_class_expression lib depth fuel g n = Some r) \<and>
         ((\<exists>result. r = Inr result) \<or> r = Inl RecursionError \<and> depth < D)" for depth
  proof -
    from eb obtain r where
      r: "\<forall>fuel\<ge>K. process_class_expression lib depth fuel g n = Some r"
        "r \<noteq> Inl Raised \<and> (D \<le> depth \<longrightarrow> \<not> isl r)"
      unfolding expression_bounds_def by blast
    from outcome_cases [OF r(2)] r(1) show ?thesis by blast
  qed
  then show "\<exists>K D. \<forall>depth. \<exists>r.
         (\<forall>fuel\<ge>K. process_class_expression lib depth fuel g n = Some r) \<and>
         ((\<exists>result. r = Inr result) \<or> r = Inl RecursionError \<and> depth < D)"
    by (intro exI [of _ K] exI [of _ D] allI)
qed


lemma example_list_l:
  "process_list lib depth (Suc 0) g_expressions (Some (BNode ''l'')) [] =
     Some (Inr [Name ''http://ex.org/A''])"
  by (simp add: g_expressions_def objects_def graph_value_def vocab_defs
      del: process_class_expression.simps)

lemma example_list_l1:
  "process_list lib depth (Suc (Suc 0)) g_union (Some (BNode ''l1'')) [] =
     Some (Inr [Name ''http://ex.org/A'', Name ''http://ex.org/B''])"
  by (simp add: g_union_def objects_def graph_value_def vocab_defs
      del: process_class_expression.simps)

text \<open>
  Witness of C7.  A restriction node with \<open>someValuesFrom\<close> and a qualified
  cardinality decodes to the \<open>some\<close> restriction, the first of the table.  The union
  of \<open>ex:A\<close> and \<open>ex:B\<close> decodes to the union of the two names when the stack admits
  the call of the list traversal, and to \<open>RecursionError\<close> when it admits none; its
  graph is acyclic.  Of the nodes over the one-member list, the one with an intersection
  and an enumeration decodes to the intersection, the one with a complement and an
  enumeration to the complement, the one with an enumeration to the enumeration, and the
  list node itself, which matches no case, to none.
\<close>

theorem decode_first_match_witness:
  "has_restriction g_mixed_restriction (BNode ''r'') \<and>
   (\<forall>depth fuel. process_class_expression example_lib depth fuel g_mixed_restriction (BNode ''r'') =
      Some (Inr (Some (RestrictionExpr ''some'' ''http://ex.org/hasPart''
        ''http://ex.org/Part'' None)))) \<and>
   \<not> has_restriction g_union (BNode ''u'') \<and>
   objects g_union (BNode ''u'') (OWL ''unionOf'') = [BNode ''l1''] \<and>
   (\<forall>fuel. process_class_expression example_lib 0 fuel g_union (BNode ''u'') =
      Some (Inl RecursionError)) \<and>
   process_class_expression example_lib 1 2 g_union (BNode ''u'') =
     Some (Inr (Some (UnionExpr [Name ''http://ex.org/A'', Name ''http://ex.org/B'']))) \<and>
   process_class_expression example_lib 1 1 g_expressions (BNode ''i'') =
     Some (Inr (Some (IntersectionExpr [Name ''http://ex.org/A'']))) \<and>
   (\<forall>depth fuel. process_class_expression example_lib depth fuel g_expressions (BNode ''c'') =
      Some (Inr (Some (ComplementExpr ''http://ex.org/A'')))) \<and>
   process_class_expression example_lib 1 1 g_expressions (BNode ''e'') =
     Some (Inr (Some (EnumerationExpr [Name ''http://ex.org/A'']))) \<and>
   (\<forall>depth fuel. process_class_expression example_lib depth fuel g_expressions (BNode ''l'') =
      Some (Inr None)) \<and>
   acyclic (traversal_edges g_union) \<and>
   (\<exists>K D. \<forall>depth. \<exists>r.
      (\<forall>fuel\<ge>K. process_class_expression example_lib depth fuel g_union (BNode ''u'') = Some r) \<and>
      ((\<exists>result. r = Inr result) \<or> r = Inl RecursionError \<and> depth < D))"
proof -
  note restriction = decode_first_match [where g = g_mixed_restriction and lib = example_lib
      and n = "BNode ''r''", THEN conjunct1]
  note union = decode_first_match [where g = g_union and lib = example_lib
      and n = "BNode ''u''", THEN conjunct2]
  note intersection = decode_first_match [where g = g_expressions and lib = example_lib
      and n = "BNode ''i''", THEN conjunct2, THEN conjunct2, THEN conjunct1]
  note complement = decode_first_match [where g = g_expressions and lib = example_lib
      and n = "BNode ''c''", THEN conjunct2, THEN conjunct2, THEN conjunct2, THEN conjunct1]
  note enumeration = decode_first_match [where g = g_expressions and lib = example_lib
      and n = "BNode ''e''", THEN conjunct2, THEN conjunct2, THEN conjunct2, THEN conjunct2,
      THEN conjunct1]
  note none = decode_first_match [where g = g_expressions and lib = example_lib
      and n = "BNode ''l''", THEN conjunct2, THEN conjunct2, THEN conjunct2, THEN conjunct2,
      THEN conjunct2, THEN conjunct1]
  have r1: "has_restriction g_mixed_restriction (BNode ''r'')"
    by (simp add: has_restriction_def restriction_types_def g_mixed_restriction_def
        objects_def vocab_defs)
  have r2: "find (\<lambda>(p, t). objects g_mixed_restriction (BNode ''r'') p \<noteq> []) restriction_types =
      Some (OWL ''someValuesFrom'', ''some'')"
    by (simp add: restriction_types_def g_mixed_restriction_def objects_def vocab_defs)
  from restriction [THEN mp, OF r1] r2
  have r3: "\<forall>depth fuel.
      process_class_expression example_lib depth fuel g_mixed_restriction (BNode ''r'') =
      Some (Inr (Some (RestrictionExpr ''some''
        (py_str (hd (objects g_mixed_restriction (BNode ''r'') (OWL ''onProperty''))))
        (py_str (hd (objects g_mixed_restriction (BNode ''r'') (OWL ''someValuesFrom''))))
        None)))"
    by (auto simp del: process_class_expression.simps)
  have r4: "py_str (hd (objects g_mixed_restriction (BNode ''r'') (OWL ''onProperty''))) =
        ''http://ex.org/hasPart'' \<and>
      py_str (hd (objects g_mixed_restriction (BNode ''r'') (OWL ''someValuesFrom''))) =
        ''http://ex.org/Part''"
    by (simp add: g_mixed_restriction_def objects_def vocab_defs)
  from r3 r4 have r: "\<forall>depth fuel.
      process_class_expression example_lib depth fuel g_mixed_restriction (BNode ''r'') =
      Some (Inr (Some (RestrictionExpr ''some'' ''http://ex.org/hasPart''
        ''http://ex.org/Part'' None)))"
    by (simp del: process_class_expression.simps)
  have u1: "\<not> has_restriction g_union (BNode ''u'')"
    by (simp add: has_restriction_def g_union_def objects_def vocab_defs)
  have u2: "objects g_union (BNode ''u'') (OWL ''unionOf'') = [BNode ''l1'']"
    by (simp add: g_union_def objects_def vocab_defs)
  from u1 u2 have "\<not> has_restriction g_union (BNode ''u'') \<and>
      objects g_union (BNode ''u'') (OWL ''unionOf'') \<noteq> []" by simp
  note u3 = union [THEN conjunct1, THEN mp, OF this]
  from u3 have u4: "\<forall>fuel. process_class_expression example_lib 0 fuel g_union (BNode ''u'') =
      Some (Inl RecursionError)"
    by (simp del: process_class_expression.simps)
  from u3 have "process_class_expression example_lib (Suc 0) (Suc (Suc 0)) g_union (BNode ''u'') =
     Some (Inr (Some (UnionExpr [Name ''http://ex.org/A'', Name ''http://ex.org/B''])))"
    by (simp add: u2 example_list_l1 del: process_class_expression.simps process_list.simps)
  then have u5: "process_class_expression example_lib 1 2 g_union (BNode ''u'') =
     Some (Inr (Some (UnionExpr [Name ''http://ex.org/A'', Name ''http://ex.org/B''])))"
    by (simp only: numeral_2_eq_2 One_nat_def)
  have i1: "\<not> has_restriction g_expressions (BNode ''i'') \<and>
      objects g_expressions (BNode ''i'') (OWL ''unionOf'') = [] \<and>
      objects g_expressions (BNode ''i'') (OWL ''intersectionOf'') \<noteq> []"
    by (simp add: has_restriction_def g_expressions_def objects_def vocab_defs)
  have i2: "objects g_expressions (BNode ''i'') (OWL ''intersectionOf'') = [BNode ''l'']"
    by (simp add: g_expressions_def objects_def vocab_defs)
  from intersection [THEN mp, OF i1]
  have "process_class_expression example_lib (Suc 0) (Suc 0) g_expressions (BNode ''i'') =
     Some (Inr (Some (IntersectionExpr [Name ''http://ex.org/A''])))"
    by (simp add: i2 example_list_l del: process_class_expression.simps process_list.simps)
  then have i: "process_class_expression example_lib 1 1 g_expressions (BNode ''i'') =
     Some (Inr (Some (IntersectionExpr [Name ''http://ex.org/A''])))"
    by (simp only: One_nat_def)
  have c1: "\<not> has_restriction g_expressions (BNode ''c'') \<and>
      objects g_expressions (BNode ''c'') (OWL ''unionOf'') = [] \<and>
      objects g_expressions (BNode ''c'') (OWL ''intersectionOf'') = [] \<and>
      objects g_expressions (BNode ''c'') (OWL ''complementOf'') \<noteq> []"
    by (simp add: has_restriction_def g_expressions_def objects_def vocab_defs)
  have c2: "objects g_expressions (BNode ''c'') (OWL ''complementOf'') =
      [URIRef ''http://ex.org/A'']"
    by (simp add: g_expressions_def objects_def vocab_defs)
  from complement [THEN mp, OF c1]
  have c: "\<forall>depth fuel.
      process_class_expression example_lib depth fuel g_expressions (BNode ''c'') =
      Some (Inr (Some (ComplementExpr ''http://ex.org/A'')))"
    by (simp add: c2 del: process_class_expression.simps)
  have e1: "\<not> has_restriction g_expressions (BNode ''e'') \<and>
      objects g_expressions (BNode ''e'') (OWL ''unionOf'') = [] \<and>
      objects g_expressions (BNode ''e'') (OWL ''intersectionOf'') = [] \<and>
      objects g_expressions (BNode ''e'') (OWL ''complementOf'') = [] \<and>
      objects g_expressions (BNode ''e'') (OWL ''oneOf'') \<noteq> []"
    by (simp add: has_restriction_def g_expressions_def objects_def vocab_defs)
  have e2: "objects g_expressions (BNode ''e'') (OWL ''oneOf'') = [BNode ''l'']"
    by (simp add: g_expressions_def objects_def vocab_defs)
  from enumeration [THEN mp, OF e1]
  have "process_class_expression example_lib (Suc 0) (Suc 0) g_expressions (BNode ''e'') =
     Some (Inr (Some (EnumerationExpr [Name ''http://ex.org/A''])))"
    by (simp add: e2 example_list_l del: process_class_expression.simps process_list.simps)
  then have e: "process_class_expression example_lib 1 1 g_expressions (BNode ''e'') =
     Some (Inr (Some (EnumerationExpr [Name ''http://ex.org/A''])))"
    by (simp only: One_nat_def)
  have n1: "\<not> has_restriction g_expressions (BNode ''l'') \<and>
      objects g_expressions (BNode ''l'') (OWL ''unionOf'') = [] \<and>
      objects g_expressions (BNode ''l'') (OWL ''intersectionOf'') = [] \<and>
      objects g_expressions (BNode ''l'') (OWL ''complementOf'') = [] \<and>
      objects g_expressions (BNode ''l'') (OWL ''oneOf'') = []"
    by (simp add: has_restriction_def g_expressions_def objects_def vocab_defs)
  note n = none [THEN mp, OF n1]
  note a = acyclic_g_union
  note t = union [THEN conjunct2, THEN conjunct2, THEN conjunct2, THEN conjunct2,
      THEN conjunct2, THEN mp, OF a]
  show ?thesis
    by (intro conjI r1 r u1 u2 u4 u5 i c e n a t)
qed

text \<open>
  Counterexample to C7 as stated: a node whose first matching case is a union with a
  cyclic list has no decoding.  Whatever the budget of iterations, the decoder does not
  return from it when the stack admits the call of the list traversal, and it raises
  \<open>RecursionError\<close> when the stack admits none.
\<close>

theorem decode_cyclic_union_counterexample:
  "objects g_cyclic (BNode ''u'') (OWL ''unionOf'') = [BNode ''l1''] \<and>
   (\<forall>depth fuel. process_class_expression example_lib (Suc depth) fuel g_cyclic (BNode ''u'') =
      None) \<and>
   (\<forall>fuel. process_class_expression example_lib 0 fuel g_cyclic (BNode ''u'') =
      Some (Inl RecursionError))"
proof -
  have u: "objects g_cyclic (BNode ''u'') (OWL ''unionOf'') = [BNode ''l1'']"
    by (simp add: g_cyclic_def objects_def vocab_defs)
  have "objects g_cyclic (BNode ''u'') (OWL ''onProperty'') = []"
    by (simp add: g_cyclic_def objects_def vocab_defs)
  then have f: "find_restriction g_cyclic (BNode ''u'') restriction_types = None"
    by (rule find_restriction_no_onProperty)
  have "process_class_expression example_lib (Suc depth) fuel g_cyclic (BNode ''u'') = None"
    for depth fuel
    by (simp add: f u cyclic_list_no_fuel)
  moreover have "process_class_expression example_lib 0 fuel g_cyclic (BNode ''u'') =
      Some (Inl RecursionError)" for fuel
    by (simp add: f u)
  ultimately show ?thesis using u by blast
qed

subsection \<open>Qualified cardinality restrictions\<close>

lemma find_restriction_qualified:
  assumes "objects g n (OWL ''onProperty'') = pr # prs"
    and "list_all (\<lambda>p. objects g n p = []) unqualified_predicates"
  shows "find_restriction g n restriction_types =
     (case objects g n (OWL ''minQualifiedCardinality'') of
        v # vs \<Rightarrow> Some (RestrictionExpr ''min_qualified'' (py_str pr) (py_str v)
                    (case objects g n (OWL ''onClass'') of [] \<Rightarrow> None | c # cs \<Rightarrow> Some (py_str c)))
      | [] \<Rightarrow>
       (case objects g n (OWL ''maxQualifiedCardinality'') of
          v # vs \<Rightarrow> Some (RestrictionExpr ''max_qualified'' (py_str pr) (py_str v)
                    (case objects g n (OWL ''onClass'') of [] \<Rightarrow> None | c # cs \<Rightarrow> Some (py_str c)))
        | [] \<Rightarrow>
         (case objects g n (OWL ''qualifiedCardinality'') of
            v # vs \<Rightarrow> Some (RestrictionExpr ''exactly_qualified'' (py_str pr) (py_str v)
                    (case objects g n (OWL ''onClass'') of [] \<Rightarrow> None | c # cs \<Rightarrow> Some (py_str c)))
          | [] \<Rightarrow> None)))"
  using assms
  by (simp add: restriction_types_def unqualified_predicates_def split: list.splits)

lemma parse_restriction_cardinality:
  assumes "objects g n (OWL ''onProperty'') = pr # prs"
    and "list_all (\<lambda>p. objects g n p = []) unqualified_predicates"
  shows "parse_restriction lib depth fuel g n =
     (if \<not> truthy lib pr then Some (Inr None)
      else
       (let r = \<lparr>on_property =
                 create_element lib g pr
                   (Some (if (pr, RDF ''type'', OWL ''DatatypeProperty'') \<in> set g then ''dp''
                          else if (pr, RDF ''type'', OWL ''AnnotationProperty'') \<in> set g
                          then ''ap'' else ''op'')),
               rtype = [], amount = None, target_values = [], literal_value = None\<rparr>
        in
        case if_truthy lib (graph_value g n (OWL ''minQualifiedCardinality'')) of
          Some v \<Rightarrow> Some (Inr (Some (r\<lparr>rtype := ''min'', amount := Some (py_str v)\<rparr>)))
        | None \<Rightarrow>
         (case if_truthy lib (graph_value g n (OWL ''maxQualifiedCardinality'')) of
            Some v \<Rightarrow> Some (Inr (Some (r\<lparr>rtype := ''max'', amount := Some (py_str v)\<rparr>)))
          | None \<Rightarrow>
           (case if_truthy lib (graph_value g n (OWL ''qualifiedCardinality'')) of
              Some v \<Rightarrow> Some (Inr (Some (r\<lparr>rtype := ''exactly'', amount := Some (py_str v)\<rparr>)))
            | None \<Rightarrow> Some (Inr None)))))"
proof -
  have none: "graph_value g n (OWL ''someValuesFrom'') = None"
    "graph_value g n (OWL ''allValuesFrom'') = None"
    "graph_value g n (OWL ''hasValue'') = None"
    "graph_value g n (OWL ''minCardinality'') = None"
    "graph_value g n (OWL ''maxCardinality'') = None"
    "graph_value g n (OWL ''cardinality'') = None"
    using assms(2) by (simp_all add: unqualified_predicates_def graph_value_def)
  have t: "if_truthy lib None = None" and o: "py_or lib None b = b" for b
    by (simp_all add: if_truthy_def py_or_def)
  show ?thesis
  proof (cases "truthy lib pr")
    case False
    then have "if_truthy lib (graph_value g n (OWL ''onProperty'')) = None"
      using assms(1) by (simp add: graph_value_def if_truthy_def)
    with False show ?thesis by (simp add: parse_restriction_def)
  next
    case True
    then have onp: "if_truthy lib (graph_value g n (OWL ''onProperty'')) = Some pr"
      using assms(1) by (simp add: graph_value_def if_truthy_def)
    show ?thesis
      by (simp add: parse_restriction_def none onp t o True Let_def cong: option.case_cong)
  qed
qed

lemma if_truthy_first:
  "if_truthy lib (graph_value g n p) =
     (case objects g n p of [] \<Rightarrow> None | v # vs \<Rightarrow> if truthy lib v then Some v else None)"
  by (simp add: if_truthy_def graph_value_def split: list.splits)

text \<open>
  Claim C3, as amended.  Let a node carry \<open>owl:onProperty\<close> and none of the
  restriction predicates that precede the qualified cardinalities in the decoder's order.

  When it carries a qualified-cardinality predicate, \<open>_process_class_expression\<close>
  records the kind of the first one present (minimum, maximum, exact), the property, the
  first value as the amount and, when the node has an \<open>owl:onClass\<close>, the qualifying
  class taken from it (no qualifying class otherwise), whatever the budget and the depth.

  The parser's \<open>_parse_restriction\<close> records nothing from \<open>owl:onClass\<close>.  It takes
  as amount the first value of the first of the minimum, maximum and exact qualified
  cardinalities whose first value is not false in a Boolean context, and records it with
  the property under the kind \<open>min\<close>, \<open>max\<close> or \<open>exactly\<close> of the unqualified
  cardinalities; it yields no restriction when the property is false or when there is no
  such amount.
\<close>

theorem qualified_cardinality_decoding:
  fixes g :: graph and n pr :: node and lib :: rdflib
  defines "on_class \<equiv>
      (case objects g n (OWL ''onClass'') of [] \<Rightarrow> None | c # cs \<Rightarrow> Some (py_str c))"
    and "r \<equiv> \<lparr>on_property =
                 create_element lib g pr
                   (Some (if (pr, RDF ''type'', OWL ''DatatypeProperty'') \<in> set g then ''dp''
                          else if (pr, RDF ''type'', OWL ''AnnotationProperty'') \<in> set g
                          then ''ap'' else ''op'')),
               rtype = [], amount = None, target_values = [], literal_value = None\<rparr>"
    and "amount_of \<equiv> \<lambda>p.
      (case objects g n p of [] \<Rightarrow> None | v # vs \<Rightarrow> if truthy lib v then Some v else None)"
  assumes "objects g n (OWL ''onProperty'') = pr # prs"
    and "list_all (\<lambda>p. objects g n p = []) unqualified_predicates"
  shows
    "(objects g n (OWL ''minQualifiedCardinality'') = v # vs \<longrightarrow>
        (\<forall>depth fuel. process_class_expression lib depth fuel g n =
          Some (Inr (Some (RestrictionExpr ''min_qualified'' (py_str pr) (py_str v) on_class))))) \<and>
     (objects g n (OWL ''minQualifiedCardinality'') = [] \<and>
      objects g n (OWL ''maxQualifiedCardinality'') = v # vs \<longrightarrow>
        (\<forall>depth fuel. process_class_expression lib depth fuel g n =
          Some (Inr (Some (RestrictionExpr ''max_qualified'' (py_str pr) (py_str v) on_class))))) \<and>
     (objects g n (OWL ''minQualifiedCardinality'') = [] \<and>
      objects g n (OWL ''maxQualifiedCardinality'') = [] \<and>
      objects g n (OWL ''qualifiedCardinality'') = v # vs \<longrightarrow>
        (\<forall>depth fuel. process_class_expression lib depth fuel g n =
          Some (Inr (Some (RestrictionExpr ''exactly_qualified'' (py_str pr) (py_str v)
            on_class))))) \<and>
     (\<forall>depth fuel. parse_restriction lib depth fuel g n =
        Some (Inr
          (if \<not> truthy lib pr then None
           else
             (case amount_of (OWL ''minQualifiedCardinality'') of
                Some a \<Rightarrow> Some (r\<lparr>rtype := ''min'', amount := Some (py_str a)\<rparr>)
              | None \<Rightarrow>
                 (case amount_of (OWL ''maxQualifiedCardinality'') of
                    Some a \<Rightarrow> Some (r\<lparr>rtype := ''max'', amount := Some (py_str a)\<rparr>)
                  | None \<Rightarrow>
                     (case amount_of (OWL ''qualifiedCardinality'') of
                        Some a \<Rightarrow> Some (r\<lparr>rtype := ''exactly'', amount := Some (py_str a)\<rparr>)
                      | None \<Rightarrow> None))))))"
proof -
  note fr = find_restriction_qualified [OF assms(4,5)]
  note pr = parse_restriction_cardinality [OF assms(4,5)]
  have proc: "(objects g n (OWL ''minQualifiedCardinality'') = v # vs \<longrightarrow>
        (\<forall>depth fuel. process_class_expression lib depth fuel g n =
          Some (Inr (Some (RestrictionExpr ''min_qualified'' (py_str pr) (py_str v) on_class))))) \<and>
     (objects g n (OWL ''minQualifiedCardinality'') = [] \<and>
      objects g n (OWL ''maxQualifiedCardinality'') = v # vs \<longrightarrow>
        (\<forall>depth fuel. process_class_expression lib depth fuel g n =
          Some (Inr (Some (RestrictionExpr ''max_qualified'' (py_str pr) (py_str v) on_class))))) \<and>
     (objects g n (OWL ''minQualifiedCardinality'') = [] \<and>
      objects g n (OWL ''maxQualifiedCardinality'') = [] \<and>
      objects g n (OWL ''qualifiedCardinality'') = v # vs \<longrightarrow>
        (\<forall>depth fuel. process_class_expression lib depth fuel g n =
          Some (Inr (Some (RestrictionExpr ''exactly_qualified'' (py_str pr) (py_str v)
            on_class)))))"
    unfolding on_class_def
    by (auto simp: fr simp del: find_restriction.simps)
  have pars: "parse_restriction lib depth fuel g n =
        Some (Inr
          (if \<not> truthy lib pr then None
           else
             (case amount_of (OWL ''minQualifiedCardinality'') of
                Some a \<Rightarrow> Some (r\<lparr>rtype := ''min'', amount := Some (py_str a)\<rparr>)
              | None \<Rightarrow>
                 (case amount_of (OWL ''maxQualifiedCardinality'') of
                    Some a \<Rightarrow> Some (r\<lparr>rtype := ''max'', amount := Some (py_str a)\<rparr>)
                  | None \<Rightarrow>
                     (case amount_of (OWL ''qualifiedCardinality'') of
                        Some a \<Rightarrow> Some (r\<lparr>rtype := ''exactly'', amount := Some (py_str a)\<rparr>)
                      | None \<Rightarrow> None)))))" for depth fuel
    unfolding pr r_def amount_of_def if_truthy_first [symmetric]
    by (simp add: Let_def split: option.splits)
  from proc pars show ?thesis by blast
qed


lemma example_qualified_parse:
  "parse_restriction example_lib depth fuel g_qualified_restriction (BNode ''r'') =
     Some (Inr (Some \<lparr>on_property =
                   create_element example_lib g_qualified_restriction
                     (URIRef ''http://ex.org/hasPart'') (Some ''op''),
                  rtype = ''min'', amount = Some ''2'', target_values = [],
                  literal_value = None\<rparr>))"
  by (simp add: parse_restriction_def if_truthy_def py_or_def graph_value_def objects_def
      g_qualified_restriction_def example_lib_def vocab_defs Let_def)

lemma example_zero_parse:
  "parse_restriction typed_lib depth fuel g_zero_cardinality (BNode ''r'') = Some (Inr None)"
  by (simp add: parse_restriction_def if_truthy_def py_or_def graph_value_def objects_def
      g_zero_cardinality_def typed_lib_def zero_literal_def example_lib_def vocab_defs Let_def)

text \<open>
  Witness of C3: a well-formed qualified minimum cardinality restriction with its
  \<open>onClass\<close>, through both decoders; and a qualified exact cardinality of zero, which
  the processor records and for which the parser yields no restriction.
\<close>

theorem qualified_cardinality_decoding_witness:
  "(\<forall>depth fuel.
      process_class_expression example_lib depth fuel g_qualified_restriction (BNode ''r'') =
        Some (Inr (Some (RestrictionExpr ''min_qualified'' ''http://ex.org/hasPart'' ''2''
          (Some ''http://ex.org/Wheel''))))) \<and>
   (\<forall>depth fuel.
      parse_restriction example_lib depth fuel g_qualified_restriction (BNode ''r'') =
        Some (Inr (Some \<lparr>on_property =
                   create_element example_lib g_qualified_restriction
                     (URIRef ''http://ex.org/hasPart'') (Some ''op''),
                  rtype = ''min'', amount = Some ''2'', target_values = [],
                  literal_value = None\<rparr>))) \<and>
   \<not> truthy typed_lib zero_literal \<and>
   (\<forall>depth fuel.
      process_class_expression typed_lib depth fuel g_zero_cardinality (BNode ''r'') =
        Some (Inr (Some (RestrictionExpr ''exactly_qualified'' ''http://ex.org/hasPart'' ''0''
          (Some ''http://ex.org/Wheel''))))) \<and>
   (\<forall>depth fuel.
      parse_restriction typed_lib depth fuel g_zero_cardinality (BNode ''r'') =
        Some (Inr None))"
proof -
  have onp: "objects g_qualified_restriction (BNode ''r'') (OWL ''onProperty'') =
      URIRef ''http://ex.org/hasPart'' # []"
    by (simp add: objects_def g_qualified_restriction_def vocab_defs)
  have unq: "list_all (\<lambda>p. objects g_qualified_restriction (BNode ''r'') p = [])
      unqualified_predicates"
    by (simp add: objects_def g_qualified_restriction_def unqualified_predicates_def vocab_defs)
  have minq: "objects g_qualified_restriction (BNode ''r'') (OWL ''minQualifiedCardinality'') =
      Literal ''2'' None None # []"
    by (simp add: objects_def g_qualified_restriction_def vocab_defs)
  have oc: "objects g_qualified_restriction (BNode ''r'') (OWL ''onClass'') =
      [URIRef ''http://ex.org/Wheel'']"
    by (simp add: objects_def g_qualified_restriction_def vocab_defs)
  have ty: "(URIRef ''http://ex.org/hasPart'', RDF ''type'', x) \<notin> set g_qualified_restriction"
    for x by (simp add: g_qualified_restriction_def vocab_defs)
  have tr: "truthy example_lib (URIRef ''http://ex.org/hasPart'')"
    "truthy example_lib (Literal ''2'' None None)"
    by (simp_all add: example_lib_def)
  note q = qualified_cardinality_decoding [OF onp unq, where lib = example_lib
      and v = "Literal ''2'' None None" and vs = "[]"]
  from q [THEN conjunct1, THEN mp, OF minq] have q1: "\<forall>depth fuel.
      process_class_expression example_lib depth fuel g_qualified_restriction (BNode ''r'') =
        Some (Inr (Some (RestrictionExpr ''min_qualified'' ''http://ex.org/hasPart'' ''2''
          (Some ''http://ex.org/Wheel''))))"
    by (simp add: oc del: process_class_expression.simps)
  from q [THEN conjunct2, THEN conjunct2, THEN conjunct2] have q2: "\<forall>depth fuel.
      parse_restriction example_lib depth fuel g_qualified_restriction (BNode ''r'') =
        Some (Inr (Some \<lparr>on_property =
                   create_element example_lib g_qualified_restriction
                     (URIRef ''http://ex.org/hasPart'') (Some ''op''),
                  rtype = ''min'', amount = Some ''2'', target_values = [],
                  literal_value = None\<rparr>))"
    by (simp add: minq ty example_lib_def)
  have zonp: "objects g_zero_cardinality (BNode ''r'') (OWL ''onProperty'') =
      URIRef ''http://ex.org/hasPart'' # []"
    by (simp add: objects_def g_zero_cardinality_def vocab_defs)
  have zunq: "list_all (\<lambda>p. objects g_zero_cardinality (BNode ''r'') p = [])
      unqualified_predicates"
    by (simp add: objects_def g_zero_cardinality_def unqualified_predicates_def vocab_defs)
  have zq: "objects g_zero_cardinality (BNode ''r'') (OWL ''minQualifiedCardinality'') = []"
    "objects g_zero_cardinality (BNode ''r'') (OWL ''maxQualifiedCardinality'') = []"
    "objects g_zero_cardinality (BNode ''r'') (OWL ''qualifiedCardinality'') = zero_literal # []"
    by (simp_all add: objects_def g_zero_cardinality_def vocab_defs)
  have zoc: "objects g_zero_cardinality (BNode ''r'') (OWL ''onClass'') =
      [URIRef ''http://ex.org/Wheel'']"
    by (simp add: objects_def g_zero_cardinality_def vocab_defs)
  have ztr: "truthy typed_lib (URIRef ''http://ex.org/hasPart'')" "\<not> truthy typed_lib zero_literal"
    by (simp_all add: typed_lib_def zero_literal_def)
  have zs: "py_str zero_literal = ''0''" by (simp add: zero_literal_def)
  note z = qualified_cardinality_decoding [OF zonp zunq, where lib = typed_lib
      and v = zero_literal and vs = "[]"]
  from zq have "objects g_zero_cardinality (BNode ''r'') (OWL ''minQualifiedCardinality'') = [] \<and>
      objects g_zero_cardinality (BNode ''r'') (OWL ''maxQualifiedCardinality'') = [] \<and>
      objects g_zero_cardinality (BNode ''r'') (OWL ''qualifiedCardinality'') = zero_literal # []"
    by simp
  from z [THEN conjunct2, THEN conjunct2, THEN conjunct1, THEN mp, OF this]
  have z1: "\<forall>depth fuel.
      process_class_expression typed_lib depth fuel g_zero_cardinality (BNode ''r'') =
        Some (Inr (Some (RestrictionExpr ''exactly_qualified'' ''http://ex.org/hasPart'' ''0''
          (Some ''http://ex.org/Wheel''))))"
    by (simp add: zoc zs del: process_class_expression.simps)
  from z [THEN conjunct2, THEN conjunct2, THEN conjunct2] have z2: "\<forall>depth fuel.
      parse_restriction typed_lib depth fuel g_zero_cardinality (BNode ''r'') = Some (Inr None)"
    by (simp add: zq typed_lib_def zero_literal_def example_lib_def)
  show ?thesis by (intro conjI q1 q2 ztr(2) z1 z2)
qed

text \<open>
  Counterexample to C3 as stated.  A node that carries \<open>minQualifiedCardinality\<close>,
  \<open>onProperty\<close> and \<open>onClass\<close> besides \<open>someValuesFrom\<close> decodes to the
  existential restriction, with neither the amount nor the qualifying class; the parser
  decodes a well-formed qualified restriction to a record that holds the property and the
  amount only; and for a qualified cardinality of zero it decodes no restriction at all.
\<close>

theorem qualified_cardinality_counterexample:
  "objects g_mixed_restriction (BNode ''r'') (OWL ''minQualifiedCardinality'') =
     [Literal ''2'' None None] \<and>
   objects g_mixed_restriction (BNode ''r'') (OWL ''onClass'') =
     [URIRef ''http://ex.org/Wheel''] \<and>
   process_class_expression example_lib 0 0 g_mixed_restriction (BNode ''r'') =
     Some (Inr (Some (RestrictionExpr ''some'' ''http://ex.org/hasPart'' ''http://ex.org/Part''
       None))) \<and>
   objects g_qualified_restriction (BNode ''r'') (OWL ''onClass'') =
     [URIRef ''http://ex.org/Wheel''] \<and>
   parse_restriction example_lib 0 0 g_qualified_restriction (BNode ''r'') =
     Some (Inr (Some \<lparr>on_property =
                   create_element example_lib g_qualified_restriction
                     (URIRef ''http://ex.org/hasPart'') (Some ''op''),
                  rtype = ''min'', amount = Some ''2'', target_values = [],
                  literal_value = None\<rparr>)) \<and>
   objects g_zero_cardinality (BNode ''r'') (OWL ''qualifiedCardinality'') = [zero_literal] \<and>
   objects g_zero_cardinality (BNode ''r'') (OWL ''onProperty'') =
     [URIRef ''http://ex.org/hasPart''] \<and>
   parse_restriction typed_lib 0 0 g_zero_cardinality (BNode ''r'') = Some (Inr None)"
proof -
  have a: "objects g_mixed_restriction (BNode ''r'') (OWL ''minQualifiedCardinality'') =
     [Literal ''2'' None None]"
    "objects g_mixed_restriction (BNode ''r'') (OWL ''onClass'') =
     [URIRef ''http://ex.org/Wheel'']"
    "objects g_qualified_restriction (BNode ''r'') (OWL ''onClass'') =
     [URIRef ''http://ex.org/Wheel'']"
    "objects g_zero_cardinality (BNode ''r'') (OWL ''qualifiedCardinality'') = [zero_literal]"
    "objects g_zero_cardinality (BNode ''r'') (OWL ''onProperty'') =
     [URIRef ''http://ex.org/hasPart'']"
    by (simp_all add: objects_def g_mixed_restriction_def g_qualified_restriction_def
        g_zero_cardinality_def vocab_defs)
  have b: "process_class_expression example_lib 0 0 g_mixed_restriction (BNode ''r'') =
     Some (Inr (Some (RestrictionExpr ''some'' ''http://ex.org/hasPart'' ''http://ex.org/Part''
       None)))"
    by (simp add: restriction_types_def objects_def g_mixed_restriction_def vocab_defs)
  from a b example_qualified_parse [of 0 0] example_zero_parse [of 0 0]
  show ?thesis by simp
qed

subsection \<open>Restrictions and classes of the parser: termination\<close>

lemma parse_restriction_bounds:
  assumes "wf (traversal_edges g)"
  shows "\<exists>K D. \<forall>depth. \<exists>r. (\<forall>fuel\<ge>K. parse_restriction lib depth fuel g n = Some r) \<and>
           r \<noteq> Inl Raised \<and> (D \<le> depth \<longrightarrow> \<not> isl r)"
proof -
  have via_target: ?thesis
    if run: "\<And>depth fuel. parse_restriction lib depth fuel g n =
               map_option (map_sum id h) (get_elements_from_target lib depth fuel g t)"
    for h :: "Element list \<Rightarrow> Restriction option" and t
  proof -
    from target_bounds_ex [OF assms, of lib t] obtain K D where tb: "target_bounds lib g t K D"
      by blast
    have "\<exists>r. (\<forall>fuel\<ge>K. parse_restriction lib depth fuel g n = Some r) \<and>
           r \<noteq> Inl Raised \<and> (D \<le> depth \<longrightarrow> \<not> isl r)" for depth
    proof -
      from tb obtain r0 where
        r0: "\<forall>fuel\<ge>K. get_elements_from_target lib depth fuel g t = Some r0"
          "r0 \<noteq> Inl Raised" "D \<le> depth \<longrightarrow> \<not> isl r0"
        unfolding target_bounds_def by blast
      have "\<forall>fuel\<ge>K. parse_restriction lib depth fuel g n = Some (map_sum id h r0)"
        using r0(1) by (simp add: run del: get_elements_from_target.simps)
      moreover have "map_sum id h r0 \<noteq> Inl Raised" using r0(2) by (cases r0) simp_all
      moreover have "D \<le> depth \<longrightarrow> \<not> isl (map_sum id h r0)" using r0(3) by (cases r0) simp_all
      ultimately show ?thesis by blast
    qed
    then show ?thesis by blast
  qed
  have direct: ?thesis
    if "\<And>depth fuel. parse_restriction lib depth fuel g n = Some (Inr x)" for x
  proof -
    have "\<forall>depth. \<exists>r. (\<forall>fuel\<ge>0. parse_restriction lib depth fuel g n = Some r) \<and>
           r \<noteq> Inl Raised \<and> (0 \<le> depth \<longrightarrow> \<not> isl r)"
      using that by (intro allI exI [of _ "Inr x"]) simp
    then show ?thesis by blast
  qed
  show ?thesis
  proof (cases "if_truthy lib (graph_value g n (OWL ''onProperty''))")
    case None
    show ?thesis by (rule direct [of None]) (simp add: parse_restriction_def None)
  next
    case onp: (Some on_prop)
    show ?thesis
    proof (cases "if_truthy lib (graph_value g n (OWL ''someValuesFrom''))")
      case (Some sv)
      show ?thesis
        by (rule via_target [of _ sv])
          (simp add: parse_restriction_def onp Some Let_def del: get_elements_from_target.simps)
    next
      case sv: None
      show ?thesis
      proof (cases "if_truthy lib (graph_value g n (OWL ''allValuesFrom''))")
        case (Some av)
        show ?thesis
          by (rule via_target [of _ av])
            (simp add: parse_restriction_def onp sv Some Let_def
              del: get_elements_from_target.simps)
      next
        case av: None
        have "\<exists>x. \<forall>depth fuel. parse_restriction lib depth fuel g n = Some (Inr x)"
          by (simp add: parse_restriction_def onp sv av Let_def split: option.splits)
        then show ?thesis using direct by blast
      qed
    qed
  qed
qed

lemma class_restrictions_bounds:
  assumes "wf (traversal_edges g)"
  shows "\<exists>K D. \<forall>depth. \<exists>r. (\<forall>fuel\<ge>K. class_restrictions lib depth fuel g obs = Some r) \<and>
           r \<noteq> Inl Raised \<and> (D \<le> depth \<longrightarrow> \<not> isl r)"
proof (induction obs)
  case Nil
  have "\<forall>depth. \<exists>r. (\<forall>fuel\<ge>0. class_restrictions lib depth fuel g [] = Some r) \<and>
           r \<noteq> Inl Raised \<and> (0 \<le> depth \<longrightarrow> \<not> isl r)"
    by (intro allI exI [of _ "Inr []"]) simp
  then show ?case by blast
next
  case (Cons ob obs)
  from Cons.IH obtain K1 D1 where
    k1: "\<forall>depth. \<exists>r. (\<forall>fuel\<ge>K1. class_restrictions lib depth fuel g obs = Some r) \<and>
           r \<noteq> Inl Raised \<and> (D1 \<le> depth \<longrightarrow> \<not> isl r)" by blast
  from parse_restriction_bounds [OF assms, of lib ob] obtain K2 D2 where
    k2: "\<forall>depth. \<exists>r. (\<forall>fuel\<ge>K2. parse_restriction lib depth fuel g ob = Some r) \<and>
           r \<noteq> Inl Raised \<and> (D2 \<le> depth \<longrightarrow> \<not> isl r)" by blast
  have "\<exists>r. (\<forall>fuel\<ge>max K1 K2. class_restrictions lib depth fuel g (ob # obs) = Some r) \<and>
           r \<noteq> Inl Raised \<and> (max D1 D2 \<le> depth \<longrightarrow> \<not> isl r)" for depth
  proof -
    from k1 obtain rs where
      rs: "\<forall>fuel\<ge>K1. class_restrictions lib depth fuel g obs = Some rs"
        "rs \<noteq> Inl Raised" "D1 \<le> depth \<longrightarrow> \<not> isl rs" by blast
    from k2 obtain rp where
      rp: "\<forall>fuel\<ge>K2. parse_restriction lib depth fuel g ob = Some rp"
        "rp \<noteq> Inl Raised" "D2 \<le> depth \<longrightarrow> \<not> isl rp" by blast
    define res where "res =
      (if is_BNode ob \<and> (ob, RDF ''type'', OWL ''Restriction'') \<in> set g then
         (case rp of
            Inl e \<Rightarrow> Inl e
          | Inr None \<Rightarrow> rs
          | Inr (Some restriction) \<Rightarrow> map_sum id (\<lambda>rs. restriction # rs) rs)
       else rs)"
    have "\<forall>fuel\<ge>max K1 K2. class_restrictions lib depth fuel g (ob # obs) = Some res"
      using rs(1) rp(1) by (auto simp: res_def split: sum.splits option.splits)
    moreover have "res \<noteq> Inl Raised"
      using rs(2) rp(2) by (cases rs) (auto simp: res_def split: sum.splits option.splits)
    moreover have "max D1 D2 \<le> depth \<longrightarrow> \<not> isl res"
      using rs(3) rp(3) by (cases rs) (auto simp: res_def split: sum.splits option.splits)
    ultimately show ?thesis by blast
  qed
  then show ?case by blast
qed

lemma class_skos_raises:
  "class_skos_properties lib pos = Inl e \<Longrightarrow>
     e = Raised \<and> (\<exists>(p, ob)\<in>set pos. prefix SKOS_ns (py_str p) \<and> qname lib p = None)"
  by (induction pos) (auto split: if_splits option.splits sum.splits)

lemma create_class_bounds:
  assumes "wf (traversal_edges g)"
  shows "\<exists>K D. \<forall>depth. \<exists>r. (\<forall>fuel\<ge>K. create_class lib depth fuel g n = Some r) \<and>
           (r = Inl RecursionError \<longrightarrow> depth < D) \<and>
           (r = Inl Raised \<longrightarrow> \<not> skos_named lib g)"
proof -
  from class_restrictions_bounds [OF assms, of lib "objects g n (RDFS ''subClassOf'')"]
  obtain K D where
    k: "\<forall>depth. \<exists>r. (\<forall>fuel\<ge>K. class_restrictions lib depth fuel g
             (objects g n (RDFS ''subClassOf'')) = Some r) \<and>
           r \<noteq> Inl Raised \<and> (D \<le> depth \<longrightarrow> \<not> isl r)" by blast
  have sk: "\<not> skos_named lib g" if "class_skos_properties lib (predicate_objects g n) = Inl e"
    for e
  proof -
    from class_skos_raises [OF that] obtain p ob where
      "(p, ob) \<in> set (predicate_objects g n)" "prefix SKOS_ns (py_str p)" "qname lib p = None"
      by blast
    then have "(n, p, ob) \<in> set g" by (simp add: predicate_objects_set)
    with \<open>prefix SKOS_ns (py_str p)\<close> \<open>qname lib p = None\<close> show ?thesis
      unfolding skos_named_def list_all_iff by force
  qed
  have "\<exists>r. (\<forall>fuel\<ge>K. create_class lib depth fuel g n = Some r) \<and>
           (r = Inl RecursionError \<longrightarrow> depth < D) \<and>
           (r = Inl Raised \<longrightarrow> \<not> skos_named lib g)" for depth
  proof -
    from k obtain rs where
      rs: "\<forall>fuel\<ge>K. class_restrictions lib depth fuel g
             (objects g n (RDFS ''subClassOf'')) = Some rs"
        "rs \<noteq> Inl Raised" "D \<le> depth \<longrightarrow> \<not> isl rs" by blast
    show ?thesis
    proof (cases rs)
      case (Inl e)
      with rs(1) have "\<forall>fuel\<ge>K. create_class lib depth fuel g n = Some (Inl e)"
        by (simp add: create_class_def Let_def)
      moreover from Inl rs(2,3) have "e \<noteq> Raised" "depth < D" by auto
      ultimately show ?thesis by (intro exI [of _ "Inl e"]) simp
    next
      case (Inr restr)
      show ?thesis
      proof (cases "class_skos_properties lib (predicate_objects g n)")
        case e: (Inl e)
        from class_skos_raises [OF e] have "e = Raised" by simp
        moreover from Inr e rs(1)
        have "\<forall>fuel\<ge>K. create_class lib depth fuel g n = Some (Inl e)"
          by (simp add: create_class_def Let_def)
        ultimately show ?thesis using sk [OF e] by (intro exI [of _ "Inl e"]) simp
      next
        case s: (Inr skos)
        from Inr s rs(1)
        have "\<exists>c. \<forall>fuel\<ge>K. create_class lib depth fuel g n = Some (Inr c)"
          by (simp add: create_class_def Let_def)
        then obtain c where "\<forall>fuel\<ge>K. create_class lib depth fuel g n = Some (Inr c)"
          by blast
        then show ?thesis by (intro exI [of _ "Inr c"]) simp
      qed
    qed
  qed
  then show ?thesis by blast
qed

lemma create_classes_bounds:
  assumes "wf (traversal_edges g)"
  shows "\<exists>K D. \<forall>depth. \<exists>r. (\<forall>fuel\<ge>K. create_classes lib depth fuel g ss = Some r) \<and>
           (r = Inl RecursionError \<longrightarrow> depth < D) \<and>
           (r = Inl Raised \<longrightarrow> \<not> skos_named lib g)"
proof (induction ss)
  case Nil
  have "\<forall>depth. \<exists>r. (\<forall>fuel\<ge>0. create_classes lib depth fuel g [] = Some r) \<and>
           (r = Inl RecursionError \<longrightarrow> depth < 0) \<and>
           (r = Inl Raised \<longrightarrow> \<not> skos_named lib g)"
    by (intro allI exI [of _ "Inr []"]) simp
  then show ?case by blast
next
  case (Cons s ss)
  from Cons.IH obtain K1 D1 where
    k1: "\<forall>depth. \<exists>r. (\<forall>fuel\<ge>K1. create_classes lib depth fuel g ss = Some r) \<and>
           (r = Inl RecursionError \<longrightarrow> depth < D1) \<and>
           (r = Inl Raised \<longrightarrow> \<not> skos_named lib g)" by blast
  from create_class_bounds [OF assms, of lib s] obtain K2 D2 where
    k2: "\<forall>depth. \<exists>r. (\<forall>fuel\<ge>K2. create_class lib depth fuel g s = Some r) \<and>
           (r = Inl RecursionError \<longrightarrow> depth < D2) \<and>
           (r = Inl Raised \<longrightarrow> \<not> skos_named lib g)" by blast
  have "\<exists>r. (\<forall>fuel\<ge>max K1 K2. create_classes lib depth fuel g (s # ss) = Some r) \<and>
           (r = Inl RecursionError \<longrightarrow> depth < max D1 D2) \<and>
           (r = Inl Raised \<longrightarrow> \<not> skos_named lib g)" for depth
  proof -
    from k1 obtain rs where
      rs: "\<forall>fuel\<ge>K1. create_classes lib depth fuel g ss = Some rs"
        "rs = Inl RecursionError \<longrightarrow> depth < D1"
        "rs = Inl Raised \<longrightarrow> \<not> skos_named lib g" by blast
    from k2 obtain rc where
      rc: "\<forall>fuel\<ge>K2. create_class lib depth fuel g s = Some rc"
        "rc = Inl RecursionError \<longrightarrow> depth < D2"
        "rc = Inl Raised \<longrightarrow> \<not> skos_named lib g" by blast
    define res where "res =
      (if is_BNode s then rs
       else (case rc of
               Inl e \<Rightarrow> Inl e
             | Inr c \<Rightarrow> (case rs of Inl e \<Rightarrow> Inl e | Inr cs \<Rightarrow> Inr (c # cs))))"
    have "\<forall>fuel\<ge>max K1 K2. create_classes lib depth fuel g (s # ss) = Some res"
      using rs(1) rc(1) by (auto simp: res_def split: sum.splits)
    moreover have "res = Inl RecursionError \<longrightarrow> depth < max D1 D2"
      using rs(2) rc(2) by (auto simp: res_def split: sum.splits if_splits)
    moreover have "res = Inl Raised \<longrightarrow> \<not> skos_named lib g"
      using rs(3) rc(3) by (auto simp: res_def split: sum.splits if_splits)
    ultimately show ?thesis by blast
  qed
  then show ?case by blast
qed

lemma get_classes_bounds:
  assumes "wf (traversal_edges g)"
  shows "\<exists>K D. \<forall>depth. \<exists>r. (\<forall>fuel\<ge>K. get_classes lib depth fuel g = Some r) \<and>
           (r = Inl RecursionError \<longrightarrow> depth < D) \<and>
           (r = Inl Raised \<longrightarrow> \<not> skos_named lib g)"
proof -
  from create_classes_bounds [OF assms, of lib "subjects g (RDF ''type'') (OWL ''Class'')"]
  obtain K D where
    k: "\<forall>depth. \<exists>r. (\<forall>fuel\<ge>K. create_classes lib depth fuel g
             (subjects g (RDF ''type'') (OWL ''Class'')) = Some r) \<and>
           (r = Inl RecursionError \<longrightarrow> depth < D) \<and>
           (r = Inl Raised \<longrightarrow> \<not> skos_named lib g)" by blast
  have "\<exists>r. (\<forall>fuel\<ge>K. get_classes lib depth fuel g = Some r) \<and>
           (r = Inl RecursionError \<longrightarrow> depth < D) \<and>
           (r = Inl Raised \<longrightarrow> \<not> skos_named lib g)" for depth
  proof -
    from k obtain rs where
      rs: "\<forall>fuel\<ge>K. create_classes lib depth fuel g
             (subjects g (RDF ''type'') (OWL ''Class'')) = Some rs"
        "rs = Inl RecursionError \<longrightarrow> depth < D"
        "rs = Inl Raised \<longrightarrow> \<not> skos_named lib g" by blast
    define res where "res = map_sum id (sort_key label_or_uri) rs"
    have "\<forall>fuel\<ge>K. get_classes lib depth fuel g = Some res"
      using rs(1) by (cases rs) (simp_all add: get_classes_def res_def)
    moreover have "res = Inl RecursionError \<longrightarrow> depth < D"
      using rs(2) by (cases rs) (simp_all add: res_def)
    moreover have "res = Inl Raised \<longrightarrow> \<not> skos_named lib g"
      using rs(3) by (cases rs) (simp_all add: res_def)
    ultimately show ?thesis by blast
  qed
  then show ?thesis by blast
qed

lemma create_classes_members:
  "create_classes lib depth fuel g ss = Some (Inr cs) \<Longrightarrow>
     list_all2 (\<lambda>s c. create_class lib depth fuel g s = Some (Inr c))
       (filter (\<lambda>s. \<not> is_BNode s) ss) cs"
proof (induction ss arbitrary: cs)
  case Nil
  then show ?case by simp
next
  case (Cons s ss)
  show ?case
  proof (cases "is_BNode s")
    case True
    with Cons show ?thesis by simp
  next
    case False
    with Cons.prems obtain c cs' where
      "create_class lib depth fuel g s = Some (Inr c)"
      "create_classes lib depth fuel g ss = Some (Inr cs')" "cs = c # cs'"
      by (auto split: option.splits sum.splits)
    with Cons.IH [of cs'] False show ?thesis by simp
  qed
qed

lemma get_classes_members:
  assumes "get_classes lib depth fuel g = Some (Inr cs)"
  shows "\<exists>cs0. list_all2 (\<lambda>s c. create_class lib depth fuel g s = Some (Inr c))
           (filter (\<lambda>s. \<not> is_BNode s) (subjects g (RDF ''type'') (OWL ''Class''))) cs0 \<and>
         cs = sort_key label_or_uri cs0"
proof -
  from assms obtain cs0 where
    c: "create_classes lib depth fuel g (subjects g (RDF ''type'') (OWL ''Class'')) =
          Some (Inr cs0)" "cs = sort_key label_or_uri cs0"
    by (auto simp: get_classes_def split: option.splits sum.splits)
  from create_classes_members [OF c(1)] c(2) show ?thesis by blast
qed


subsection \<open>Entity listings\<close>

text \<open>
  Claim C10, as amended.  On every graph, the listings of the object, datatype and
  annotation properties and of the named individuals are sorted in ascending order of the
  key \<open>label or uri\<close> (the label, or the URI when the label is absent or empty), and
  each holds exactly the entities built from the subjects of its type that are not blank
  nodes; the listing of all properties is sorted and holds the entities of the three
  property listings.

  A listing that \<open>get_classes\<close> returns is sorted and holds exactly the classes built
  from the subjects of type \<open>owl:Class\<close> that are not blank nodes.  On a graph whose
  list encoding is acyclic \<open>get_classes\<close> ends within a bounded number of iterations
  at every depth: it returns a listing, or it raises \<open>RecursionError\<close>, and that only
  when the stack admits fewer than \<open>D\<close> nested calls, or it raises the error of the
  library's \<open>qname\<close>, and that only when a SKOS predicate of the graph has no
  prefixed name.
\<close>

theorem listings_sorted:
  "sorted (map label_or_uri (get_object_properties lib g)) \<and>
   mset (get_object_properties lib g) =
     mset (map (\<lambda>s. create_property lib g s ''ObjectProperty'' ''op'')
       (filter (\<lambda>s. \<not> is_BNode s) (subjects g (RDF ''type'') (OWL ''ObjectProperty'')))) \<and>
   sorted (map label_or_uri (get_datatype_properties lib g)) \<and>
   mset (get_datatype_properties lib g) =
     mset (map (\<lambda>s. create_property lib g s ''DatatypeProperty'' ''dp'')
       (filter (\<lambda>s. \<not> is_BNode s) (subjects g (RDF ''type'') (OWL ''DatatypeProperty'')))) \<and>
   sorted (map label_or_uri (get_annotation_properties lib g)) \<and>
   mset (get_annotation_properties lib g) =
     mset (map (\<lambda>s. create_property lib g s ''AnnotationProperty'' ''ap'')
       (filter (\<lambda>s. \<not> is_BNode s) (subjects g (RDF ''type'') (OWL ''AnnotationProperty'')))) \<and>
   sorted (map label_or_uri (get_properties lib g)) \<and>
   mset (get_properties lib g) =
     mset (get_object_properties lib g) + mset (get_datatype_properties lib g) +
     mset (get_annotation_properties lib g) \<and>
   sorted (map label_or_uri (get_named_individuals lib g)) \<and>
   mset (get_named_individuals lib g) =
     mset (map (named_individual lib g)
       (filter (\<lambda>s. \<not> is_BNode s) (subjects g (RDF ''type'') (OWL ''NamedIndividual'')))) \<and>
   (get_classes lib depth fuel g = Some (Inr cs) \<longrightarrow>
      sorted (map label_or_uri cs) \<and>
      (\<exists>cs0. list_all2 (\<lambda>s c. create_class lib depth fuel g s = Some (Inr c))
                (filter (\<lambda>s. \<not> is_BNode s) (subjects g (RDF ''type'') (OWL ''Class''))) cs0 \<and>
              mset cs = mset cs0)) \<and>
   (acyclic (traversal_edges g) \<longrightarrow>
      (\<exists>K D. \<forall>depth. \<exists>r.
         (\<forall>fuel\<ge>K. get_classes lib depth fuel g = Some r) \<and>
         ((\<exists>classes. r = Inr classes) \<or> r = Inl RecursionError \<and> depth < D \<or>
          r = Inl Raised \<and> \<not> skos_named lib g))) \<and>
   (label x = None \<or> label x = Some [] \<longrightarrow> label_or_uri x = uri x) \<and>
   (label x = Some l \<and> l \<noteq> [] \<longrightarrow> label_or_uri x = l)"
proof -
  have props: "sorted (map label_or_uri (get_object_properties lib g))"
    "sorted (map label_or_uri (get_datatype_properties lib g))"
    "sorted (map label_or_uri (get_annotation_properties lib g))"
    "sorted (map label_or_uri (get_properties lib g))"
    "sorted (map label_or_uri (get_named_individuals lib g))"
    by (simp_all add: get_object_properties_def get_datatype_properties_def
        get_annotation_properties_def get_properties_def get_named_individuals_def)
  have holds: "mset (get_object_properties lib g) =
     mset (map (\<lambda>s. create_property lib g s ''ObjectProperty'' ''op'')
       (filter (\<lambda>s. \<not> is_BNode s) (subjects g (RDF ''type'') (OWL ''ObjectProperty''))))"
    "mset (get_datatype_properties lib g) =
     mset (map (\<lambda>s. create_property lib g s ''DatatypeProperty'' ''dp'')
       (filter (\<lambda>s. \<not> is_BNode s) (subjects g (RDF ''type'') (OWL ''DatatypeProperty''))))"
    "mset (get_annotation_properties lib g) =
     mset (map (\<lambda>s. create_property lib g s ''AnnotationProperty'' ''ap'')
       (filter (\<lambda>s. \<not> is_BNode s) (subjects g (RDF ''type'') (OWL ''AnnotationProperty''))))"
    "mset (get_properties lib g) =
     mset (get_object_properties lib g) + mset (get_datatype_properties lib g) +
     mset (get_annotation_properties lib g)"
    "mset (get_named_individuals lib g) =
     mset (map (named_individual lib g)
       (filter (\<lambda>s. \<not> is_BNode s) (subjects g (RDF ''type'') (OWL ''NamedIndividual''))))"
    by (simp_all add: get_object_properties_def get_datatype_properties_def
        get_annotation_properties_def get_properties_def get_named_individuals_def)
  have classes: "sorted (map label_or_uri cs) \<and>
      (\<exists>cs0. list_all2 (\<lambda>s c. create_class lib depth fuel g s = Some (Inr c))
                (filter (\<lambda>s. \<not> is_BNode s) (subjects g (RDF ''type'') (OWL ''Class''))) cs0 \<and>
              mset cs = mset cs0)"
    if r: "get_classes lib depth fuel g = Some (Inr cs)"
  proof -
    from get_classes_members [OF r] obtain cs0 where
      c: "list_all2 (\<lambda>s c. create_class lib depth fuel g s = Some (Inr c))
           (filter (\<lambda>s. \<not> is_BNode s) (subjects g (RDF ''type'') (OWL ''Class''))) cs0"
        "cs = sort_key label_or_uri cs0" by blast
    from c(2) have "sorted (map label_or_uri cs)" "mset cs = mset cs0" by simp_all
    with c(1) show ?thesis by blast
  qed
  have ends: "\<exists>K D. \<forall>depth. \<exists>r.
         (\<forall>fuel\<ge>K. get_classes lib depth fuel g = Some r) \<and>
         ((\<exists>classes. r = Inr classes) \<or> r = Inl RecursionError \<and> depth < D \<or>
          r = Inl Raised \<and> \<not> skos_named lib g)"
    if a: "acyclic (traversal_edges g)"
  proof -
    from get_classes_bounds [OF wf_traversal_edges [OF a], of lib] obtain K D where
      k: "\<forall>depth. \<exists>r. (\<forall>fuel\<ge>K. get_classes lib depth fuel g = Some r) \<and>
           (r = Inl RecursionError \<longrightarrow> depth < D) \<and>
           (r = Inl Raised \<longrightarrow> \<not> skos_named lib g)" by blast
    have "\<exists>r. (\<forall>fuel\<ge>K. get_classes lib depth fuel g = Some r) \<and>
         ((\<exists>classes. r = Inr classes) \<or> r = Inl RecursionError \<and> depth < D \<or>
          r = Inl Raised \<and> \<not> skos_named lib g)" for depth
    proof -
      from k obtain r where
        r: "\<forall>fuel\<ge>K. get_classes lib depth fuel g = Some r"
          "r = Inl RecursionError \<longrightarrow> depth < D"
          "r = Inl Raised \<longrightarrow> \<not> skos_named lib g" by blast
      have "(\<exists>classes. r = Inr classes) \<or> r = Inl RecursionError \<and> depth < D \<or>
          r = Inl Raised \<and> \<not> skos_named lib g"
      proof (cases r)
        case (Inl e)
        with r(2,3) show ?thesis by (cases e) simp_all
      next
        case (Inr classes)
        then show ?thesis by simp
      qed
      with r(1) show ?thesis by blast
    qed
    then show ?thesis by (intro exI [of _ K] exI [of _ D] allI)
  qed
  have key: "label x = None \<or> label x = Some [] \<longrightarrow> label_or_uri x = uri x"
    "label x = Some l \<and> l \<noteq> [] \<longrightarrow> label_or_uri x = l"
    by (auto simp: label_or_uri_def)
  from classes have c: "get_classes lib depth fuel g = Some (Inr cs) \<longrightarrow>
      sorted (map label_or_uri cs) \<and>
      (\<exists>cs0. list_all2 (\<lambda>s c. create_class lib depth fuel g s = Some (Inr c))
                (filter (\<lambda>s. \<not> is_BNode s) (subjects g (RDF ''type'') (OWL ''Class''))) cs0 \<and>
              mset cs = mset cs0)"
    by (rule impI)
  from ends have e: "acyclic (traversal_edges g) \<longrightarrow>
      (\<exists>K D. \<forall>depth. \<exists>r.
         (\<forall>fuel\<ge>K. get_classes lib depth fuel g = Some r) \<and>
         ((\<exists>classes. r = Inr classes) \<or> r = Inl RecursionError \<and> depth < D \<or>
          r = Inl Raised \<and> \<not> skos_named lib g))"
    by (rule impI)
  show ?thesis
    by (intro conjI props holds c e key)
qed


lemma example_object_properties:
  "map label_or_uri (get_object_properties example_lib g_properties) = [''admires'', ''knows''] \<and>
   map uri (get_object_properties example_lib g_properties) =
     [''http://ex.org/likes'', ''http://ex.org/knows'']"
proof -
  have s: "filter (\<lambda>s. \<not> is_BNode s) (subjects g_properties (RDF ''type'') (OWL ''ObjectProperty'')) =
      [URIRef ''http://ex.org/knows'', URIRef ''http://ex.org/likes'']"
    by (simp add: subjects_def g_properties_def vocab_defs)
  have k: "label_or_uri (create_property example_lib g_properties (URIRef ''http://ex.org/knows'')
        ''ObjectProperty'' ''op'') = ''knows''"
    "uri (create_property example_lib g_properties (URIRef ''http://ex.org/knows'')
        ''ObjectProperty'' ''op'') = ''http://ex.org/knows''"
    by (simp_all add: label_or_uri_def create_property_def get_label_or_qname_def get_literal_def
        extract_preferred_and_others_def candidates_def objects_def g_properties_def
        vocab_defs Let_def)
  have l: "label_or_uri (create_property example_lib g_properties (URIRef ''http://ex.org/likes'')
        ''ObjectProperty'' ''op'') = ''admires''"
    "uri (create_property example_lib g_properties (URIRef ''http://ex.org/likes'')
        ''ObjectProperty'' ''op'') = ''http://ex.org/likes''"
    by (simp_all add: label_or_uri_def create_property_def get_label_or_qname_def get_literal_def
        extract_preferred_and_others_def candidates_def objects_def g_properties_def
        vocab_defs Let_def)
  have le: "\<not> ''knows'' \<le> ''admires''"
    by (simp add: less_char_def)
  show ?thesis
    by (simp add: get_object_properties_def s k l le)
qed

lemma acyclic_g_union_class: "acyclic (traversal_edges g_union_class)"
proof -
  define rank :: "node \<Rightarrow> nat" where
    "rank n = (if n = BNode ''u'' then 3 else if n = BNode ''l1'' then 2
               else if n = BNode ''l2'' then 1 else 0)" for n
  have "traversal_edges g_union_class \<subseteq> measure rank"
    by (auto simp: traversal_edges_def g_union_class_def list_predicates_def rank_def vocab_defs)
  then have "wf (traversal_edges g_union_class)"
    by (rule wf_subset [OF wf_measure])
  then show ?thesis by (rule wf_acyclic)
qed

lemma example_union_targets:
  "get_elements_from_target example_lib 0 (Suc (Suc 0)) g_union_class (BNode ''u'') =
     Some (Inl RecursionError)"
  "get_elements_from_target example_lib (Suc 0) (Suc (Suc 0)) g_union_class (BNode ''u'') =
     Some (Inr [target_element ''http://ex.org/A'' ''ex:A'',
                target_element ''http://ex.org/B'' ''ex:B''])"
  by (simp_all add: g_union_class_def objects_def graph_value_def vocab_defs target_label_def
      get_literal_def extract_preferred_and_others_def candidates_def example_lib_defs)

lemma example_union_restrictions:
  "class_restrictions example_lib 0 (Suc (Suc 0)) g_union_class [BNode ''r''] =
     Some (Inl RecursionError)"
  "class_restrictions example_lib (Suc 0) (Suc (Suc 0)) g_union_class [BNode ''r''] =
     Some (Inr [\<lparr>on_property =
                   create_element example_lib g_union_class
                     (URIRef ''http://ex.org/hasPart'') (Some ''op''),
                 rtype = ''some'', amount = None,
                 target_values = [target_element ''http://ex.org/A'' ''ex:A'',
                                  target_element ''http://ex.org/B'' ''ex:B''],
                 literal_value = None\<rparr>])"
proof -
  have onp: "if_truthy example_lib (graph_value g_union_class (BNode ''r'') (OWL ''onProperty'')) =
      Some (URIRef ''http://ex.org/hasPart'')"
    by (simp add: if_truthy_def graph_value_def g_union_class_def objects_def vocab_defs)
  have sv: "if_truthy example_lib (graph_value g_union_class (BNode ''r'') (OWL ''someValuesFrom'')) =
      Some (BNode ''u'')"
    by (simp add: if_truthy_def graph_value_def g_union_class_def objects_def vocab_defs)
  have ty: "(BNode ''r'', RDF ''type'', OWL ''Restriction'') \<in> set g_union_class"
    "(URIRef ''http://ex.org/hasPart'', RDF ''type'', x) \<notin> set g_union_class" for x
    by (simp_all add: g_union_class_def vocab_defs)
  show "class_restrictions example_lib 0 (Suc (Suc 0)) g_union_class [BNode ''r''] =
     Some (Inl RecursionError)"
    by (simp add: parse_restriction_def onp sv ty example_union_targets Let_def
        del: get_elements_from_target.simps)
  show "class_restrictions example_lib (Suc 0) (Suc (Suc 0)) g_union_class [BNode ''r''] =
     Some (Inr [\<lparr>on_property =
                   create_element example_lib g_union_class
                     (URIRef ''http://ex.org/hasPart'') (Some ''op''),
                 rtype = ''some'', amount = None,
                 target_values = [target_element ''http://ex.org/A'' ''ex:A'',
                                  target_element ''http://ex.org/B'' ''ex:B''],
                 literal_value = None\<rparr>])"
    by (simp add: parse_restriction_def onp sv ty example_union_targets Let_def
        del: get_elements_from_target.simps)
qed

lemma example_union_classes:
  "get_classes example_lib 0 (Suc (Suc 0)) g_union_class = Some (Inl RecursionError)"
  "\<exists>c. get_classes example_lib (Suc 0) (Suc (Suc 0)) g_union_class = Some (Inr [c]) \<and>
       uri c = ''http://ex.org/Car'' \<and>
       map (\<lambda>r. map uri (target_values r)) (restrictions c) =
         [[''http://ex.org/A'', ''http://ex.org/B'']]"
proof -
  have s: "subjects g_union_class (RDF ''type'') (OWL ''Class'') = [URIRef ''http://ex.org/Car'']"
    by (simp add: g_union_class_def subjects_def vocab_defs)
  have sc: "objects g_union_class (URIRef ''http://ex.org/Car'') (RDFS ''subClassOf'') =
      [BNode ''r'']"
    by (simp add: g_union_class_def objects_def vocab_defs)
  have po: "class_skos_properties example_lib
      (predicate_objects g_union_class (URIRef ''http://ex.org/Car'')) = Inr []"
    by (simp add: predicate_objects_def g_union_class_def objects_def SKOS_ns_def vocab_defs)
  show "get_classes example_lib 0 (Suc (Suc 0)) g_union_class = Some (Inl RecursionError)"
    by (simp add: get_classes_def s create_class_def sc example_union_restrictions Let_def
        del: class_restrictions.simps)
  have "\<exists>c. create_class example_lib (Suc 0) (Suc (Suc 0)) g_union_class
          (URIRef ''http://ex.org/Car'') = Some (Inr c) \<and>
       uri c = ''http://ex.org/Car'' \<and>
       map (\<lambda>r. map uri (target_values r)) (restrictions c) =
         [[''http://ex.org/A'', ''http://ex.org/B'']]"
    by (simp add: create_class_def sc po example_union_restrictions target_element_def Let_def
        del: class_restrictions.simps)
  then obtain c where
    c: "create_class example_lib (Suc 0) (Suc (Suc 0)) g_union_class
          (URIRef ''http://ex.org/Car'') = Some (Inr c)"
      "uri c = ''http://ex.org/Car''"
      "map (\<lambda>r. map uri (target_values r)) (restrictions c) =
         [[''http://ex.org/A'', ''http://ex.org/B'']]"
    by (elim exE conjE)
  from c(1) have gc: "get_classes example_lib (Suc 0) (Suc (Suc 0)) g_union_class =
      Some (Inr [c])"
    by (simp add: get_classes_def s)
  show "\<exists>c. get_classes example_lib (Suc 0) (Suc (Suc 0)) g_union_class = Some (Inr [c]) \<and>
       uri c = ''http://ex.org/Car'' \<and>
       map (\<lambda>r. map uri (target_values r)) (restrictions c) =
         [[''http://ex.org/A'', ''http://ex.org/B'']]"
    by (rule exI [of _ c]) (simp add: gc c(2,3))
qed

text \<open>
  Witness of C10.  Two object properties come out in the order of their labels, not of
  their declaration.  The graph of the class \<open>ex:Car\<close>, whose restriction has a union
  as target, is acyclic and has no SKOS predicate: \<open>get_classes\<close> ends on it at every
  depth; it raises \<open>RecursionError\<close> when the stack admits no nested call and returns
  the listing of the one class when it admits one.
\<close>

theorem listings_sorted_witness:
  "map label_or_uri (get_object_properties example_lib g_properties) = [''admires'', ''knows''] \<and>
   sorted [''admires'', ''knows''] \<and>
   acyclic (traversal_edges g_union_class) \<and>
   skos_named example_lib g_union_class \<and>
   (\<exists>K D. \<forall>depth. \<exists>r.
      (\<forall>fuel\<ge>K. get_classes example_lib depth fuel g_union_class = Some r) \<and>
      ((\<exists>classes. r = Inr classes) \<or> r = Inl RecursionError \<and> depth < D \<or>
       r = Inl Raised \<and> \<not> skos_named example_lib g_union_class)) \<and>
   get_classes example_lib 0 2 g_union_class = Some (Inl RecursionError) \<and>
   (\<exists>c. get_classes example_lib 1 2 g_union_class = Some (Inr [c]) \<and>
        uri c = ''http://ex.org/Car'' \<and>
        map (\<lambda>r. map uri (target_values r)) (restrictions c) =
          [[''http://ex.org/A'', ''http://ex.org/B'']])"
proof -
  have a: "acyclic (traversal_edges g_union_class)" by (rule acyclic_g_union_class)
  have b: "skos_named example_lib g_union_class"
    by (simp add: skos_named_def g_union_class_def SKOS_ns_def vocab_defs)
  note t = listings_sorted [where lib = example_lib and g = g_properties, THEN conjunct1]
  note u = listings_sorted [where lib = example_lib and g = g_union_class,
      THEN conjunct2, THEN conjunct2, THEN conjunct2, THEN conjunct2, THEN conjunct2, THEN conjunct2, THEN conjunct2, THEN conjunct2, THEN conjunct2, THEN conjunct2, THEN conjunct2, THEN conjunct1, THEN mp, OF a]
  from t have s: "sorted [''admires'', ''knows'']"
    by (simp only: example_object_properties)
  have c0: "get_classes example_lib 0 2 g_union_class = Some (Inl RecursionError)"
    using example_union_classes(1) by (simp only: numeral_2_eq_2)
  have c1: "\<exists>c. get_classes example_lib 1 2 g_union_class = Some (Inr [c]) \<and>
        uri c = ''http://ex.org/Car'' \<and>
        map (\<lambda>r. map uri (target_values r)) (restrictions c) =
          [[''http://ex.org/A'', ''http://ex.org/B'']]"
    using example_union_classes(2) by (simp only: numeral_2_eq_2 One_nat_def)
  show ?thesis
    by (intro conjI example_object_properties [THEN conjunct1] s a b u c0 c1)
qed

lemma cyclic_union_loop_no_fuel:
  "union_loop example_lib (Suc depth) fuel g_cyclic_class (BNode ''l1'') els = None"
proof (induction fuel arbitrary: els)
  case 0
  show ?case by (simp add: vocab_defs)
next
  case (Suc fuel)
  have f: "graph_value g_cyclic_class (BNode ''l1'') (RDF ''first'') =
      Some (URIRef ''http://ex.org/A'')"
    by (simp add: graph_value_def g_cyclic_class_def objects_def vocab_defs)
  have r: "graph_value g_cyclic_class (BNode ''l1'') (RDF ''rest'') = Some (BNode ''l1'')"
    by (simp add: graph_value_def g_cyclic_class_def objects_def vocab_defs)
  have n: "BNode ''l1'' \<noteq> RDF ''nil''" by (simp add: RDF_def)
  show ?case
    by (simp add: f r n Suc.IH)
qed

text \<open>
  Counterexample to C10 as stated: on a graph with a class that has an existential
  restriction on a union with a cyclic list, \<open>get_classes\<close> returns no listing,
  whatever the budget of iterations, when the stack admits a nested call.
\<close>

theorem get_classes_cyclic_counterexample:
  "\<forall>depth fuel. get_classes example_lib (Suc depth) fuel g_cyclic_class = None"
proof (intro allI)
  fix depth fuel
  have u: "graph_value g_cyclic_class (BNode ''u'') (OWL ''unionOf'') = Some (BNode ''l1'')"
    by (simp add: graph_value_def g_cyclic_class_def objects_def vocab_defs)
  have t: "get_elements_from_target example_lib (Suc depth) fuel g_cyclic_class (BNode ''u'') =
      None"
    by (simp add: u cyclic_union_loop_no_fuel)
  have onp: "if_truthy example_lib (graph_value g_cyclic_class (BNode ''r'') (OWL ''onProperty'')) =
      Some (URIRef ''http://ex.org/hasPart'')"
    by (simp add: if_truthy_def graph_value_def g_cyclic_class_def objects_def vocab_defs)
  have sv: "if_truthy example_lib (graph_value g_cyclic_class (BNode ''r'') (OWL ''someValuesFrom'')) =
      Some (BNode ''u'')"
    by (simp add: if_truthy_def graph_value_def g_cyclic_class_def objects_def vocab_defs)
  have p: "parse_restriction example_lib (Suc depth) fuel g_cyclic_class (BNode ''r'') = None"
    by (simp add: parse_restriction_def onp sv t Let_def del: get_elements_from_target.simps)
  have sc: "objects g_cyclic_class (URIRef ''http://ex.org/Car'') (RDFS ''subClassOf'') =
      [BNode ''r'']"
    by (simp add: g_cyclic_class_def objects_def vocab_defs)
  have ty: "(BNode ''r'', RDF ''type'', OWL ''Restriction'') \<in> set g_cyclic_class"
    by (simp add: g_cyclic_class_def)
  have c: "create_class example_lib (Suc depth) fuel g_cyclic_class
      (URIRef ''http://ex.org/Car'') = None"
    by (simp add: create_class_def sc ty p Let_def)
  have s: "subjects g_cyclic_class (RDF ''type'') (OWL ''Class'') = [URIRef ''http://ex.org/Car'']"
    by (simp add: g_cyclic_class_def subjects_def vocab_defs)
  show "get_classes example_lib (Suc depth) fuel g_cyclic_class = None"
    by (simp add: get_classes_def s c)
qed

end
